(* ===== verification/Prelude.thy ===== *)
theory Prelude
  imports Main "HOL-Library.Word" "HOL-Library.Monad_Syntax"
begin

text \<open>
  The prelude of the development: the machine types, byte buffers with checked loads and
  stores, the byte order conversions, and the interface \<open>codec\<close> of the fixed-size C
  objects (integers, MAC addresses, packed structs) that the programs copy in and out of
  packets. A load or a store outside the buffer is \<open>None\<close>: a model of a program returns
  \<open>Some\<close> exactly when every access it makes lies between \<open>data\<close> and \<open>data_end\<close>.
\<close>

unbundle bit_operations_syntax

named_theorems buf_simps \<open>loads and stores on buffers given as concatenations\<close>

type_synonym u8 = "8 word"
type_synonym u16 = "16 word"
type_synonym u32 = "32 word"
type_synonym u64 = "64 word"
type_synonym bytes = "u8 list"

lemma xor_eq_0_iff [simp]: "(a XOR b = 0) = (a = b)" for a b :: "'a::len word"
  by (metis xor.left_neutral xor.assoc xor_self_eq xor.right_neutral)

section \<open>Checked access to a byte buffer\<close>

definition ld_bytes :: "bytes \<Rightarrow> nat \<Rightarrow> nat \<Rightarrow> bytes option" where
  "ld_bytes p i n = (if i + n \<le> length p then Some (take n (drop i p)) else None)"

definition st_bytes :: "bytes \<Rightarrow> nat \<Rightarrow> bytes \<Rightarrow> bytes option" where
  "st_bytes p i bs =
     (if i + length bs \<le> length p then Some (take i p @ bs @ drop (i + length bs) p) else None)"

lemma ld_bytes_Some_iff: "(ld_bytes p i n = Some bs) = (i + n \<le> length p \<and> bs = take n (drop i p))"
  by (auto simp: ld_bytes_def)

lemma ld_bytes_in [simp]: "i + n \<le> length p \<Longrightarrow> ld_bytes p i n = Some (take n (drop i p))"
  by (simp add: ld_bytes_def)

lemma st_bytes_in [simp]:
  "i + length bs \<le> length p \<Longrightarrow> st_bytes p i bs = Some (take i p @ bs @ drop (i + length bs) p)"
  by (simp add: st_bytes_def)

lemma st_bytes_length: "st_bytes p i bs = Some q \<Longrightarrow> length q = length p"
  by (auto simp: st_bytes_def split: if_splits)

lemma ld_bytes_append [buf_simps]:
  "i = length a \<Longrightarrow> n = length b \<Longrightarrow> ld_bytes (a @ b @ c) i n = Some b"
  by simp

lemma st_bytes_append [buf_simps]:
  "i = length a \<Longrightarrow> length bs = length b \<Longrightarrow> st_bytes (a @ b @ c) i bs = Some (a @ bs @ c)"
  by simp

section \<open>Little-endian integers\<close>

text \<open>
  The programs run on a little-endian machine (\<^verbatim>\<open>chacha_kern.c\<close> says so, the BPF target is
  the host's byte order), so a load of a \<^verbatim>\<open>__u16\<close> or \<^verbatim>\<open>__u32\<close> field of a packet puts the
  first byte in the low bits. The conversions \<^verbatim>\<open>bpf_ntohs\<close>, \<^verbatim>\<open>bpf_htons\<close>, \<^verbatim>\<open>bpf_ntohl\<close> and
  \<^verbatim>\<open>bpf_htonl\<close> of such a value are the byte swaps \<open>bswap16\<close> and \<open>bswap32\<close>.
\<close>

definition byte_of :: "nat \<Rightarrow> 'a::len word \<Rightarrow> u8" where
  "byte_of k w = ucast (drop_bit (8 * k) w)"

definition enc8 :: "u8 \<Rightarrow> bytes" where
  "enc8 w = [w]"

definition dec8 :: "bytes \<Rightarrow> u8" where
  "dec8 bs = bs ! 0"

definition enc16 :: "u16 \<Rightarrow> bytes" where
  "enc16 w = [byte_of 0 w, byte_of 1 w]"

definition dec16 :: "bytes \<Rightarrow> u16" where
  "dec16 bs = ucast (bs ! 0) OR push_bit 8 (ucast (bs ! 1))"

definition enc32 :: "u32 \<Rightarrow> bytes" where
  "enc32 w = [byte_of 0 w, byte_of 1 w, byte_of 2 w, byte_of 3 w]"

definition dec32 :: "bytes \<Rightarrow> u32" where
  "dec32 bs = ucast (bs ! 0) OR push_bit 8 (ucast (bs ! 1)) OR
              push_bit 16 (ucast (bs ! 2)) OR push_bit 24 (ucast (bs ! 3))"

definition enc64 :: "u64 \<Rightarrow> bytes" where
  "enc64 w = enc32 (ucast w) @ enc32 (ucast (drop_bit 32 w))"

definition dec64 :: "bytes \<Rightarrow> u64" where
  "dec64 bs = ucast (dec32 (take 4 bs)) OR push_bit 32 (ucast (dec32 (drop 4 bs)))"

definition bswap16 :: "u16 \<Rightarrow> u16" where
  "bswap16 w = dec16 (rev (enc16 w))"

definition bswap32 :: "u32 \<Rightarrow> u32" where
  "bswap32 w = dec32 (rev (enc32 w))"

lemma bit_u8_less: "bit (x :: u8) n \<Longrightarrow> n < 8"
  by (auto dest: bit_imp_le_length)

lemma bit_u8_ge [simp]: "8 \<le> n \<Longrightarrow> \<not> bit (x :: u8) n"
  using bit_u8_less by fastforce

lemma byte_eqI: "(\<And>n. n < 8 \<Longrightarrow> bit (x :: u8) n = bit y n) \<Longrightarrow> x = y"
  by (rule bit_word_eqI) simp

lemma length_enc [simp]:
  "length (enc8 b) = 1" "length (enc16 h) = 2" "length (enc32 w) = 4" "length (enc64 d) = 8"
  by (simp_all add: enc8_def enc16_def enc32_def enc64_def)

lemma list_of_length_2: "length xs = 2 \<Longrightarrow> \<exists>a b. xs = [a, b]"
  by (auto simp: numeral_2_eq_2 length_Suc_conv)

lemma list_of_length_4: "length xs = 4 \<Longrightarrow> \<exists>a b c d. xs = [a, b, c, d]"
  by (auto simp: numeral_eq_Suc length_Suc_conv)

lemma dec16_enc16 [simp]: "dec16 (enc16 w) = w"
  unfolding dec16_def enc16_def byte_of_def by (rule bit_word_eqI) (auto simp: bit_simps)

lemma dec32_enc32 [simp]: "dec32 (enc32 w) = w"
proof (rule bit_word_eqI)
  fix n :: nat assume n: "n < LENGTH(32)"
  then consider "n < 8" | "8 \<le> n" "n < 16" | "16 \<le> n" "n < 24" | "24 \<le> n" by linarith
  then show "bit (dec32 (enc32 w)) n = bit w n"
    using n by cases (auto simp: dec32_def enc32_def byte_of_def bit_simps)
qed

lemma bit_u32_ge [simp]: "32 \<le> n \<Longrightarrow> \<not> bit (x :: u32) n"
  using bit_imp_le_length by fastforce

lemma dec64_enc64 [simp]: "dec64 (enc64 w) = w"
proof (rule bit_word_eqI)
  fix n :: nat assume n: "n < LENGTH(64)"
  then consider "n < 32" | "32 \<le> n" by linarith
  then show "bit (dec64 (enc64 w)) n = bit w n"
    using n by cases (auto simp: dec64_def enc64_def bit_simps)
qed

lemma enc16_dec16: "length bs = 2 \<Longrightarrow> enc16 (dec16 bs) = bs"
  by (auto dest!: list_of_length_2 simp: dec16_def enc16_def byte_of_def bit_simps
      intro!: byte_eqI dest: bit_u8_less)

lemma enc32_dec32: "length bs = 4 \<Longrightarrow> enc32 (dec32 bs) = bs"
  by (auto dest!: list_of_length_4 simp: dec32_def enc32_def byte_of_def bit_simps
      intro!: byte_eqI dest: bit_u8_less)

lemma enc64_dec64:
  assumes "length bs = 8"
  shows "enc64 (dec64 bs) = bs"
proof -
  define lo hi where "lo = dec32 (take 4 bs)" and "hi = dec32 (drop 4 bs)"
  have lo: "ucast (ucast lo OR push_bit 32 (ucast hi) :: u64) = lo"
    by (rule bit_word_eqI) (auto simp: bit_simps)
  have hi: "ucast (drop_bit 32 (ucast lo OR push_bit 32 (ucast hi)) :: u64) = hi"
    by (rule bit_word_eqI) (auto simp: bit_simps)
  have "enc64 (dec64 bs) = enc32 lo @ enc32 hi"
    unfolding enc64_def dec64_def lo_def [symmetric] hi_def [symmetric] by (simp only: lo hi)
  also have "\<dots> = take 4 bs @ drop 4 bs"
    using assms by (simp add: lo_def hi_def enc32_dec32)
  finally show ?thesis by simp
qed

lemma bswap16_bswap16 [simp]: "bswap16 (bswap16 w) = w"
  by (simp add: bswap16_def enc16_dec16)

lemma bswap32_bswap32 [simp]: "bswap32 (bswap32 w) = w"
  by (simp add: bswap32_def enc32_dec32)

lemma bswap16_eq_iff [simp]: "(bswap16 a = bswap16 b) = (a = b)"
  by (metis bswap16_bswap16)

lemma bswap32_eq_iff [simp]: "(bswap32 a = bswap32 b) = (a = b)"
  by (metis bswap32_bswap32)

lemmas word_eval = enc8_def dec8_def enc16_def dec16_def enc32_def dec32_def enc64_def dec64_def
  byte_of_def bswap16_def bswap32_def

text \<open>16- and 32-bit words as numbers.\<close>

lemma unat_u16_le: "unat (w :: u16) \<le> 65535"
  using unsigned_less [of w, where 'a=nat] by simp

lemma unat_u16_u32 [simp]: "unat (ucast (w :: u16) :: u32) = unat w"
  using unat_u16_le [of w] by (simp add: unsigned_ucast_eq take_bit_nat_eq_self)

lemma unat_u32_u16: "unat (ucast (w :: u32) :: u16) = unat w mod 65536"
  by (simp add: unsigned_ucast_eq take_bit_nat_def)

lemma unat_not_u16: "unat (NOT w :: u16) = 65535 - unat w"
proof -
  have "NOT w = - 1 - w" by (simp add: not_eq_complement)
  then show ?thesis by (simp add: unat_sub unsigned_minus_1_eq_mask mask_eq_exp_minus_1)
qed

lemma unat_low16: "unat (w AND 0xffff) = unat w mod 65536" for w :: u32
proof -
  have "w AND 0xffff = take_bit 16 w" by (simp add: take_bit_eq_mask mask_numeral)
  then show ?thesis by (simp add: unsigned_take_bit_eq take_bit_nat_def)
qed

lemma unat_high16: "unat (drop_bit 16 w) = unat w div 65536" for w :: u32
  by (simp add: unat_drop_bit_eq drop_bit_nat_def)

lemma ucast_not: "ucast (NOT (w :: u32)) = (NOT (ucast w) :: u16)"
  by (rule bit_word_eqI) (auto simp: bit_simps)

lemma unat_add_small: "unat a + unat b < 2 ^ 32 \<Longrightarrow> unat (a + b) = unat a + unat b" for a b :: u32
  by (simp add: unat_word_ariths)

section \<open>Objects of a fixed size in a buffer\<close>

definition ld_obj :: "nat \<Rightarrow> (bytes \<Rightarrow> 'a) \<Rightarrow> bytes \<Rightarrow> nat \<Rightarrow> 'a option" where
  "ld_obj n dec p i = map_option dec (ld_bytes p i n)"

definition st_obj :: "('a \<Rightarrow> bytes) \<Rightarrow> bytes \<Rightarrow> nat \<Rightarrow> 'a \<Rightarrow> bytes option" where
  "st_obj enc p i x = st_bytes p i (enc x)"

abbreviation ld8 :: "bytes \<Rightarrow> nat \<Rightarrow> u8 option" where "ld8 \<equiv> ld_obj 1 dec8"
abbreviation ld16 :: "bytes \<Rightarrow> nat \<Rightarrow> u16 option" where "ld16 \<equiv> ld_obj 2 dec16"
abbreviation ld32 :: "bytes \<Rightarrow> nat \<Rightarrow> u32 option" where "ld32 \<equiv> ld_obj 4 dec32"
abbreviation st8 :: "bytes \<Rightarrow> nat \<Rightarrow> u8 \<Rightarrow> bytes option" where "st8 \<equiv> st_obj enc8"
abbreviation st16 :: "bytes \<Rightarrow> nat \<Rightarrow> u16 \<Rightarrow> bytes option" where "st16 \<equiv> st_obj enc16"
abbreviation st32 :: "bytes \<Rightarrow> nat \<Rightarrow> u32 \<Rightarrow> bytes option" where "st32 \<equiv> st_obj enc32"

lemma ld_in [simp]: "i + n \<le> length p \<Longrightarrow> ld_obj n dec p i = Some (dec (take n (drop i p)))"
  by (simp add: ld_obj_def)

lemma ld_out [simp]: "\<not> i + n \<le> length p \<Longrightarrow> ld_obj n dec p i = None"
  by (simp add: ld_obj_def ld_bytes_def)

lemma ld_None_iff: "(ld_obj n dec p i = None) = (length p < i + n)"
  by (auto simp: ld_obj_def ld_bytes_def)

lemma st_obj_in: "i + length (enc x) \<le> length p \<Longrightarrow>
    st_obj enc p i x = Some (take i p @ enc x @ drop (i + length (enc x)) p)"
  by (simp add: st_obj_def)

lemma ld_append [buf_simps]:
  "i = length a \<Longrightarrow> n = length b \<Longrightarrow> ld_obj n dec (a @ b @ c) i = Some (dec b)"
  by (simp add: ld_obj_def buf_simps)

section \<open>Staying within bounds\<close>

text \<open>
  \<open>in_bounds r\<close>: the run \<open>r\<close> made no access outside its buffer. The rules walk through a
  program, one access at a time, keeping only the length of the buffer.
\<close>

named_theorems inb \<open>introduction rules for \<open>in_bounds\<close>\<close>

definition in_bounds :: "'a option \<Rightarrow> bool" where
  "in_bounds r = (r \<noteq> None)"

lemma in_boundsD: "in_bounds r \<Longrightarrow> \<exists>x. r = Some x"
  by (simp add: in_bounds_def)

lemma in_bounds_Some [simp, inb]: "in_bounds (Some x)"
  by (simp add: in_bounds_def)

lemma in_bounds_bind [inb]:
  "in_bounds r \<Longrightarrow> (\<And>x. r = Some x \<Longrightarrow> in_bounds (f x)) \<Longrightarrow> in_bounds (r \<bind> f)"
  by (cases r) (simp_all add: in_bounds_def)

lemma in_bounds_ld_only [inb]: "i + n \<le> length p \<Longrightarrow> in_bounds (ld_obj n dec p i)"
  by (simp add: in_bounds_def)

lemma in_bounds_ld [inb]:
  "i + n \<le> length p \<Longrightarrow> (\<And>x. in_bounds (f x)) \<Longrightarrow> in_bounds (ld_obj n dec p i \<bind> f)"
  by (simp add: in_bounds_def)

lemma in_bounds_ld_bytes [inb]:
  "i + n \<le> length p \<Longrightarrow> (\<And>bs. length bs = n \<Longrightarrow> in_bounds (f bs)) \<Longrightarrow> in_bounds (ld_bytes p i n \<bind> f)"
  by (simp add: in_bounds_def)

lemma in_bounds_st [inb]:
  "i + length (enc x) \<le> length p \<Longrightarrow> (\<And>q. length q = length p \<Longrightarrow> in_bounds (f q))
    \<Longrightarrow> in_bounds (st_obj enc p i x \<bind> f)"
  by (simp add: in_bounds_def st_obj_in)

lemma in_bounds_st_bytes_only [inb]: "i + length bs \<le> length p \<Longrightarrow> in_bounds (st_bytes p i bs)"
  by (simp add: in_bounds_def)

lemma in_bounds_st_bytes [inb]:
  "i + length bs \<le> length p \<Longrightarrow> (\<And>q. length q = length p \<Longrightarrow> in_bounds (f q))
    \<Longrightarrow> in_bounds (st_bytes p i bs \<bind> f)"
  by (simp add: in_bounds_def)

text \<open>
  The interface of a fixed-size object: its size, its encoding and its decoding, which are
  inverse to each other. The lemmas below (what a load returns after a store at the same
  place or elsewhere, and that storing what is already there changes nothing) are proved once
  for every such object.
\<close>

locale codec =
  fixes sz :: nat and enc :: "'a \<Rightarrow> bytes" and dec :: "bytes \<Rightarrow> 'a"
  assumes enc_size: "length (enc x) = sz"
    and dec_enc: "dec (enc x) = x"
    and enc_dec: "length bs = sz \<Longrightarrow> enc (dec bs) = bs"
begin

lemma enc_inject: "enc x = enc y \<Longrightarrow> x = y"
  by (drule arg_cong [where f = dec]) (simp only: dec_enc)

lemma st_Some_iff: "(\<exists>q. st_obj enc p i x = Some q) = (i + sz \<le> length p)"
  by (simp add: st_obj_def st_bytes_def enc_size)

lemma st_length: "st_obj enc p i x = Some q \<Longrightarrow> length q = length p"
  by (auto simp: st_obj_def dest: st_bytes_length)

lemma ld_st_same: "st_obj enc p i x = Some q \<Longrightarrow> ld_obj sz dec q i = Some x"
  by (auto simp: st_obj_def st_bytes_def ld_obj_def ld_bytes_def enc_size dec_enc split: if_splits)

lemma ld_enc: "i = length a \<Longrightarrow> ld_obj sz dec (a @ enc x @ c) i = Some x"
  by (simp add: ld_append enc_size dec_enc)

lemma st_append: "i = length a \<Longrightarrow> length b = sz \<Longrightarrow> st_obj enc (a @ b @ c) i x = Some (a @ enc x @ c)"
  by (simp add: st_obj_def st_bytes_append enc_size)

lemma st_ld_same:
  assumes "ld_obj sz dec p i = Some x"
  shows "st_obj enc p i x = Some p"
proof -
  from assms have le: "i + sz \<le> length p" and x: "x = dec (take sz (drop i p))"
    by (auto simp: ld_obj_def ld_bytes_Some_iff)
  have "enc x = take sz (drop i p)"
    using le by (simp add: x enc_dec)
  with le have "st_obj enc p i x = Some (take i p @ take sz (drop i p) @ drop sz (drop i p))"
    by (simp add: st_obj_def add.commute)
  then show ?thesis by (simp only: append_take_drop_id)
qed

lemma ld_st_other:
  assumes "st_obj enc p i x = Some q" and "j + n \<le> i \<or> i + sz \<le> j"
  shows "ld_bytes q j n = ld_bytes p j n"
proof -
  from assms(1) have le: "i + sz \<le> length p"
    and q: "q = take i p @ enc x @ drop (i + sz) p"
    by (auto simp: st_obj_def st_bytes_def enc_size split: if_splits)
  from assms(2) show ?thesis
  proof
    assume "j + n \<le> i"
    with le show ?thesis
      by (auto simp: q ld_bytes_def enc_size drop_take)
  next
    assume "i + sz \<le> j"
    with le show ?thesis
      by (simp add: q ld_bytes_def enc_size)
  qed
qed

end

interpretation u8c: codec 1 enc8 dec8
  by unfold_locales (auto simp: enc8_def dec8_def length_Suc_conv)

interpretation u16c: codec 2 enc16 dec16
  by unfold_locales (simp_all add: enc16_dec16)

interpretation u32c: codec 4 enc32 dec32
  by unfold_locales (simp_all add: enc32_dec32)

interpretation u64c: codec 8 enc64 dec64
  by unfold_locales (simp_all add: enc64_dec64)

end
