(* ===== verification/Headers.thy ===== *)
theory Headers
  imports Prelude
begin

text \<open>
  The data of the programs: the packed structs of \<^verbatim>\<open>src/headers/cb_common.h\<close> and
  \<^verbatim>\<open>src/headers/nsh.h\<close>, the fields of the Ethernet, VLAN, IPv4, UDP, TCP and ICMP headers
  the programs read through casted pointers (an accessor per field, at the field's offset from
  the header's start), their constants, and the map declarations. A struct that is copied in
  or out of a packet as a whole is a record with an encoding that satisfies \<open>codec\<close>.
\<close>

section \<open>Sizes and protocol numbers\<close>

abbreviation (input) sizeof_ethhdr :: nat where "sizeof_ethhdr \<equiv> 14"
abbreviation (input) sizeof_vlanhdr :: nat where "sizeof_vlanhdr \<equiv> 4"
abbreviation (input) sizeof_iphdr :: nat where "sizeof_iphdr \<equiv> 20"
abbreviation (input) sizeof_udphdr :: nat where "sizeof_udphdr \<equiv> 8"
abbreviation (input) sizeof_tcphdr :: nat where "sizeof_tcphdr \<equiv> 20"
abbreviation (input) sizeof_icmphdr :: nat where "sizeof_icmphdr \<equiv> 8"

definition ETH_P_IP :: u16 where "ETH_P_IP = 0x0800"
definition ETH_P_ARP :: u16 where "ETH_P_ARP = 0x0806"
definition ETH_P_8021Q :: u16 where "ETH_P_8021Q = 0x8100"
definition IPPROTO_ICMP :: u8 where "IPPROTO_ICMP = 1"
definition IPPROTO_IPIP :: u8 where "IPPROTO_IPIP = 4"
definition IPPROTO_TCP :: u8 where "IPPROTO_TCP = 6"
definition IPPROTO_UDP :: u8 where "IPPROTO_UDP = 17"

definition ETH_P_NSH :: u16 where "ETH_P_NSH = 0x894F"
definition NSH_TTL_DEFAULT :: u16 where "NSH_TTL_DEFAULT = 0x0FC0"
definition NSH_BASE_LENGHT_MD_TYPE_2 :: u16 where "NSH_BASE_LENGHT_MD_TYPE_2 = 0x0002"
definition NSH_MD_TYPE_2 :: u8 where "NSH_MD_TYPE_2 = 0x02"
definition NSH_NEXT_PROTO_ETHER :: u8 where "NSH_NEXT_PROTO_ETHER = 0x03"

lemmas proto_defs = ETH_P_IP_def ETH_P_ARP_def ETH_P_8021Q_def IPPROTO_ICMP_def IPPROTO_IPIP_def
  IPPROTO_TCP_def IPPROTO_UDP_def ETH_P_NSH_def
lemmas nsh_defs = NSH_TTL_DEFAULT_def NSH_BASE_LENGHT_MD_TYPE_2_def NSH_MD_TYPE_2_def
  NSH_NEXT_PROTO_ETHER_def

text \<open>The pass / drop codes of the XDP and TC hooks.\<close>

definition XDP_DROP :: int where "XDP_DROP = 1"
definition XDP_PASS :: int where "XDP_PASS = 2"
definition XDP_TX :: int where "XDP_TX = 3"
definition TC_ACT_UNSPEC :: int where "TC_ACT_UNSPEC = -1"
definition TC_ACT_OK :: int where "TC_ACT_OK = 0"
definition TC_ACT_SHOT :: int where "TC_ACT_SHOT = 2"
definition BPF_DROP :: int where "BPF_DROP = 2"

lemmas verdict_defs = XDP_DROP_def XDP_PASS_def XDP_TX_def TC_ACT_UNSPEC_def TC_ACT_OK_def
  TC_ACT_SHOT_def BPF_DROP_def

section \<open>MAC addresses\<close>

text \<open>\<^verbatim>\<open>unsigned char[ETH_ALEN]\<close>: the six bytes in memory order.\<close>

datatype mac = Mac u8 u8 u8 u8 u8 u8

fun enc_mac :: "mac \<Rightarrow> bytes" where
  "enc_mac (Mac a b c d e f) = [a, b, c, d, e, f]"

definition dec_mac :: "bytes \<Rightarrow> mac" where
  "dec_mac bs = Mac (bs ! 0) (bs ! 1) (bs ! 2) (bs ! 3) (bs ! 4) (bs ! 5)"

lemma length_enc_mac [simp]: "length (enc_mac m) = 6"
  by (cases m) simp

interpretation macc: codec 6 enc_mac dec_mac
proof unfold_locales
  show "length (enc_mac m) = 6" for m by simp
  show "dec_mac (enc_mac m) = m" for m by (cases m) (simp add: dec_mac_def)
  show "enc_mac (dec_mac bs) = bs" if "length bs = 6" for bs
    using that by (auto simp: dec_mac_def numeral_eq_Suc length_Suc_conv)
qed

section \<open>Header fields\<close>

text \<open>Ethernet: \<^verbatim>\<open>h_dest\<close>, \<^verbatim>\<open>h_source\<close>, \<^verbatim>\<open>h_proto\<close> of the header at \<open>eth\<close>.\<close>

abbreviation ld_h_dest :: "bytes \<Rightarrow> nat \<Rightarrow> mac option" where "ld_h_dest p eth \<equiv> ld_obj 6 dec_mac p eth"
abbreviation ld_h_source :: "bytes \<Rightarrow> nat \<Rightarrow> mac option" where "ld_h_source p eth \<equiv> ld_obj 6 dec_mac p (eth + 6)"
abbreviation ld_h_proto :: "bytes \<Rightarrow> nat \<Rightarrow> u16 option" where "ld_h_proto p eth \<equiv> ld16 p (eth + 12)"
abbreviation st_h_dest :: "bytes \<Rightarrow> nat \<Rightarrow> mac \<Rightarrow> bytes option" where "st_h_dest p eth \<equiv> st_obj enc_mac p eth"
abbreviation st_h_source :: "bytes \<Rightarrow> nat \<Rightarrow> mac \<Rightarrow> bytes option" where "st_h_source p eth \<equiv> st_obj enc_mac p (eth + 6)"
abbreviation st_h_proto :: "bytes \<Rightarrow> nat \<Rightarrow> u16 \<Rightarrow> bytes option" where "st_h_proto p eth \<equiv> st16 p (eth + 12)"

text \<open>VLAN: \<^verbatim>\<open>h_vlan_encapsulated_proto\<close> follows the two bytes of \<^verbatim>\<open>h_vlan_TCI\<close>.\<close>

abbreviation ld_vlan_proto :: "bytes \<Rightarrow> nat \<Rightarrow> u16 option" where "ld_vlan_proto p vlan \<equiv> ld16 p (vlan + 2)"

text \<open>IPv4. The first byte holds \<^verbatim>\<open>ihl\<close> in its low and \<^verbatim>\<open>version\<close> in its high half.\<close>

abbreviation ld_ver_ihl :: "bytes \<Rightarrow> nat \<Rightarrow> u8 option" where "ld_ver_ihl p ip \<equiv> ld8 p ip"
abbreviation ld_tot_len :: "bytes \<Rightarrow> nat \<Rightarrow> u16 option" where "ld_tot_len p ip \<equiv> ld16 p (ip + 2)"
abbreviation ld_frag_off :: "bytes \<Rightarrow> nat \<Rightarrow> u16 option" where "ld_frag_off p ip \<equiv> ld16 p (ip + 6)"
abbreviation ld_protocol :: "bytes \<Rightarrow> nat \<Rightarrow> u8 option" where "ld_protocol p ip \<equiv> ld8 p (ip + 9)"
abbreviation ld_saddr :: "bytes \<Rightarrow> nat \<Rightarrow> u32 option" where "ld_saddr p ip \<equiv> ld32 p (ip + 12)"
abbreviation ld_daddr :: "bytes \<Rightarrow> nat \<Rightarrow> u32 option" where "ld_daddr p ip \<equiv> ld32 p (ip + 16)"
abbreviation st_saddr :: "bytes \<Rightarrow> nat \<Rightarrow> u32 \<Rightarrow> bytes option" where "st_saddr p ip \<equiv> st32 p (ip + 12)"
abbreviation st_daddr :: "bytes \<Rightarrow> nat \<Rightarrow> u32 \<Rightarrow> bytes option" where "st_daddr p ip \<equiv> st32 p (ip + 16)"

text \<open>UDP and TCP both start with \<^verbatim>\<open>source\<close> and \<^verbatim>\<open>dest\<close>; ICMP starts with \<^verbatim>\<open>type\<close>, then
  \<^verbatim>\<open>code\<close> and \<^verbatim>\<open>checksum\<close>.\<close>

abbreviation ld_source :: "bytes \<Rightarrow> nat \<Rightarrow> u16 option" where "ld_source p l4 \<equiv> ld16 p l4"
abbreviation ld_dest :: "bytes \<Rightarrow> nat \<Rightarrow> u16 option" where "ld_dest p l4 \<equiv> ld16 p (l4 + 2)"
abbreviation ld_icmp_type :: "bytes \<Rightarrow> nat \<Rightarrow> u8 option" where "ld_icmp_type p icmp \<equiv> ld8 p icmp"
abbreviation st_icmp_type :: "bytes \<Rightarrow> nat \<Rightarrow> u8 \<Rightarrow> bytes option" where "st_icmp_type p icmp \<equiv> st8 p icmp"
abbreviation st_icmp_checksum :: "bytes \<Rightarrow> nat \<Rightarrow> u16 \<Rightarrow> bytes option" where
  "st_icmp_checksum p icmp \<equiv> st16 p (icmp + 2)"

section \<open>The structs of cb\_common.h and nsh.h\<close>

datatype srcmac_idx = INGRESS_MAC | EGRESS_MAC

primrec srcmac_key :: "srcmac_idx \<Rightarrow> u32" where
  "srcmac_key INGRESS_MAC = 0"
| "srcmac_key EGRESS_MAC = 1"

record fwd_entry =
  flags :: u8
  address :: mac

record cls_entry =
  cls_sph :: u32
  next_hop :: mac

record ip_5tuple =
  ip_src :: u32
  ip_dst :: u32
  sport :: u16
  dport :: u16
  proto :: u8

definition zero_tuple :: ip_5tuple where
  "zero_tuple = \<lparr>ip_src = 0, ip_dst = 0, sport = 0, dport = 0, proto = 0\<rparr>"

record nshhdr =
  basic_info :: u16
  md_type :: u8
  next_proto :: u8
  serv_path :: u32

record nshhdr_md1 = nshhdr +
  nsh_context :: "u32 \<times> u32 \<times> u32 \<times> u32"

definition enc_ctx :: "u32 \<times> u32 \<times> u32 \<times> u32 \<Rightarrow> bytes" where
  "enc_ctx c = (case c of (c0, c1, c2, c3) \<Rightarrow> enc32 c0 @ enc32 c1 @ enc32 c2 @ enc32 c3)"

definition dec_ctx :: "bytes \<Rightarrow> u32 \<times> u32 \<times> u32 \<times> u32" where
  "dec_ctx bs = (dec32 (take 4 bs), dec32 (take 4 (drop 4 bs)), dec32 (take 4 (drop 8 bs)),
                 dec32 (take 4 (drop 12 bs)))"

definition enc_nsh :: "nshhdr_md1 \<Rightarrow> bytes" where
  "enc_nsh h = enc16 (basic_info h) @ [md_type h] @ [next_proto h] @ enc32 (serv_path h) @
               enc_ctx (nsh_context h)"

definition dec_nsh :: "bytes \<Rightarrow> nshhdr_md1" where
  "dec_nsh bs = \<lparr>basic_info = dec16 (take 2 bs), md_type = bs ! 2, next_proto = bs ! 3,
                 serv_path = dec32 (take 4 (drop 4 bs)), nsh_context = dec_ctx (drop 8 bs)\<rparr>"

definition enc_tuple :: "ip_5tuple \<Rightarrow> bytes" where
  "enc_tuple t = enc32 (ip_src t) @ enc32 (ip_dst t) @ enc16 (sport t) @ enc16 (dport t) @ [proto t]"

definition dec_tuple :: "bytes \<Rightarrow> ip_5tuple" where
  "dec_tuple bs = \<lparr>ip_src = dec32 (take 4 bs), ip_dst = dec32 (take 4 (drop 4 bs)),
     sport = dec16 (take 2 (drop 8 bs)), dport = dec16 (take 2 (drop 10 bs)), proto = bs ! 12\<rparr>"

lemma length_enc_ctx [simp]: "length (enc_ctx c) = 16"
  by (simp add: enc_ctx_def split: prod.split)

lemma length_enc_nsh [simp]: "length (enc_nsh h) = 24"
  by (simp add: enc_nsh_def)

lemma dec_ctx_enc_ctx [simp]: "dec_ctx (enc_ctx c) = c"
  by (simp add: enc_ctx_def dec_ctx_def split: prod.split)

lemma enc_ctx_dec_ctx:
  assumes "length bs = 16"
  shows "enc_ctx (dec_ctx bs) = bs"
proof -
  have "enc_ctx (dec_ctx bs) = take 4 bs @ take 4 (drop 4 bs) @ take 4 (drop 8 bs) @ take 4 (drop 12 bs)"
    using assms by (simp add: enc_ctx_def dec_ctx_def enc32_dec32)
  also have "\<dots> = take 16 bs"
    using take_add [of 4 12 bs] take_add [of 4 8 "drop 4 bs"] take_add [of 4 4 "drop 8 bs"] by simp
  finally show ?thesis using assms by simp
qed

lemma nth_append_at: "i = length a \<Longrightarrow> (a @ x # b) ! i = x"
  by simp

interpretation nshc: codec 24 enc_nsh dec_nsh
proof unfold_locales
  show "length (enc_nsh h) = 24" for h by simp
  show "dec_nsh (enc_nsh h) = h" for h
    by (cases h) (simp add: enc_nsh_def dec_nsh_def nth_append)
  show "enc_nsh (dec_nsh bs) = bs" if len: "length bs = 24" for bs
  proof -
    have "take 4 bs = take 2 bs @ [bs ! 2] @ [bs ! 3]"
      using len by (simp add: take_Suc_conv_app_nth numeral_eq_Suc)
    then have "bs = (take 2 bs @ [bs ! 2] @ [bs ! 3]) @ take 4 (drop 4 bs) @ drop 8 bs"
      using append_take_drop_id [of 4 bs] append_take_drop_id [of 4 "drop 4 bs"] by simp
    then show ?thesis
      using len by (simp add: enc_nsh_def dec_nsh_def enc16_dec16 enc32_dec32 enc_ctx_dec_ctx)
  qed
qed

interpretation tuplec: codec 13 enc_tuple dec_tuple
proof unfold_locales
  show "length (enc_tuple t) = 13" for t by (simp add: enc_tuple_def)
  show "dec_tuple (enc_tuple t) = t" for t
    by (cases t) (simp add: enc_tuple_def dec_tuple_def nth_append)
  show "enc_tuple (dec_tuple bs) = bs" if len: "length bs = 13" for bs
  proof -
    have "drop 12 bs = [bs ! 12]"
      using len by (simp add: Cons_nth_drop_Suc [symmetric])
    then have "bs = take 4 bs @ take 4 (drop 4 bs) @ take 2 (drop 8 bs) @ take 2 (drop 10 bs) @ [bs ! 12]"
      using append_take_drop_id [of 4 bs] append_take_drop_id [of 4 "drop 4 bs"]
        append_take_drop_id [of 2 "drop 8 bs"] append_take_drop_id [of 2 "drop 10 bs"] by simp
    then show ?thesis
      using len by (simp add: enc_tuple_def dec_tuple_def enc16_dec16 enc32_dec32)
  qed
qed

declare macc.dec_enc [simp] nshc.dec_enc [simp] tuplec.dec_enc [simp]

lemma nsh_fields [simp]:
  "dec_ctx (drop 8 (enc_nsh h)) = nsh_context h"
  "dec8 (take (Suc 0) (drop 3 (enc_nsh h))) = next_proto h"
  "dec32 (take 4 (drop 4 (enc_nsh h))) = serv_path h"
  by (simp_all add: enc_nsh_def dec8_def drop_Cons')

lemma nsh_set_serv_path:
  "take 4 (enc_nsh h) @ enc32 v @ drop 8 (enc_nsh h) = enc_nsh (h\<lparr>serv_path := v\<rparr>)"
  by (simp add: enc_nsh_def)

section \<open>Ethernet headers as bytes\<close>

text \<open>\<open>ethhdr d s p\<close>: destination, source and EtherType (in host order) of a header.\<close>

definition ethhdr :: "mac \<Rightarrow> mac \<Rightarrow> u16 \<Rightarrow> bytes" where
  "ethhdr d s p = enc_mac d @ enc_mac s @ enc16 (bswap16 p)"

lemma length_ethhdr [simp]: "length (ethhdr d s p) = 14"
  by (simp add: ethhdr_def)

lemma ethhdr_parts [simp]:
  "take 6 (ethhdr d s p) = enc_mac d"
  "take 6 (drop 6 (ethhdr d s p)) = enc_mac s"
  "drop 12 (ethhdr d s p) = enc16 (bswap16 p)"
  by (simp_all add: ethhdr_def)

lemma ethhdr_split: "length e = 14 \<Longrightarrow>
    e = ethhdr (dec_mac (take 6 e)) (dec_mac (take 6 (drop 6 e))) (bswap16 (dec16 (drop 12 e)))"
  using append_take_drop_id [of 6 e] append_take_drop_id [of 6 "drop 6 e"]
  by (simp add: ethhdr_def macc.enc_dec enc16_dec16)

lemma ethhdr_set_dest: "st_h_dest (ethhdr d s p @ r) 0 d' = Some (ethhdr d' s p @ r)"
  by (simp add: ethhdr_def st_obj_in)

lemma ethhdr_set_source: "st_h_source (ethhdr d s p @ r) 0 s' = Some (ethhdr d s' p @ r)"
  by (simp add: ethhdr_def st_obj_in)

lemma ethhdr_set_proto: "st_h_proto (ethhdr d s p @ r) 0 (bswap16 p') = Some (ethhdr d s p' @ r)"
  by (simp add: ethhdr_def st_obj_in)

lemmas ethhdr_set = ethhdr_set_dest ethhdr_set_source ethhdr_set_proto

fun unicast :: "mac \<Rightarrow> bool" where
  "unicast (Mac a b c d e f) = (a AND 1 = 0)"

lemma ethhdr_first [simp]: "dec8 (take (Suc 0) (ethhdr d s p)) AND 1 = 0 \<longleftrightarrow> unicast d"
  by (cases d) (simp add: ethhdr_def dec8_def)

text \<open>Stores to the fields of an NSH that follows an Ethernet header.\<close>

lemma nsh_set:
  assumes "length e = 14"
  shows "st16 (e @ enc_nsh h @ r) 14 v = Some (e @ enc_nsh (h\<lparr>basic_info := v\<rparr>) @ r)"
    and "st8 (e @ enc_nsh h @ r) 16 b = Some (e @ enc_nsh (h\<lparr>md_type := b\<rparr>) @ r)"
    and "st8 (e @ enc_nsh h @ r) 17 b = Some (e @ enc_nsh (h\<lparr>next_proto := b\<rparr>) @ r)"
    and "st32 (e @ enc_nsh h @ r) 18 w = Some (e @ enc_nsh (h\<lparr>serv_path := w\<rparr>) @ r)"
  using assms by (simp_all add: st_obj_in enc_nsh_def enc8_def)

section \<open>Map declarations\<close>

text \<open>
  The \<^verbatim>\<open>MAP\<close> macro of \<^verbatim>\<open>cb_common.h\<close> fills a \<^verbatim>\<open>struct bpf_elf_map\<close>; the fields it leaves out
  are zero.
\<close>

datatype bpf_map_type = BPF_MAP_TYPE_HASH | BPF_MAP_TYPE_ARRAY

record bpf_elf_map =
  map_type :: bpf_map_type
  size_key :: nat
  size_value :: nat
  max_elem :: nat
  pinning :: nat

definition PIN_NONE :: nat where "PIN_NONE = 0"
definition PIN_GLOBAL_NS :: nat where "PIN_GLOBAL_NS = 2"

definition MAP :: "bpf_map_type \<Rightarrow> nat \<Rightarrow> nat \<Rightarrow> nat \<Rightarrow> nat \<Rightarrow> bpf_elf_map" where
  "MAP type keysz valsz maxe pin =
     \<lparr>map_type = type, size_key = keysz, size_value = valsz, max_elem = maxe, pinning = pin\<rparr>"

definition SRCMACMAP :: bpf_elf_map where
  "SRCMACMAP = MAP BPF_MAP_TYPE_ARRAY 4 6 2 PIN_GLOBAL_NS"

end
