(* ===== verification/Bpf.thy ===== *)
theory Bpf
  imports Headers
begin

text \<open>
  The kernel helpers the BPF programs call are not part of the repository. Each is a parameter
  of the model, a field of \<open>bpf_env\<close> or an argument; what the programs rely on is the
  documented behaviour stated in the locales \<open>map_update\<close>, \<open>skb_room\<close> and
  \<open>xdp_head\<close>. A map's contents are a HOL map, so \<^verbatim>\<open>bpf_map_lookup_elem\<close> on a hash map is
  application, with \<open>None\<close> for the NULL pointer; \<^verbatim>\<open>bpf_map_update_elem\<close> may fail and is
  the parameter.
\<close>

section \<open>Updating a map\<close>

type_synonym ('k, 'v) map_upd = "('k \<rightharpoonup> 'v) \<Rightarrow> 'k \<Rightarrow> 'v \<Rightarrow> u64 \<Rightarrow> int \<times> ('k \<rightharpoonup> 'v)"

definition BPF_ANY :: u64 where "BPF_ANY = 0"
definition BPF_NOEXIST :: u64 where "BPF_NOEXIST = 1"

text \<open>
  From the manual page of bpf(2): the call creates or updates an element and returns zero, or
  returns an error and leaves the map alone; with \<^verbatim>\<open>BPF_NOEXIST\<close> an existing element is an
  error.
\<close>

locale map_update =
  fixes upd :: "('k, 'v) map_upd"
  assumes update_ok: "fst (upd m k v f) = 0 \<Longrightarrow> snd (upd m k v f) = m(k \<mapsto> v)"
    and update_fail: "fst (upd m k v f) \<noteq> 0 \<Longrightarrow> snd (upd m k v f) = m"
    and update_noexist: "m k \<noteq> None \<Longrightarrow> fst (upd m k v BPF_NOEXIST) \<noteq> 0"
begin

lemma update_cases:
  obtains "fst (upd m k v f) = 0" "snd (upd m k v f) = m(k \<mapsto> v)"
  | "fst (upd m k v f) \<noteq> 0" "snd (upd m k v f) = m"
  using update_ok update_fail by blast

lemma update_other: "k' \<noteq> k \<Longrightarrow> snd (upd m k v f) k' = m k'"
  by (cases rule: update_cases [of m k v f]) simp_all

lemma update_same: "snd (upd m k v f) k = (if fst (upd m k v f) = 0 then Some v else m k)"
  by (cases rule: update_cases [of m k v f]) simp_all

lemma update_dom: "dom m \<subseteq> dom (snd (upd m k v f))"
  by (cases rule: update_cases [of m k v f]) auto

lemma update_noexist_keeps: "m k = Some w \<Longrightarrow> snd (upd m k v BPF_NOEXIST) = m"
  using update_noexist update_fail by blast

end

text \<open>
  A map of at most \<open>max_entries\<close> entries: as long as the key finds room, \<^verbatim>\<open>BPF_ANY\<close> succeeds.
\<close>

locale map_room = map_update upd for upd :: "('k, 'v) map_upd" +
  fixes max_entries :: nat
  assumes update_room: "finite (dom m) \<Longrightarrow> card (insert k (dom m)) \<le> max_entries \<Longrightarrow> fst (upd m k v BPF_ANY) = 0"
begin

lemma update_any: "finite (dom m) \<Longrightarrow> card (insert k (dom m)) \<le> max_entries \<Longrightarrow> snd (upd m k v BPF_ANY) = m(k \<mapsto> v)"
  by (rule update_ok [OF update_room])

lemma update_within:
  "dom m \<subseteq> D \<Longrightarrow> k \<in> D \<Longrightarrow> finite D \<Longrightarrow> card D \<le> max_entries \<Longrightarrow> snd (upd m k v BPF_ANY) = m(k \<mapsto> v)"
  by (rule update_any) (auto intro: finite_subset order_trans [OF card_mono])

end

text \<open>
  Three concrete helpers: one that always finds room, one of a map that is full, which refuses
  every new key, and one of a map with \<open>n\<close> places. They follow the manual page; witnesses use
  them.
\<close>

definition upd_roomy :: "('k, 'v) map_upd" where
  "upd_roomy m k v f =
     (if f = BPF_NOEXIST \<and> m k \<noteq> None then (-17, m) else (0, m(k \<mapsto> v)))"

definition upd_full :: "('k, 'v) map_upd" where
  "upd_full m k v f =
     (if f = BPF_NOEXIST \<and> m k \<noteq> None then (-17, m)
      else if m k = None then (-7, m) else (0, m(k \<mapsto> v)))"

definition upd_limited :: "nat \<Rightarrow> ('k, 'v) map_upd" where
  "upd_limited n m k v f =
     (if f = BPF_NOEXIST \<and> m k \<noteq> None then (-17, m)
      else if m k = None \<and> n \<le> card (dom m) then (-7, m) else (0, m(k \<mapsto> v)))"

interpretation roomy: map_update upd_roomy
  by unfold_locales (auto simp: upd_roomy_def split: if_splits)

interpretation full: map_update upd_full
  by unfold_locales (auto simp: upd_full_def split: if_splits)

interpretation limited: map_room "upd_limited n" n
  by unfold_locales (auto simp: upd_limited_def card_insert_if domIff BPF_ANY_def BPF_NOEXIST_def split: if_splits)

section \<open>Room in front of and inside a packet\<close>

text \<open>
  \<^verbatim>\<open>bpf_skb_adjust_room(skb, len_diff, BPF_ADJ_ROOM_MAC, 0)\<close> adds \<open>len_diff\<close> bytes of
  room below the layer 2 header, i.e. right after the 14 bytes of Ethernet. It returns zero
  or a negative error, and on error the packet is unchanged. What the new bytes hold is not
  documented.
\<close>

locale skb_room =
  fixes room :: "bytes \<Rightarrow> int \<Rightarrow> int \<times> bytes"
  assumes room_rc: "fst (room p d) \<le> 0"
    and room_grow: "fst (room p (int n)) = 0 \<Longrightarrow> 14 \<le> length p \<Longrightarrow>
      \<exists>r. length r = n \<and> snd (room p (int n)) = take 14 p @ r @ drop 14 p"
    and room_fail: "fst (room p d) \<noteq> 0 \<Longrightarrow> snd (room p d) = p"
begin

lemma room_success:
  assumes "\<not> fst (room p (int n)) < 0" and "14 \<le> length p"
  obtains r where "length r = n" "room p (int n) = (0, take 14 p @ r @ drop 14 p)"
  using assms room_grow room_rc by (metis linorder_neqE_linordered_idom not_le prod.collapse)

end

definition skb_room_zero :: "bytes \<Rightarrow> int \<Rightarrow> int \<times> bytes" where
  "skb_room_zero p d =
     (if 0 \<le> d \<and> 14 \<le> length p then (0, take 14 p @ replicate (nat d) 0 @ drop 14 p) else (-22, p))"

interpretation room_zero: skb_room skb_room_zero
  by unfold_locales (auto simp: skb_room_zero_def split: if_splits intro!: exI)

text \<open>
  \<^verbatim>\<open>bpf_xdp_adjust_head(ctx, delta)\<close> moves the start of the packet by \<open>delta\<close>: forwards
  it drops bytes, backwards it makes room in front. It returns zero, or a negative error with
  the packet unchanged.
\<close>

locale xdp_head =
  fixes head :: "bytes \<Rightarrow> int \<Rightarrow> int \<times> bytes"
  assumes head_rc: "fst (head p d) \<le> 0"
    and head_drop: "fst (head p (int n)) = 0 \<Longrightarrow> snd (head p (int n)) = drop n p"
    and head_room: "fst (head p (- int n)) = 0 \<Longrightarrow>
      \<exists>r. length r = n \<and> snd (head p (- int n)) = r @ p"
    and head_fail: "fst (head p d) \<noteq> 0 \<Longrightarrow> snd (head p d) = p"
begin

lemma head_success_room:
  assumes "\<not> fst (head p (- int n)) < 0"
  obtains r where "length r = n" "head p (- int n) = (0, r @ p)"
  using assms head_room head_rc by (metis linorder_neqE_linordered_idom not_le prod.collapse)

end

text \<open>
  A concrete helper: the kernel keeps at least an Ethernet header in the packet, and has 256
  bytes of headroom, whose contents (0xEE here) are whatever was there before.
\<close>

definition xdp_head_plain :: "bytes \<Rightarrow> int \<Rightarrow> int \<times> bytes" where
  "xdp_head_plain p d =
     (if 0 \<le> d \<and> nat d + 14 \<le> length p then (0, drop (nat d) p)
      else if d < 0 \<and> -256 \<le> d then (0, replicate (nat (- d)) 0xEE @ p)
      else (-22, p))"

interpretation head_plain: xdp_head xdp_head_plain
  by unfold_locales (auto simp: xdp_head_plain_def split: if_splits intro!: exI)

end
