(* ===== verification/CbHelpers.thy ===== *)
theory CbHelpers
  imports Bpf
begin

text \<open>
  \<^verbatim>\<open>src/headers/cb_helpers.h\<close>: the flow key of a packet (\<open>get_tuple\<close>) and the statistics
  every program keeps about itself (\<open>cb_mark_init\<close>, \<open>cb_retok\<close>, \<open>cb_retother\<close>, compiled
  in by \<^verbatim>\<open>ENABLE_STATS\<close>). \<open>cb_debug\<close> only prints and is left out.
\<close>

section \<open>The flow key of a packet\<close>

text \<open>
  \<open>get_tuple p ip t\<close> is the C call with \<^verbatim>\<open>ip_data\<close> at offset \<open>ip\<close> of the packet \<open>p\<close>,
  \<^verbatim>\<open>data_end\<close> at its end, and \<open>t\<close> what the tuple held before the call: the returned pair is
  the return code and the tuple after it (partly filled when the code is -1).
\<close>

definition get_tuple_l4 :: "bytes \<Rightarrow> nat \<Rightarrow> nat \<Rightarrow> ip_5tuple \<Rightarrow> (int \<times> ip_5tuple) option" where
  "get_tuple_l4 p ip_data ip t = do {
     saddr \<leftarrow> ld_saddr p ip;
     daddr \<leftarrow> ld_daddr p ip;
     protocol \<leftarrow> ld_protocol p ip;
     let t = t\<lparr>ip_src := saddr, ip_dst := daddr, proto := protocol\<rparr>;
     if protocol = IPPROTO_UDP then
       (let udp = ip_data + sizeof_iphdr in
        if udp + sizeof_udphdr > length p then Some (-1, t)
        else do {
          dest \<leftarrow> ld_dest p udp;
          source \<leftarrow> ld_source p udp;
          Some (0, t\<lparr>dport := dest, sport := source\<rparr>)
        })
     else if protocol = IPPROTO_TCP then
       (let tcp = ip_data + sizeof_iphdr in
        if tcp + sizeof_tcphdr > length p then Some (-1, t)
        else do {
          dest \<leftarrow> ld_dest p tcp;
          source \<leftarrow> ld_source p tcp;
          Some (0, t\<lparr>dport := dest, sport := source\<rparr>)
        })
     else if protocol = IPPROTO_ICMP then Some (0, t\<lparr>dport := 0, sport := 0\<rparr>)
     else Some (-1, t)
   }"

definition get_tuple :: "bytes \<Rightarrow> nat \<Rightarrow> ip_5tuple \<Rightarrow> (int \<times> ip_5tuple) option" where
  "get_tuple p ip_data t =
     (if ip_data + sizeof_iphdr > length p then Some (-1, t)
      else do {
        protocol \<leftarrow> ld_protocol p ip_data;
        if protocol = IPPROTO_IPIP then
          (let ip = ip_data + sizeof_iphdr in
           if ip + sizeof_iphdr > length p then Some (-1, t)
           else get_tuple_l4 p ip_data ip t)
        else get_tuple_l4 p ip_data ip_data t
      })"

section \<open>Statistics\<close>

record stats =
  rx :: u32
  tx :: u32
  tx_other :: u32
  lat_avg_sum :: u64
  init_ts :: u64

definition init_stats :: stats where
  "init_stats = \<lparr>rx = 0, tx = 0, tx_other = 0, lat_avg_sum = 0, init_ts = 0\<rparr>"

text \<open>
  What the kernel and the build give to a program: whether \<^verbatim>\<open>ENABLE_STATS\<close> is defined, the
  n-th reading of \<^verbatim>\<open>bpf_ktime_get_ns\<close> during one run, and the helpers.
\<close>

record bpf_env =
  enable_stats :: bool
  ktime :: "nat \<Rightarrow> u64"
  stats_update :: "(u8, stats) map_upd"
  redirect :: "int \<Rightarrow> u64 \<Rightarrow> int"
  skb_adjust_room :: "bytes \<Rightarrow> int \<Rightarrow> int \<times> bytes"
  xdp_adjust_head :: "bytes \<Rightarrow> int \<Rightarrow> int \<times> bytes"

record prog_state =
  prog_stats :: "u8 \<rightharpoonup> stats"

definition STATSMAP :: bpf_elf_map where
  "STATSMAP = MAP BPF_MAP_TYPE_HASH 1 32 1 PIN_NONE"

definition cb_mark_init :: "'e bpf_env_scheme \<Rightarrow> 's prog_state_scheme \<Rightarrow> 's prog_state_scheme" where
  "cb_mark_init E s =
     (if enable_stats E then
        (let ts = ktime E 0 in
         case prog_stats s 0 of
           Some st \<Rightarrow> s\<lparr>prog_stats := (prog_stats s)(0 \<mapsto> st\<lparr>rx := rx st + 1, init_ts := ts\<rparr>)\<rparr>
         | None \<Rightarrow> s\<lparr>prog_stats := snd (stats_update E (prog_stats s) 0 init_stats BPF_NOEXIST)\<rparr>)
      else s)"

definition cb_retok :: "'e bpf_env_scheme \<Rightarrow> 's prog_state_scheme \<Rightarrow> int \<Rightarrow> int \<times> 's prog_state_scheme" where
  "cb_retok E s code =
     (code,
      if enable_stats E then
        (let ts = ktime E 1 in
         case prog_stats s 0 of
           Some st \<Rightarrow> s\<lparr>prog_stats := (prog_stats s)(0 \<mapsto>
             st\<lparr>tx := tx st + 1, lat_avg_sum := lat_avg_sum st + (ts - init_ts st)\<rparr>)\<rparr>
         | None \<Rightarrow> s\<lparr>prog_stats := snd (stats_update E (prog_stats s) 0 init_stats BPF_NOEXIST)\<rparr>)
      else s)"

definition cb_retother :: "'e bpf_env_scheme \<Rightarrow> 's prog_state_scheme \<Rightarrow> int \<Rightarrow> int \<times> 's prog_state_scheme" where
  "cb_retother E s code =
     (code,
      if enable_stats E then
        (case prog_stats s 0 of
           Some st \<Rightarrow> s\<lparr>prog_stats := (prog_stats s)(0 \<mapsto> st\<lparr>tx_other := tx_other st + 1\<rparr>)\<rparr>
         | None \<Rightarrow> s\<lparr>prog_stats := snd (stats_update E (prog_stats s) 0 init_stats BPF_NOEXIST)\<rparr>)
      else s)"

text \<open>
  The result of a program on a packet: the verdict and the state its last call of \<open>cb_retok\<close>
  or \<open>cb_retother\<close> gives, and the packet it leaves. \<open>None\<close> is an access outside the packet.
\<close>

type_synonym 's run = "((int \<times> 's) \<times> bytes) option"

section \<open>Facts about the flow key\<close>

text \<open>Every access of \<open>get_tuple\<close> is behind a bounds check.\<close>

lemma get_tuple_l4_total:
  "ip + 20 \<le> length p \<Longrightarrow> \<exists>rc t'. get_tuple_l4 p ip_data ip t = Some (rc, t')"
  by (simp add: get_tuple_l4_def Let_def)

lemma get_tuple_total: "\<exists>rc t'. get_tuple p ip t = Some (rc, t')"
  using get_tuple_l4_total [of ip p] get_tuple_l4_total [of "ip + 20" p]
  by (auto simp: get_tuple_def Let_def)

lemma in_bounds_get_tuple [inb]:
  "(\<And>rc t'. in_bounds (f (rc, t'))) \<Longrightarrow> in_bounds (get_tuple p ip t \<bind> f)"
  using get_tuple_total [of p ip t] by auto

lemma get_tuple_l4_in: "get_tuple_l4 p d ip t = Some r \<Longrightarrow> ip + 20 \<le> length p"
  by (rule ccontr) (auto simp: get_tuple_l4_def ld_obj_def ld_bytes_def split: Option.bind_splits if_splits)

lemma get_tuple_l4_rc: "get_tuple_l4 p d ip t = Some (rc, t') \<Longrightarrow> rc = 0 \<or> rc = -1"
  by (frule get_tuple_l4_in) (simp add: get_tuple_l4_def Let_def split: if_splits)

lemma get_tuple_cases:
  assumes "get_tuple p ip t = Some (rc, t')"
  obtains "rc = -1" "t' = t"
  | "ip + 20 \<le> length p" "get_tuple_l4 p ip ip t = Some (rc, t')"
      "dec8 (take 1 (drop (ip + 9) p)) \<noteq> IPPROTO_IPIP"
  | "ip + 40 \<le> length p" "get_tuple_l4 p ip (ip + 20) t = Some (rc, t')"
      "dec8 (take 1 (drop (ip + 9) p)) = IPPROTO_IPIP"
  using assms by (auto simp: get_tuple_def Let_def split: if_splits)

lemma get_tuple_rc: "get_tuple p ip t = Some (rc, t') \<Longrightarrow> rc = 0 \<or> rc = -1"
  by (erule get_tuple_cases) (auto dest: get_tuple_l4_rc)

text \<open>The flow of a packet as the functions see it: an IPv4 packet that \<open>get_tuple\<close> accepts.\<close>

definition flow_of :: "bytes \<Rightarrow> ip_5tuple option" where
  "flow_of p =
     (if length p < 34 \<or> dec16 (take 2 (drop 12 p)) \<noteq> bswap16 ETH_P_IP then None
      else case get_tuple p 14 zero_tuple of Some (ret, key) \<Rightarrow> if ret = 0 then Some key else None
                                           | None \<Rightarrow> None)"

text \<open>The key does not depend on what the tuple held before, nor on what precedes the header.\<close>

lemma get_tuple_l4_init:
  "get_tuple_l4 p d ip t = Some (0, k) \<Longrightarrow> get_tuple_l4 p d ip t' = Some (0, k)"
  by (frule get_tuple_l4_in, cases t, cases t')
     (simp add: get_tuple_l4_def Let_def proto_defs split: if_splits)

lemma get_tuple_init:
  "get_tuple p ip t = Some (0, k) \<Longrightarrow> get_tuple p ip t' = Some (0, k)"
  by (erule get_tuple_cases)
     (auto simp: get_tuple_def Let_def dest: get_tuple_l4_init [where t' = t'])

lemma ld_shift: "ld_obj n dec (h @ p) (length h + i) = ld_obj n dec p i"
  by (simp add: ld_obj_def ld_bytes_def)

lemma ld_shift': "j = length h + i \<Longrightarrow> ld_obj n dec (h @ p) j = ld_obj n dec p i"
  by (simp add: ld_shift)

lemma get_tuple_shift: "get_tuple (h @ p) (length h + ip) t = get_tuple p ip t"
proof -
  have *: "ld_obj n dec (h @ p) (length h + ip + i) = ld_obj n dec p (ip + i)" for n i and dec :: "bytes \<Rightarrow> 'b"
    by (rule ld_shift') simp
  have **: "ld_obj n dec (h @ p) (length h + ip + i + j) = ld_obj n dec p (ip + i + j)"
    for n i j and dec :: "bytes \<Rightarrow> 'c"
    by (rule ld_shift') simp
  show ?thesis
    by (simp add: get_tuple_def get_tuple_l4_def * ** Let_def)
qed

end
