(* ===== verification/SfcStages.thy ===== *)
theory SfcStages
  imports CbHelpers
begin

text \<open>
  \<^verbatim>\<open>src/kernel/sfc_stages_kern.c\<close>: the three stages of a service function node. \<open>decap_nsh\<close>
  (XDP, ingress) takes the outer Ethernet and NSH headers off a frame and remembers the NSH
  under the inner flow's key; \<open>encap_nsh\<close> (TC, egress) finds it again, decrements the service
  index and puts the headers back; \<open>sfc_forwarding\<close> (TC, egress, after \<open>encap_nsh\<close>) writes
  the next hop's MAC address. A packet is its bytes, \<^verbatim>\<open>data\<close> is offset 0 and \<^verbatim>\<open>data_end\<close> its
  length.
\<close>

section \<open>State\<close>

record stage_state = prog_state +
  src_mac :: "u32 \<rightharpoonup> mac"
  nsh_data :: "ip_5tuple \<rightharpoonup> nshhdr_md1"
  fwd_table :: "u32 \<rightharpoonup> fwd_entry"

record stage_env = bpf_env +
  nsh_update :: "(ip_5tuple, nshhdr_md1) map_upd"

definition nsh_data_decl :: bpf_elf_map where
  "nsh_data_decl = MAP BPF_MAP_TYPE_HASH 13 24 2048 PIN_GLOBAL_NS"

definition fwd_table_decl :: bpf_elf_map where
  "fwd_table_decl = MAP BPF_MAP_TYPE_HASH 4 7 2048 PIN_GLOBAL_NS"

section \<open>The stages\<close>

definition set_src_mac :: "(u32 \<rightharpoonup> mac) \<Rightarrow> bytes \<Rightarrow> nat \<Rightarrow> srcmac_idx \<Rightarrow> (int \<times> bytes) option" where
  "set_src_mac macs p eth idx =
     (case macs (srcmac_key idx) of
        None \<Rightarrow> Some (-1, p)
      | Some smac \<Rightarrow> do { p \<leftarrow> st_h_source p eth smac; Some (0, p) })"

text \<open>
  The loop that compares the two MAC addresses byte by byte, from index 5 down to 0:
  \<open>mac_loop mymac dst (Suc i)\<close> is the iteration with loop variable \<open>i\<close>.
\<close>

fun mac_loop :: "bytes \<Rightarrow> bytes \<Rightarrow> nat \<Rightarrow> bool option" where
  "mac_loop mymac dst 0 = Some True"
| "mac_loop mymac dst (Suc i) = do {
     m \<leftarrow> ld8 mymac i;
     d \<leftarrow> ld8 dst i;
     if m XOR d \<noteq> 0 then Some False else mac_loop mymac dst i
   }"

text \<open>\<open>decap_nsh\<close> from the test of \<^verbatim>\<open>h_proto\<close> on.\<close>

definition decap_nsh_body ::
  "'e stage_env_scheme \<Rightarrow> 's stage_state_scheme \<Rightarrow> bytes \<Rightarrow> nat \<Rightarrow> u16 \<Rightarrow> 's stage_state_scheme run" where
  "decap_nsh_body E s data offset h_proto =
     (if h_proto \<noteq> ETH_P_NSH then Some (cb_retother E s XDP_PASS, data)
      else let nsh = offset; offset = offset + 24 in
      if nsh + 24 > length data then Some (cb_retother E s XDP_DROP, data)
      else do {
        nextp \<leftarrow> ld8 data (nsh + 3);
        if nextp \<noteq> NSH_NEXT_PROTO_ETHER then Some (cb_retother E s XDP_DROP, data)
        else if nsh + 24 + sizeof_ethhdr + sizeof_iphdr > length data
          then Some (cb_retother E s XDP_DROP, data)
        else do {
          (ret, key) \<leftarrow> get_tuple data (nsh + 24 + sizeof_ethhdr) zero_tuple;
          if ret \<noteq> 0 then Some (cb_retother E s XDP_DROP, data)
          else do {
            hdr \<leftarrow> ld_obj 24 dec_nsh data nsh;
            let s = s\<lparr>nsh_data := snd (nsh_update E (nsh_data s) key hdr BPF_ANY)\<rparr>;
            let data = snd (xdp_adjust_head E data (int offset));
            Some (cb_retok E s XDP_PASS, data)
          }
        }
      })"

definition decap_nsh ::
  "'e stage_env_scheme \<Rightarrow> 's stage_state_scheme \<Rightarrow> bytes \<Rightarrow> 's stage_state_scheme run" where
  "decap_nsh E s data =
     (let s = cb_mark_init E s; offset = sizeof_ethhdr in
      if sizeof_ethhdr > length data then Some (cb_retother E s XDP_PASS, data)
      else case src_mac s (srcmac_key INGRESS_MAC) of
        None \<Rightarrow> Some (cb_retother E s XDP_PASS, data)
      | Some smac \<Rightarrow> do {
          dst0 \<leftarrow> ld8 data 0;
          if dst0 AND 1 \<noteq> 0 then Some (cb_retother E s XDP_PASS, data)
          else do {
            mine \<leftarrow> mac_loop (enc_mac smac) data 6;
            if \<not> mine then Some (cb_retother E s XDP_DROP, data)
            else do {
              eth_proto \<leftarrow> ld_h_proto data 0;
              if bswap16 eth_proto = ETH_P_8021Q then
                (let vlan = sizeof_ethhdr; offset = offset + sizeof_vlanhdr in
                 if vlan + sizeof_vlanhdr > length data then Some (cb_retother E s XDP_DROP, data)
                 else do {
                   vproto \<leftarrow> ld_vlan_proto data vlan;
                   decap_nsh_body E s data offset (bswap16 vproto)
                 })
              else decap_nsh_body E s data offset (bswap16 eth_proto)
            }
          }
        })"

text \<open>The two places of \<open>encap_nsh\<close> that let the frame leave the chain: set the source MAC
  address and pass it on.\<close>

definition encap_leave ::
  "'e stage_env_scheme \<Rightarrow> 's stage_state_scheme \<Rightarrow> bytes \<Rightarrow> 's stage_state_scheme run" where
  "encap_leave E s data = do {
     (ret, data) \<leftarrow> set_src_mac (src_mac s) data 0 EGRESS_MAC;
     if ret \<noteq> 0 then Some (cb_retother E s TC_ACT_SHOT, data)
     else Some (cb_retok E s TC_ACT_OK, data)
   }"

text \<open>The rest of \<open>encap_nsh\<close> once it is known that the chain goes on: the outer
  encapsulation.\<close>

definition encap_push ::
  "'e stage_env_scheme \<Rightarrow> 's stage_state_scheme \<Rightarrow> bytes \<Rightarrow> nshhdr_md1 \<Rightarrow> u32 \<Rightarrow> 's stage_state_scheme run" where
  "encap_push E s data prev_nsh sph = do {
     prev_proto \<leftarrow> ld_h_proto data 0;
     let (ret, data) = skb_adjust_room E data (int (sizeof_ethhdr + 24));
     if ret < 0 then Some (cb_retother E s TC_ACT_SHOT, data)
     else if 2 * sizeof_ethhdr + 24 > length data then Some (cb_retother E s TC_ACT_SHOT, data)
     else let oeth = 0; nsh = oeth + sizeof_ethhdr; ieth = nsh + 24 in do {
       ethhdr \<leftarrow> ld_bytes data oeth sizeof_ethhdr;
       data \<leftarrow> st_bytes data ieth ethhdr;
       data \<leftarrow> st_h_proto data oeth (bswap16 ETH_P_NSH);
       data \<leftarrow> st_h_proto data ieth prev_proto;
       data \<leftarrow> st_obj enc_nsh data nsh prev_nsh;
       data \<leftarrow> st32 data (nsh + 4) (bswap32 sph);
       Some (cb_retok E s TC_ACT_UNSPEC, data)
     }
   }"

definition encap_nsh ::
  "'e stage_env_scheme \<Rightarrow> 's stage_state_scheme \<Rightarrow> bytes \<Rightarrow> 's stage_state_scheme run" where
  "encap_nsh E s data =
     (let s = cb_mark_init E s in
      if sizeof_ethhdr + sizeof_iphdr > length data then Some (cb_retok E s TC_ACT_OK, data)
      else do {
        eth_proto \<leftarrow> ld_h_proto data 0;
        if eth_proto \<noteq> bswap16 ETH_P_IP then Some (cb_retok E s TC_ACT_OK, data)
        else do {
          (ret, key) \<leftarrow> get_tuple data sizeof_ethhdr zero_tuple;
          if ret < 0 then Some (cb_retok E s TC_ACT_OK, data)
          else case nsh_data s key of
            None \<Rightarrow> encap_leave E s data
          | Some prev_nsh \<Rightarrow>
              (let sph = bswap32 (serv_path prev_nsh); si = sph AND 0x000000FF in
               if si = 0 then Some (cb_retother E s TC_ACT_SHOT, data)
               else let sph = sph - 1; fkey = bswap32 sph in
                 case fwd_table s fkey of
                   Some nh \<Rightarrow> if flags nh AND 1 \<noteq> 0 then encap_leave E s data
                              else encap_push E s data prev_nsh sph
                 | None \<Rightarrow> encap_push E s data prev_nsh sph)
        }
      })"

definition sfc_forwarding ::
  "'e stage_env_scheme \<Rightarrow> 's stage_state_scheme \<Rightarrow> bytes \<Rightarrow> 's stage_state_scheme run" where
  "sfc_forwarding E s data =
     (let s = cb_mark_init E s; eth = 0 in
      if sizeof_ethhdr > length data then Some (cb_retother E s TC_ACT_SHOT, data)
      else let nsh = eth + sizeof_ethhdr in
      if nsh + 24 > length data then Some (cb_retother E s TC_ACT_SHOT, data)
      else do {
        sph \<leftarrow> ld32 data (nsh + 4);
        case fwd_table s sph of
          Some nh \<Rightarrow>
            if flags nh AND 1 \<noteq> 0 then Some (cb_retok E s TC_ACT_SHOT, data)
            else do {
              (ret, data) \<leftarrow> set_src_mac (src_mac s) data eth EGRESS_MAC;
              if ret \<noteq> 0 then Some (cb_retother E s BPF_DROP, data)
              else do {
                data \<leftarrow> st_h_dest data eth (address nh);
                Some (cb_retok E s TC_ACT_OK, data)
              }
            }
        | None \<Rightarrow> Some (cb_retother E s TC_ACT_SHOT, data)
      })"

section \<open>Every access is in bounds\<close>

lemma mac_loop_iff:
  "n \<le> length a \<Longrightarrow> n \<le> length b \<Longrightarrow> mac_loop a b n = Some (take n a = take n b)"
  by (induction n) (auto simp: take_Suc_conv_app_nth dec8_def)

lemma set_src_mac_total:
  "eth + 12 \<le> length p \<Longrightarrow> \<exists>rc q. set_src_mac macs p eth idx = Some (rc, q) \<and> length q = length p"
  by (auto simp: set_src_mac_def st_obj_in split: option.split)

lemma encap_push_total: "34 \<le> length p \<Longrightarrow> \<exists>r q. encap_push E s p h sph = Some (r, q)"
  by (auto simp: encap_push_def Let_def st_obj_in split: prod.split)

lemma encap_leave_total: "34 \<le> length p \<Longrightarrow> \<exists>r q. encap_leave E s p = Some (r, q)"
  using set_src_mac_total [of 0 p "src_mac s" EGRESS_MAC] by (auto simp: encap_leave_def)

lemma encap_nsh_total: "\<exists>r q. encap_nsh E s p = Some (r, q)"
  using get_tuple_total [of p 14 zero_tuple] encap_push_total [of p] encap_leave_total [of p]
  by (auto simp: encap_nsh_def Let_def split: option.split)

lemma decap_nsh_body_total: "\<exists>r q. decap_nsh_body E s p off h = Some (r, q)"
  using get_tuple_total [of p "38 + off" zero_tuple]
  by (auto simp: decap_nsh_body_def Let_def add.commute)

lemma decap_nsh_total: "\<exists>r q. decap_nsh E s p = Some (r, q)"
  using decap_nsh_body_total [of E "cb_mark_init E s" p]
  by (simp add: decap_nsh_def Let_def mac_loop_iff split: option.split)

lemma sfc_forwarding_total: "\<exists>r q. sfc_forwarding E s p = Some (r, q)"
  using set_src_mac_total [of 0 p "src_mac (cb_mark_init E s)" EGRESS_MAC]
  by (auto simp: sfc_forwarding_def Let_def st_obj_in split: option.split)

section \<open>What the stages do to a frame\<close>

text \<open>The statistics are the only state \<open>cb_mark_init\<close>, \<open>cb_retok\<close> and \<open>cb_retother\<close> touch.\<close>

lemma mark_init_fields [simp]:
  "src_mac (cb_mark_init E s) = src_mac s"
  "nsh_data (cb_mark_init E s) = nsh_data s"
  "fwd_table (cb_mark_init E s) = fwd_table s"
  by (simp_all add: cb_mark_init_def Let_def split: option.split)

lemma ret_fields [simp]:
  "src_mac (snd (cb_retok E s c)) = src_mac s" "src_mac (snd (cb_retother E s c)) = src_mac s"
  "nsh_data (snd (cb_retok E s c)) = nsh_data s" "nsh_data (snd (cb_retother E s c)) = nsh_data s"
  "fwd_table (snd (cb_retok E s c)) = fwd_table s" "fwd_table (snd (cb_retother E s c)) = fwd_table s"
  by (simp_all add: cb_retok_def cb_retother_def Let_def split: option.split)

lemma ret_code [simp]: "fst (cb_retok E s c) = c" "fst (cb_retother E s c) = c"
  by (simp_all add: cb_retok_def cb_retother_def)

lemma retok_obtain:
  obtains s' where "cb_retok E s c = (c, s')" "src_mac s' = src_mac s" "nsh_data s' = nsh_data s"
    "fwd_table s' = fwd_table s"
  using ret_fields ret_code by (metis prod.collapse)

lemma decap_body_frame:
  "decap_nsh_body E s (pre @ enc_nsh h @ inner) (length pre) ETH_P_NSH =
    (let f = pre @ enc_nsh h @ inner in
     if next_proto h \<noteq> NSH_NEXT_PROTO_ETHER \<or> length inner < 34
     then Some (cb_retother E s XDP_DROP, f)
     else case get_tuple inner 14 zero_tuple of
       None \<Rightarrow> None
     | Some (ret, key) \<Rightarrow>
         if ret \<noteq> 0 then Some (cb_retother E s XDP_DROP, f)
         else Some (cb_retok E (s\<lparr>nsh_data := snd (nsh_update E (nsh_data s) key h BPF_ANY)\<rparr>) XDP_PASS,
                    snd (xdp_adjust_head E f (int (length pre + 24)))))"
proof -
  let ?f = "pre @ enc_nsh h @ inner"
  have t: "get_tuple ?f (length pre + 38) t = get_tuple inner 14 t" for t
    using get_tuple_shift [of "pre @ enc_nsh h" inner 14 t] by (simp add: add.commute)
  show ?thesis
    by (auto simp: decap_nsh_body_def Let_def t add.commute [of _ "length pre"] split: option.split)
qed

text \<open>The outer header of an NSH frame, with or without a VLAN tag.\<close>

definition outer_hdr :: "mac \<Rightarrow> mac \<Rightarrow> u16 option \<Rightarrow> bytes" where
  "outer_hdr d s vlan = (case vlan of
     None \<Rightarrow> ethhdr d s ETH_P_NSH
   | Some tci \<Rightarrow> ethhdr d s ETH_P_8021Q @ enc16 tci @ enc16 (bswap16 ETH_P_NSH))"

lemma decap_nsh_outer:
  assumes "src_mac s 0 = Some m"
  shows "decap_nsh E s (outer_hdr d sa vlan @ rest) =
    (let s' = cb_mark_init E s; f = outer_hdr d sa vlan @ rest in
     if \<not> unicast d then Some (cb_retother E s' XDP_PASS, f)
     else if d \<noteq> m then Some (cb_retother E s' XDP_DROP, f)
     else decap_nsh_body E s' f (length (outer_hdr d sa vlan)) ETH_P_NSH)"
proof -
  have ne: "enc_mac m = enc_mac d \<longleftrightarrow> d = m"
    using macc.enc_inject by auto
  have q: "ETH_P_NSH \<noteq> ETH_P_8021Q" by (simp add: proto_defs)
  show ?thesis
    by (cases vlan) (simp_all add: decap_nsh_def outer_hdr_def assms mac_loop_iff Let_def ne q)
qed

section \<open>The service path header\<close>

text \<open>The service path identifier is the upper three bytes of the header, the service index the
  lowest.\<close>

definition sph_of :: "'a nshhdr_scheme \<Rightarrow> u32" where
  "sph_of h = bswap32 (serv_path h)"

definition spi :: "'a nshhdr_scheme \<Rightarrow> u32" where
  "spi h = sph_of h AND 0xFFFFFF00"

definition si :: "'a nshhdr_scheme \<Rightarrow> u32" where
  "si h = sph_of h AND 0x000000FF"

definition next_nsh :: "'a nshhdr_scheme \<Rightarrow> 'a nshhdr_scheme" where
  "next_nsh h = h\<lparr>serv_path := bswap32 (sph_of h - 1)\<rparr>"

lemma next_proto_next [simp]: "next_proto (next_nsh h) = next_proto h"
  by (simp add: next_nsh_def)

lemma and_low_byte: "x AND 0xFF = take_bit 8 x" for x :: u32
  by (simp add: take_bit_eq_mask mask_numeral)

lemma and_high_bytes: "x AND 0xFFFFFF00 = push_bit 8 (drop_bit 8 x)" for x :: u32
proof -
  have "x AND NOT (mask 8) = push_bit 8 (drop_bit 8 x)"
    by (rule bit_word_eqI) (auto simp: bit_simps)
  moreover have "NOT (mask 8) = (0xFFFFFF00 :: u32)"
    by (simp add: mask_numeral)
  ultimately show ?thesis by simp
qed

lemma unat_low: "unat (take_bit 8 x) = unat x mod 256" for x :: u32
  by (simp add: unsigned_take_bit_eq take_bit_nat_def)

lemma unat_high: "unat (drop_bit 8 x) = unat x div 256" for x :: u32
  by (simp add: unat_drop_bit_eq drop_bit_nat_def)

lemma sph_dec:
  fixes x :: u32
  assumes "x AND 0xFF \<noteq> 0"
  shows "(x - 1) AND 0xFF = (x AND 0xFF) - 1" "(x - 1) AND 0xFFFFFF00 = x AND 0xFFFFFF00"
proof -
  have ne: "unat x mod 256 \<noteq> 0"
    using assms unat_low [of x] by (metis and_low_byte unat_0_iff)
  then have "x \<noteq> 0" by auto
  then have m: "unat (x - 1) = unat x - 1" by (simp add: unat_minus_one)
  have "unat (take_bit 8 (x - 1)) = unat (take_bit 8 x - 1)"
    using ne assms \<open>x \<noteq> 0\<close>
    by (cases "unat x") (simp_all add: unat_minus_one unat_low m and_low_byte mod_Suc split: if_splits)
  then show "(x - 1) AND 0xFF = (x AND 0xFF) - 1"
    by (simp only: and_low_byte word_unat_eq_iff)
  have "unat (drop_bit 8 (x - 1)) = unat (drop_bit 8 x)"
    using ne by (cases "unat x") (simp_all add: unat_high m div_Suc)
  then have "drop_bit 8 (x - 1) = drop_bit 8 x"
    by (simp only: word_unat_eq_iff)
  then show "(x - 1) AND 0xFFFFFF00 = x AND 0xFFFFFF00"
    by (simp only: and_high_bytes)
qed

lemma sph_of_next [simp]: "sph_of (next_nsh h) = sph_of h - 1"
  by (simp add: sph_of_def next_nsh_def)

lemma si_next: "si h \<noteq> 0 \<Longrightarrow> si (next_nsh h) = si h - 1"
  by (simp add: si_def sph_dec)

lemma spi_next: "si h \<noteq> 0 \<Longrightarrow> spi (next_nsh h) = spi h"
  by (simp add: si_def spi_def sph_dec)

section \<open>The egress stages on an IPv4 frame\<close>

lemma encap_push_frame:
  assumes room: "skb_room (skb_adjust_room E)"
    and rc: "fst (skb_adjust_room E (ethhdr d s p @ rest) 38) = 0"
  shows "encap_push E st (ethhdr d s p @ rest) h sph =
     Some (cb_retok E st TC_ACT_UNSPEC,
           ethhdr d s ETH_P_NSH @ enc_nsh (h\<lparr>serv_path := bswap32 sph\<rparr>) @ ethhdr d s p @ rest)"
proof -
  let ?p = "ethhdr d s p @ rest" and ?m = "enc_mac d @ enc_mac s"
  let ?o = "ethhdr d s ETH_P_NSH" and ?i = "ethhdr d s p @ rest"
  obtain r where r: "length r = 38" and ar: "skb_adjust_room E ?p 38 = (0, ethhdr d s p @ r @ rest)"
    using skb_room.room_success [OF room, of ?p 38] rc by auto
  define r1 r2 where "r1 = take 24 r" and "r2 = drop 24 r"
  have r12: "r = r1 @ r2" "length r1 = 24" "length r2 = 14"
    using r by (simp_all add: r1_def r2_def)
  have e: "ethhdr d s q = ?m @ enc16 (bswap16 q)" for q by (simp add: ethhdr_def)
  have n: "enc_nsh h = take 4 (enc_nsh h) @ enc32 (serv_path h) @ drop 8 (enc_nsh h)"
    by (simp add: enc_nsh_def)
  have s1: "st_bytes (ethhdr d s p @ r1 @ r2 @ rest) 38 (ethhdr d s p) = Some (ethhdr d s p @ r1 @ ?i)"
    using st_bytes_append [of 38 "ethhdr d s p @ r1" "ethhdr d s p" r2 rest] r12 by simp
  have s2: "st16 (ethhdr d s p @ r1 @ ?i) 12 (bswap16 ETH_P_NSH) = Some (?o @ r1 @ ?i)"
    using ethhdr_set_proto [of d s p "r1 @ ?i" ETH_P_NSH] by simp
  have s3: "st16 (?o @ r1 @ ?i) 50 (bswap16 p) = Some (?o @ r1 @ ?i)"
    using u16c.st_append [of 50 "?o @ r1 @ ?m" "enc16 (bswap16 p)"] r12 by (simp add: e)
  have s4: "st_obj enc_nsh (?o @ r1 @ ?i) 14 h = Some (?o @ enc_nsh h @ ?i)"
    using nshc.st_append [of 14 ?o r1] r12 by simp
  have s5: "st32 (?o @ enc_nsh h @ ?i) 18 (bswap32 sph) =
      Some (?o @ enc_nsh (h\<lparr>serv_path := bswap32 sph\<rparr>) @ ?i)"
    using u32c.st_append [of 18 "?o @ take 4 (enc_nsh h)" "enc32 (serv_path h)"]
    by (subst n, subst nsh_set_serv_path [symmetric]) simp
  show ?thesis
    using r12 by (simp add: encap_push_def ar r12 s1 s2 s3 s4 s5 Let_def)
qed


lemma set_src_mac_frame:
  "set_src_mac macs (ethhdr d s p @ rest) 0 idx =
     (case macs (srcmac_key idx) of None \<Rightarrow> Some (-1, ethhdr d s p @ rest)
      | Some m \<Rightarrow> Some (0, ethhdr d m p @ rest))"
  using ethhdr_set_source by (simp add: set_src_mac_def split: option.split)

lemma encap_leave_frame:
  "encap_leave E st (ethhdr d s p @ rest) =
     (case src_mac st 1 of None \<Rightarrow> Some (cb_retother E st TC_ACT_SHOT, ethhdr d s p @ rest)
      | Some m \<Rightarrow> Some (cb_retok E st TC_ACT_OK, ethhdr d m p @ rest))"
  by (simp add: encap_leave_def set_src_mac_frame split: option.split)

lemma get_tuple_ok_length: "get_tuple p ip t = Some (0, k) \<Longrightarrow> ip + 20 \<le> length p"
  by (erule get_tuple_cases) (auto dest: get_tuple_l4_in)

lemma encap_nsh_flow:
  assumes "get_tuple (ethhdr d s ETH_P_IP @ body) 14 zero_tuple = Some (0, key)"
    and "p = ethhdr d s ETH_P_IP @ body" and "st' = cb_mark_init E st"
  shows "encap_nsh E st p =
    (case nsh_data st key of
       None \<Rightarrow> encap_leave E st' p
     | Some h \<Rightarrow>
         if si h = 0 then Some (cb_retother E st' TC_ACT_SHOT, p)
         else case fwd_table st (serv_path (next_nsh h)) of
           Some nh \<Rightarrow> if flags nh AND 1 \<noteq> 0 then encap_leave E st' p
                      else encap_push E st' p h (sph_of h - 1)
         | None \<Rightarrow> encap_push E st' p h (sph_of h - 1))"
  using assms get_tuple_ok_length [OF assms(1)]
  by (simp add: encap_nsh_def Let_def next_nsh_def sph_of_def si_def split: option.split)

lemma forwarding_frame:
  "sfc_forwarding E st (ethhdr d s p @ enc_nsh h @ rest) =
    (let st' = cb_mark_init E st; f = ethhdr d s p @ enc_nsh h @ rest in
     case fwd_table st (serv_path h) of
       Some nh \<Rightarrow> if flags nh AND 1 \<noteq> 0 then Some (cb_retok E st' TC_ACT_SHOT, f)
         else (case src_mac st 1 of
             None \<Rightarrow> Some (cb_retother E st' BPF_DROP, f)
           | Some m \<Rightarrow> Some (cb_retok E st' TC_ACT_OK, ethhdr (address nh) m p @ enc_nsh h @ rest))
     | None \<Rightarrow> Some (cb_retother E st' TC_ACT_SHOT, f))"
  using ethhdr_set_dest
  by (simp add: sfc_forwarding_def Let_def set_src_mac_frame split: option.split)

lemma ipv4_frame_split:
  assumes "34 \<le> length p" and "dec16 (take 2 (drop 12 p)) = bswap16 ETH_P_IP"
  obtains d s body where "p = ethhdr d s ETH_P_IP @ body" "20 \<le> length body"
proof
  let ?e = "take 14 p"
  have "drop 12 ?e = take 2 (drop 12 p)" by (simp add: drop_take)
  with assms ethhdr_split [of ?e]
  have "?e = ethhdr (dec_mac (take 6 ?e)) (dec_mac (take 6 (drop 6 ?e))) ETH_P_IP" by simp
  then show "p = ethhdr (dec_mac (take 6 ?e)) (dec_mac (take 6 (drop 6 ?e))) ETH_P_IP @ drop 14 p"
    by (metis append_take_drop_id)
  show "20 \<le> length (drop 14 p)" using assms by simp
qed

text \<open>Only an IPv4 frame of a known flow, with service path left and no end-of-chain rule, is
  encapsulated, and this is the result.\<close>

lemma encap_push_unspec:
  assumes room: "skb_room (skb_adjust_room E)"
    and run: "encap_push E st (ethhdr d s p @ rest) h sph = Some ((TC_ACT_UNSPEC, st'), q)"
  shows "q = ethhdr d s ETH_P_NSH @ enc_nsh (h\<lparr>serv_path := bswap32 sph\<rparr>) @ ethhdr d s p @ rest
    \<and> (TC_ACT_UNSPEC, st') = cb_retok E st TC_ACT_UNSPEC"
proof -
  let ?f = "ethhdr d s p @ rest"
  have "\<not> fst (skb_adjust_room E ?f 38) < 0"
    using run
    by (auto simp: encap_push_def Let_def cb_retother_def verdict_defs split: prod.splits if_splits)
  then have "fst (skb_adjust_room E ?f 38) = 0"
    using skb_room.room_rc [OF room, of ?f 38] by linarith
  from encap_push_frame [OF room this, of st h sph] run show ?thesis by simp
qed

lemma encap_leave_verdict:
  "encap_leave E st (ethhdr d s p @ rest) = Some ((v, st'), q) \<Longrightarrow> v \<noteq> TC_ACT_UNSPEC"
  by (auto simp: encap_leave_frame cb_retok_def cb_retother_def verdict_defs split: option.splits)

lemma encap_nsh_unspec:
  assumes room: "skb_room (skb_adjust_room E)"
    and run: "encap_nsh E st p = Some ((TC_ACT_UNSPEC, st'), q)"
  obtains d s body key h where "p = ethhdr d s ETH_P_IP @ body"
    "get_tuple p 14 zero_tuple = Some (0, key)" "nsh_data st key = Some h" "si h \<noteq> 0"
    "\<And>nh. fwd_table st (serv_path (next_nsh h)) = Some nh \<Longrightarrow> flags nh AND 1 = 0"
    "q = ethhdr d s ETH_P_NSH @ enc_nsh (next_nsh h) @ p"
    "(TC_ACT_UNSPEC, st') = cb_retok E (cb_mark_init E st) TC_ACT_UNSPEC"
proof -
  have len: "34 \<le> length p" and pr: "dec16 (take 2 (drop 12 p)) = bswap16 ETH_P_IP"
    using run
    by (auto simp: encap_nsh_def Let_def cb_retok_def verdict_defs split: if_splits)
  obtain d s body where p: "p = ethhdr d s ETH_P_IP @ body" and "20 \<le> length body"
    using ipv4_frame_split [OF len pr] .
  obtain rc key where gt: "get_tuple p 14 zero_tuple = Some (rc, key)"
    using get_tuple_total by blast
  have "rc \<noteq> -1"
    using run len pr gt by (auto simp: encap_nsh_def Let_def cb_retok_def verdict_defs)
  with get_tuple_rc [OF gt] gt have gt: "get_tuple p 14 zero_tuple = Some (0, key)" by simp
  note flow = encap_nsh_flow [OF gt [unfolded p] p refl, of E st]
  obtain h where h: "nsh_data st key = Some h"
    using run encap_leave_verdict [of E "cb_mark_init E st" d s ETH_P_IP body]
    by (auto simp: flow p [symmetric] split: option.splits)
  have si: "si h \<noteq> 0"
    using run by (auto simp: flow h cb_retother_def verdict_defs split: if_splits)
  have nh: "flags nh AND 1 = 0" if "fwd_table st (serv_path (next_nsh h)) = Some nh" for nh
    using run that si encap_leave_verdict [of E "cb_mark_init E st" d s ETH_P_IP body]
    by (auto simp: flow h p [symmetric] split: if_splits)
  have "encap_push E (cb_mark_init E st) p h (sph_of h - 1) = Some ((TC_ACT_UNSPEC, st'), q)"
    using run nh si by (auto simp: flow h split: option.splits)
  from encap_push_unspec [OF room this [unfolded p]] show thesis
    using that [OF p gt h si nh] by (simp add: next_nsh_def p)
qed

text \<open>A frame this node accepts: the packet is its inner frame, the NSH is remembered.\<close>

lemma decap_nsh_accepts:
  assumes head: "xdp_head (xdp_adjust_head E)" and upd: "map_update (nsh_update E)"
    and mine: "src_mac s 0 = Some m" "unicast m"
    and hdr: "next_proto h = NSH_NEXT_PROTO_ETHER"
    and key: "get_tuple inner 14 zero_tuple = Some (0, key)"
    and frame: "frame = outer_hdr m sa vlan @ enc_nsh h @ inner"
    and head_ok: "fst (xdp_adjust_head E frame (int (length (outer_hdr m sa vlan) + 24))) = 0"
    and upd_ok: "fst (nsh_update E (nsh_data s) key h BPF_ANY) = 0"
  shows "decap_nsh E s frame
    = Some (cb_retok E ((cb_mark_init E s)\<lparr>nsh_data := (nsh_data s)(key \<mapsto> h)\<rparr>) XDP_PASS, inner)"
proof -
  have strip: "snd (xdp_adjust_head E frame (int (length (outer_hdr m sa vlan) + 24))) = inner"
    using xdp_head.head_drop [OF head head_ok] by (simp add: frame)
  have store: "snd (nsh_update E (nsh_data s) key h BPF_ANY) = (nsh_data s)(key \<mapsto> h)"
    by (rule map_update.update_ok [OF upd upd_ok])
  show ?thesis
    using mine hdr strip store key get_tuple_ok_length [OF key]
    by (simp add: decap_nsh_outer [of s m] decap_body_frame frame)
qed

text \<open>A frame of a remembered flow whose chain goes on.\<close>

lemma encap_nsh_goes_on:
  assumes room: "skb_room (skb_adjust_room E)" and room_ok: "fst (skb_adjust_room E p 38) = 0"
    and p: "p = ethhdr d s ETH_P_IP @ body"
    and key: "get_tuple p 14 zero_tuple = Some (0, key)"
    and h: "nsh_data st key = Some h" "si h \<noteq> 0"
    and more: "\<And>nh. fwd_table st (serv_path (next_nsh h)) = Some nh \<Longrightarrow> flags nh AND 1 = 0"
  shows "encap_nsh E st p = Some (cb_retok E (cb_mark_init E st) TC_ACT_UNSPEC,
           ethhdr d s ETH_P_NSH @ enc_nsh (next_nsh h) @ p)"
  using encap_nsh_flow [OF key [unfolded p] p refl, of E st] h more
    encap_push_frame [OF room room_ok [unfolded p], of "cb_mark_init E st" h "sph_of h - 1"]
  by (auto simp: p next_nsh_def split: option.split)

end
