(* ===== verification/SfcNode.thy ===== *)
theory SfcNode
  imports SfcStages
begin

text \<open>
  A service function node: the stages of \<open>SfcStages\<close> as the agent attaches them, and the
  properties of the node. \<open>decap_nsh\<close> runs on the ingress interface; \<open>tc_egress\<close> is the TC
  egress hook with \<open>encap_nsh\<close> at preference 1 and \<open>sfc_forwarding\<close> at preference 2
  (\<^verbatim>\<open>load_egress_stages\<close> in \<^verbatim>\<open>src/utils/cb_agent_helpers.c\<close>), where TC tries the next filter
  exactly when a program returns \<^verbatim>\<open>TC_ACT_UNSPEC\<close>.
\<close>

section \<open>The egress hook\<close>

text \<open>\<^verbatim>\<open>prog_stats\<close> is not pinned, so each program has its own: \<open>fs\<close> is the forwarding
  program's, the one in the state is the encapsulation program's.\<close>

definition tc_egress ::
  "'e stage_env_scheme \<Rightarrow> (u8 \<rightharpoonup> stats) \<Rightarrow> 's stage_state_scheme \<Rightarrow> bytes \<Rightarrow>
   ((u8 \<rightharpoonup> stats) \<times> 's stage_state_scheme) run" where
  "tc_egress E fs s p = do {
     ((v, s'), q) \<leftarrow> encap_nsh E s p;
     if v = TC_ACT_UNSPEC then do {
       ((v, s''), q) \<leftarrow> sfc_forwarding E (s'\<lparr>prog_stats := fs\<rparr>) q;
       Some ((v, prog_stats s'', s''\<lparr>prog_stats := prog_stats s'\<rparr>), q)
     }
     else Some ((v, fs, s'), q)
   }"

section \<open>Samples\<close>

definition sample_env :: stage_env where
  "sample_env = \<lparr>enable_stats = True, ktime = (\<lambda>n. if n = 0 then 1000 else 1500),
     stats_update = upd_roomy, redirect = (\<lambda>i f. 7), skb_adjust_room = skb_room_zero,
     xdp_adjust_head = xdp_head_plain, nsh_update = upd_roomy\<rparr>"

text \<open>A UDP datagram 10.10.10.1:1000 to 10.10.10.2:2000 with no payload.\<close>

definition sample_udp :: bytes where
  "sample_udp = [0x45, 0, 0, 28, 0, 0, 0, 0, 64, 17, 0, 0, 10, 10, 10, 1, 10, 10, 10, 2,
                 3, 0xE8, 7, 0xD0, 0, 8, 0, 0]"

definition sample_key :: ip_5tuple where
  "sample_key = \<lparr>ip_src = 0x010A0A0A, ip_dst = 0x020A0A0A, sport = 0xE803, dport = 0xD007, proto = 17\<rparr>"

definition mac_a :: mac where "mac_a = Mac 0x02 0 0 0 0 0xA"
definition mac_b :: mac where "mac_b = Mac 0x02 0 0 0 0 0xB"
definition mac_c :: mac where "mac_c = Mac 0x02 0 0 0 0 0xC"

definition sample_inner :: bytes where
  "sample_inner = ethhdr mac_c mac_b ETH_P_IP @ sample_udp"

text \<open>Service path 1, index 2, as the frame carries it.\<close>

definition sample_nsh :: nshhdr_md1 where
  "sample_nsh = \<lparr>basic_info = 0xC20F, md_type = 2, next_proto = 3, serv_path = 0x02010000,
                 nsh_context = (0, 0, 0, 0)\<rparr>"

definition sample_state :: stage_state where
  "sample_state = \<lparr>prog_stats = Map.empty, src_mac = [0 \<mapsto> mac_a, 1 \<mapsto> mac_b],
     nsh_data = Map.empty, fwd_table = [0x01010000 \<mapsto> \<lparr>flags = 0, address = mac_c\<rparr>]\<rparr>"

lemma sample_tuple: "get_tuple sample_inner 14 zero_tuple = Some (0, sample_key)"
  by (simp add: get_tuple_def get_tuple_l4_def sample_inner_def sample_udp_def sample_key_def
      zero_tuple_def proto_defs dec8_def dec16_def dec32_def)

lemma sample_env_simps [simp]:
  "skb_adjust_room sample_env = skb_room_zero" "xdp_adjust_head sample_env = xdp_head_plain"
  "nsh_update sample_env = upd_roomy" "stats_update sample_env = upd_roomy"
  by (simp_all add: sample_env_def)

lemma sample_state_simps [simp]:
  "src_mac sample_state = [0 \<mapsto> mac_a, 1 \<mapsto> mac_b]" "nsh_data sample_state = Map.empty"
  "fwd_table sample_state = [0x01010000 \<mapsto> \<lparr>flags = 0, address = mac_c\<rparr>]"
  "next_proto sample_nsh = NSH_NEXT_PROTO_ETHER" "serv_path sample_nsh = 0x02010000"
  by (simp_all add: sample_state_def sample_nsh_def nsh_defs)

lemma sample_length [simp]: "length sample_inner = 42"
  by (simp add: sample_inner_def sample_udp_def)

lemma sample_macs [simp]: "unicast mac_a" "mac_a \<noteq> mac_b"
  by (simp_all add: mac_a_def mac_b_def)

section \<open>Properties\<close>

text \<open>No stage reads or writes outside the packet, for every packet, state and behaviour of
  the kernel helpers: each access is behind a bounds check that covers it.\<close>

lemma stages_in_bounds:
  "decap_nsh E s p \<noteq> None \<and> encap_nsh E s p \<noteq> None \<and> sfc_forwarding E s p \<noteq> None"
  using decap_nsh_total [of E s p] encap_nsh_total [of E s p] sfc_forwarding_total [of E s p] by auto

text \<open>C2. The decapsulation of a frame addressed to this node, with or without a VLAN tag: if
  the kernel accepts the map update and the head adjustment, the packet is exactly the inner
  frame and its NSH is remembered under the inner flow's key; the other maps do not change.\<close>

theorem decap_nsh_strips:
  assumes head: "xdp_head (xdp_adjust_head E)" and upd: "map_update (nsh_update E)"
    and mine: "src_mac s 0 = Some m" "unicast m"
    and hdr: "next_proto h = NSH_NEXT_PROTO_ETHER"
    and key: "get_tuple inner 14 zero_tuple = Some (0, key)"
    and frame: "frame = outer_hdr m sa vlan @ enc_nsh h @ inner"
    and head_ok: "fst (xdp_adjust_head E frame (int (length (outer_hdr m sa vlan) + 24))) = 0"
    and upd_ok: "fst (nsh_update E (nsh_data s) key h BPF_ANY) = 0"
  shows "\<exists>s'. decap_nsh E s frame = Some ((XDP_PASS, s'), inner)
      \<and> nsh_data s' = (nsh_data s)(key \<mapsto> h)
      \<and> src_mac s' = src_mac s \<and> fwd_table s' = fwd_table s"
proof -
  let ?s = "(cb_mark_init E s)\<lparr>nsh_data := (nsh_data s)(key \<mapsto> h)\<rparr>"
  have "decap_nsh E s frame = Some (cb_retok E ?s XDP_PASS, inner)"
    by (rule decap_nsh_accepts [OF assms])
  then show ?thesis by (rule_tac retok_obtain [of E ?s XDP_PASS]) simp
qed

lemma sample_helpers: "xdp_head xdp_head_plain" "skb_room skb_room_zero" "map_update upd_roomy"
   "map_update upd_full"
  by (rule head_plain.xdp_head_axioms room_zero.skb_room_axioms roomy.map_update_axioms full.map_update_axioms)+


definition sample_frame :: bytes where
  "sample_frame = outer_hdr mac_a mac_b None @ enc_nsh sample_nsh @ sample_inner"

lemma sample_rc:
  "fst (xdp_head_plain (outer_hdr mac_a mac_b None @ enc_nsh sample_nsh @ sample_inner) 38) = 0"
  "fst (upd_roomy m k v BPF_ANY) = 0"
  by (simp_all add: xdp_head_plain_def outer_hdr_def upd_roomy_def BPF_ANY_def BPF_NOEXIST_def)

lemma sample_decap:
  "decap_nsh sample_env sample_state sample_frame
    = Some (cb_retok sample_env ((cb_mark_init sample_env sample_state)
        \<lparr>nsh_data := [sample_key \<mapsto> sample_nsh]\<rparr>) XDP_PASS, sample_inner)"
  using decap_nsh_accepts [where E = sample_env and s = sample_state and m = mac_a and sa = mac_b
      and vlan = None and frame = sample_frame, OF _ _ _ _ _ sample_tuple]
  by (simp add: sample_helpers sample_rc sample_frame_def outer_hdr_def xdp_head_plain_def)

theorem decap_nsh_strips_witness:
  "\<exists>s'. decap_nsh sample_env sample_state sample_frame = Some ((XDP_PASS, s'), sample_inner)"
proof -
  have "\<exists>s'. decap_nsh sample_env sample_state sample_frame = Some ((XDP_PASS, s'), sample_inner)
      \<and> nsh_data s' = (nsh_data sample_state)(sample_key \<mapsto> sample_nsh)
      \<and> src_mac s' = src_mac sample_state \<and> fwd_table s' = fwd_table sample_state"
    by (rule decap_nsh_strips [where m = mac_a and sa = mac_b and vlan = None, OF _ _ _ _ _ sample_tuple])
       (simp_all add: sample_helpers sample_rc sample_frame_def outer_hdr_def xdp_head_plain_def)
  then show ?thesis by blast
qed

text \<open>C3. \<open>decap_nsh\<close> changes the packet or the NSH map only for a frame sent to this
  node's unicast address whose EtherType (under at most one VLAN tag) is NSH.\<close>

theorem decap_nsh_only_own:
  assumes run: "decap_nsh E s p = Some ((v, s'), q)"
    and changed: "q \<noteq> p \<or> nsh_data s' \<noteq> nsh_data s"
  shows "v = XDP_PASS \<and> (\<exists>m. src_mac s 0 = Some m \<and> take 6 p = enc_mac m)
    \<and> dec8 (take 1 p) AND 1 = 0
    \<and> (let et = bswap16 (dec16 (take 2 (drop 12 p))) in
       et = ETH_P_NSH \<or> et = ETH_P_8021Q \<and> bswap16 (dec16 (take 2 (drop 16 p))) = ETH_P_NSH)"
proof -
  let ?s = "cb_mark_init E s"
  have other: "p = q \<Longrightarrow> False" if "cb_retother E ?s c = (v, s')" for c
    using changed ret_fields(4) [of E ?s c] that by simp
  have body: "v = XDP_PASS \<and> h = ETH_P_NSH"
    if "decap_nsh_body E ?s p off h = Some ((v, s'), q)" for off h
    using that get_tuple_total [of p "off + 38" zero_tuple]
    by (auto simp: decap_nsh_body_def Let_def cb_retok_def dest: other
        split: if_splits option.splits Option.bind_splits)
  show ?thesis
    using run
    by (auto simp: decap_nsh_def Let_def mac_loop_iff dest: other dest!: body
        split: option.splits if_splits)
qed

theorem decap_nsh_only_own_witness:
  "\<exists>s' q. decap_nsh sample_env sample_state sample_frame = Some ((XDP_PASS, s'), q)
    \<and> take 6 sample_frame = enc_mac mac_a"
proof -
  obtain s' where r: "decap_nsh sample_env sample_state sample_frame = Some ((XDP_PASS, s'), sample_inner)"
    by (rule retok_obtain) (use sample_decap in auto)
  have "length sample_inner \<noteq> length sample_frame" by (simp add: sample_frame_def outer_hdr_def)
  then have "sample_inner \<noteq> sample_frame \<or> nsh_data s' \<noteq> nsh_data sample_state" by metis
  from decap_nsh_only_own [OF r this] r show ?thesis by auto
qed

text \<open>C4. One hop of a chain: the frame a node decapsulates, sent on unchanged by its service
  function, is encapsulated again with the same NSH, but for the service path header which is
  one lower: the same path, the next index. The inner frame is untouched, byte for byte.\<close>

theorem decap_encap_roundtrip:
  assumes head: "xdp_head (xdp_adjust_head E)" and upd: "map_update (nsh_update E)"
    and room: "skb_room (skb_adjust_room E)"
    and mine: "src_mac s 0 = Some m" "unicast m"
    and hdr: "next_proto h = NSH_NEXT_PROTO_ETHER" "si h \<noteq> 0"
    and inner: "inner = ethhdr d sd ETH_P_IP @ body"
    and key: "get_tuple inner 14 zero_tuple = Some (0, key)"
    and frame: "frame = outer_hdr m sa vlan @ enc_nsh h @ inner"
    and head_ok: "fst (xdp_adjust_head E frame (int (length (outer_hdr m sa vlan) + 24))) = 0"
    and upd_ok: "fst (nsh_update E (nsh_data s) key h BPF_ANY) = 0"
    and room_ok: "fst (skb_adjust_room E inner 38) = 0"
    and more: "\<And>nh. fwd_table s (serv_path (next_nsh h)) = Some nh \<Longrightarrow> flags nh AND 1 = 0"
  shows "\<exists>s1 s2. decap_nsh E s frame = Some ((XDP_PASS, s1), inner)
    \<and> encap_nsh E (s1\<lparr>prog_stats := es\<rparr>) inner
        = Some ((TC_ACT_UNSPEC, s2), ethhdr d sd ETH_P_NSH @ enc_nsh (next_nsh h) @ inner)
    \<and> spi (next_nsh h) = spi h \<and> si (next_nsh h) = si h - 1"
proof -
  let ?s0 = "(cb_mark_init E s)\<lparr>nsh_data := (nsh_data s)(key \<mapsto> h)\<rparr>"
  have s1: "decap_nsh E s frame = Some (cb_retok E ?s0 XDP_PASS, inner)"
    by (rule decap_nsh_accepts [OF head upd mine hdr(1) key frame head_ok upd_ok])
  obtain s1 where r1: "cb_retok E ?s0 XDP_PASS = (XDP_PASS, s1)"
    and f1: "nsh_data s1 = (nsh_data s)(key \<mapsto> h)" "fwd_table s1 = fwd_table s"
    by (rule retok_obtain [of E ?s0 XDP_PASS]) auto
  let ?s = "s1\<lparr>prog_stats := es\<rparr>"
  have "encap_nsh E ?s inner
      = Some (cb_retok E (cb_mark_init E ?s) TC_ACT_UNSPEC,
              ethhdr d sd ETH_P_NSH @ enc_nsh (next_nsh h) @ inner)"
    by (rule encap_nsh_goes_on [OF room room_ok inner key _ hdr(2)]) (use f1 more in auto)
  with s1 r1 hdr show ?thesis
    by (rule_tac retok_obtain [of E "cb_mark_init E ?s" TC_ACT_UNSPEC]) (auto simp: si_next spi_next)
qed

lemma sample_next [simp]: "serv_path (next_nsh sample_nsh) = 0x01010000"
  by (simp add: next_nsh_def sph_of_def bswap32_def word_eval)

lemma sample_more:
  "fwd_table sample_state (serv_path (next_nsh sample_nsh)) = Some \<lparr>flags = 0, address = mac_c\<rparr>"
  "si sample_nsh = 2"
  by (simp_all add: sph_of_def si_def word_eval)

lemma sample_room: "fst (skb_room_zero sample_inner 38) = 0"
  by (simp add: skb_room_zero_def)

theorem decap_encap_roundtrip_witness:
  "\<exists>s1 s2. decap_nsh sample_env sample_state sample_frame = Some ((XDP_PASS, s1), sample_inner)
    \<and> encap_nsh sample_env (s1\<lparr>prog_stats := Map.empty\<rparr>) sample_inner
        = Some ((TC_ACT_UNSPEC, s2),
                ethhdr mac_c mac_b ETH_P_NSH @ enc_nsh (next_nsh sample_nsh) @ sample_inner)
    \<and> spi (next_nsh sample_nsh) = spi sample_nsh \<and> si (next_nsh sample_nsh) = si sample_nsh - 1"
  by (rule decap_encap_roundtrip [where m = mac_a and sa = mac_b and vlan = None and body = sample_udp,
        OF _ _ _ _ _ _ _ _ sample_tuple])
     (simp_all add: sample_helpers sample_rc sample_frame_def outer_hdr_def xdp_head_plain_def
       sample_inner_def [symmetric] sample_room sample_more)

text \<open>\<open>encap_nsh\<close> hands a frame to the forwarding stage only if it is an IPv4 frame of a
  flow with a remembered NSH whose service index is not zero and whose next service path header
  is not an end of chain; and then the new frame is the old one behind an outer Ethernet header
  and that NSH, whatever the room the kernel made contained.\<close>

theorem encap_nsh_only_chained:
  assumes room: "skb_room (skb_adjust_room E)"
    and run: "encap_nsh E st p = Some ((TC_ACT_UNSPEC, st'), q)"
  shows "\<exists>d s body key h. p = ethhdr d s ETH_P_IP @ body
    \<and> get_tuple p 14 zero_tuple = Some (0, key) \<and> nsh_data st key = Some h \<and> si h \<noteq> 0
    \<and> (\<forall>nh. fwd_table st (serv_path (next_nsh h)) = Some nh \<longrightarrow> flags nh AND 1 = 0)
    \<and> q = ethhdr d s ETH_P_NSH @ enc_nsh (next_nsh h) @ p"
  using encap_nsh_unspec [OF assms] by metis

definition sample_known :: stage_state where
  "sample_known = sample_state\<lparr>nsh_data := [sample_key \<mapsto> sample_nsh]\<rparr>"

lemma sample_known_simps [simp]:
  "src_mac sample_known = [0 \<mapsto> mac_a, 1 \<mapsto> mac_b]" "nsh_data sample_known = [sample_key \<mapsto> sample_nsh]"
  "fwd_table sample_known = [0x01010000 \<mapsto> \<lparr>flags = 0, address = mac_c\<rparr>]"
  by (simp_all add: sample_known_def)

lemma sample_encap:
  "encap_nsh sample_env sample_known sample_inner
    = Some (cb_retok sample_env (cb_mark_init sample_env sample_known) TC_ACT_UNSPEC,
            ethhdr mac_c mac_b ETH_P_NSH @ enc_nsh (next_nsh sample_nsh) @ sample_inner)"
  by (rule encap_nsh_goes_on [where key = sample_key and body = sample_udp])
     (use sample_more in \<open>auto simp: sample_helpers sample_room sample_inner_def [symmetric] sample_tuple\<close>)

theorem encap_nsh_only_chained_witness:
  "\<exists>st' q h. encap_nsh sample_env sample_known sample_inner = Some ((TC_ACT_UNSPEC, st'), q)
    \<and> nsh_data sample_known sample_key = Some h
    \<and> (\<exists>d s. q = ethhdr d s ETH_P_NSH @ enc_nsh (next_nsh h) @ sample_inner)"
proof -
  obtain st' where r: "encap_nsh sample_env sample_known sample_inner = Some ((TC_ACT_UNSPEC, st'),
      ethhdr mac_c mac_b ETH_P_NSH @ enc_nsh (next_nsh sample_nsh) @ sample_inner)"
    by (rule retok_obtain) (use sample_encap in auto)
  with encap_nsh_only_chained [OF _ r] sample_tuple show ?thesis
    by (auto simp: sample_helpers)
qed

text \<open>The result of a program without the maps it shares.\<close>

definition seen :: "'s stage_state_scheme run \<Rightarrow> (int \<times> (u8 \<rightharpoonup> stats) \<times> bytes) option" where
  "seen r = map_option (\<lambda>((v, s), p). (v, prog_stats s, p)) r"

lemma stats_of_table [simp]:
  "prog_stats (cb_mark_init E (s\<lparr>fwd_table := T\<rparr>)) = prog_stats (cb_mark_init E s)"
  by (simp add: cb_mark_init_def Let_def split: option.split)

lemma stats_of_ret:
  "prog_stats s = prog_stats s' \<Longrightarrow> prog_stats (snd (cb_retok E s c)) = prog_stats (snd (cb_retok E s' c))"
  "prog_stats s = prog_stats s' \<Longrightarrow> prog_stats (snd (cb_retother E s c)) = prog_stats (snd (cb_retother E s' c))"
  by (simp_all add: cb_retok_def cb_retother_def Let_def split: option.split)

lemma seen_Some: "seen (Some (r, p)) = Some (fst r, prog_stats (snd r), p)"
  by (simp add: seen_def split_beta)

text \<open>C6. The branch of \<open>sfc_forwarding\<close> whose message is "Second end of chain! This should
  not happen!!" is unreachable after \<open>encap_nsh\<close>. Whatever its statistics, \<open>sfc_forwarding\<close> on the
  frame and the maps that \<open>encap_nsh\<close> left ends in one of the other three ways: no rule, no egress
  MAC address, or the frame goes to the rule's next hop; and the end-of-chain rules do not matter: with
  any other table that agrees on all the other keys, it does the same, so it never acts on one.\<close>

theorem no_second_end_of_chain:
  assumes room: "skb_room (skb_adjust_room E)"
    and run: "encap_nsh E st p = Some ((TC_ACT_UNSPEC, st'), q)"
  shows "(\<exists>d s h. q = ethhdr d s ETH_P_NSH @ enc_nsh h @ p
      \<and> sfc_forwarding E (st'\<lparr>prog_stats := fs\<rparr>) q =
        (let s1 = cb_mark_init E (st'\<lparr>prog_stats := fs\<rparr>) in Some
          (case fwd_table st' (serv_path h) of
             None \<Rightarrow> (cb_retother E s1 TC_ACT_SHOT, q)
           | Some nh \<Rightarrow>
               (case src_mac st' 1 of
                  None \<Rightarrow> (cb_retother E s1 BPF_DROP, q)
                | Some m \<Rightarrow> (cb_retok E s1 TC_ACT_OK, ethhdr (address nh) m ETH_P_NSH @ enc_nsh h @ p)))))
    \<and> (\<forall>T. (\<forall>k. (\<forall>nh. fwd_table st' k = Some nh \<longrightarrow> flags nh AND 1 = 0) \<longrightarrow> T k = fwd_table st' k) \<longrightarrow>
        seen (sfc_forwarding E (st'\<lparr>prog_stats := fs, fwd_table := T\<rparr>) q) = seen (sfc_forwarding E (st'\<lparr>prog_stats := fs\<rparr>) q))"
proof -
  obtain d s body key h where q: "q = ethhdr d s ETH_P_NSH @ enc_nsh (next_nsh h) @ p"
    and more: "\<And>nh. fwd_table st (serv_path (next_nsh h)) = Some nh \<Longrightarrow> flags nh AND 1 = 0"
    and st': "(TC_ACT_UNSPEC, st') = cb_retok E (cb_mark_init E st) TC_ACT_UNSPEC"
    using encap_nsh_unspec [OF assms] by metis
  have "fwd_table st' = fwd_table st"
    using ret_fields(5) [of E "cb_mark_init E st" TC_ACT_UNSPEC] by (simp flip: st')
  then have more: "fwd_table st' (serv_path (next_nsh h)) = Some nh \<Longrightarrow> flags nh AND 1 = 0" for nh
    using more by simp
  have run: "sfc_forwarding E (st'\<lparr>prog_stats := fs\<rparr>) q =
      (let s1 = cb_mark_init E (st'\<lparr>prog_stats := fs\<rparr>) in Some
        (case fwd_table st' (serv_path (next_nsh h)) of
           None \<Rightarrow> (cb_retother E s1 TC_ACT_SHOT, q)
         | Some nh \<Rightarrow>
             (case src_mac st' 1 of
                None \<Rightarrow> (cb_retother E s1 BPF_DROP, q)
              | Some m \<Rightarrow> (cb_retok E s1 TC_ACT_OK, ethhdr (address nh) m ETH_P_NSH @ enc_nsh (next_nsh h) @ p))))"
    using more by (auto simp: q forwarding_frame Let_def split: option.split)
  have "seen (sfc_forwarding E (st'\<lparr>prog_stats := fs, fwd_table := T\<rparr>) q) = seen (sfc_forwarding E (st'\<lparr>prog_stats := fs\<rparr>) q)"
    if "\<forall>k. (\<forall>nh. fwd_table st' k = Some nh \<longrightarrow> flags nh AND 1 = 0) \<longrightarrow> T k = fwd_table st' k" for T
  proof -
    have "T (serv_path (next_nsh h)) = fwd_table st' (serv_path (next_nsh h))" using that more by blast
    then show ?thesis
      by (auto simp: q forwarding_frame Let_def seen_Some split: option.split intro!: stats_of_ret)
  qed
  with run q show ?thesis by blast
qed

text \<open>The end of another chain is turned into a rule that forwards.\<close>

definition sample_two_chains :: stage_state where
  "sample_two_chains = sample_known\<lparr>fwd_table := [0x01010000 \<mapsto> \<lparr>flags = 0, address = mac_c\<rparr>,
     0x00020000 \<mapsto> \<lparr>flags = 1, address = mac_a\<rparr>]\<rparr>"

theorem no_second_end_of_chain_witness:
  "\<exists>st' q. encap_nsh sample_env sample_two_chains sample_inner = Some ((TC_ACT_UNSPEC, st'), q)
    \<and> seen (sfc_forwarding sample_env (st'\<lparr>prog_stats := Map.empty,
        fwd_table := [0x01010000 \<mapsto> \<lparr>flags = 0, address = mac_c\<rparr>, 0x00020000 \<mapsto> \<lparr>flags = 0, address = mac_b\<rparr>]\<rparr>) q)
      = seen (sfc_forwarding sample_env (st'\<lparr>prog_stats := Map.empty\<rparr>) q)"
proof -
  have "encap_nsh sample_env sample_two_chains sample_inner
    = Some (cb_retok sample_env (cb_mark_init sample_env sample_two_chains) TC_ACT_UNSPEC,
            ethhdr mac_c mac_b ETH_P_NSH @ enc_nsh (next_nsh sample_nsh) @ sample_inner)"
    by (rule encap_nsh_goes_on [where key = sample_key and body = sample_udp])
      (use sample_more in \<open>auto simp: sample_helpers sample_room sample_inner_def [symmetric] sample_tuple sample_two_chains_def
        split: if_splits\<close>)
  then obtain st' where r: "encap_nsh sample_env sample_two_chains sample_inner = Some ((TC_ACT_UNSPEC, st'),
      ethhdr mac_c mac_b ETH_P_NSH @ enc_nsh (next_nsh sample_nsh) @ sample_inner)"
    and t: "fwd_table st' = fwd_table sample_two_chains"
    using retok_obtain [of sample_env "cb_mark_init sample_env sample_two_chains" TC_ACT_UNSPEC] by auto
  have room: "skb_room (skb_adjust_room sample_env)" by (simp add: sample_helpers)
  have "\<forall>k. (\<forall>nh. fwd_table st' k = Some nh \<longrightarrow> flags nh AND 1 = 0) \<longrightarrow>
      [0x01010000 \<mapsto> \<lparr>flags = 0, address = mac_c\<rparr>, 0x00020000 \<mapsto> \<lparr>flags = 0, address = mac_b\<rparr>] k = fwd_table st' k"
    by (auto simp: t sample_two_chains_def)
  with no_second_end_of_chain [OF room r, of Map.empty] r show ?thesis by blast
qed

section \<open>What the egress hook promises\<close>

text \<open>
  The contract of the hook, over host-order service path headers and with no bytes: a frame
  of an unknown flow or at the end of its chain leaves, one whose index is used up or whose next
  path has no rule is dropped, any other goes to the rule's next hop under the next NSH.
\<close>

datatype decision = Leave | Drop_frame | Next_hop mac nshhdr_md1

fun decide :: "nshhdr_md1 option \<Rightarrow> (u32 \<rightharpoonup> fwd_entry) \<Rightarrow> decision" where
  "decide None rules = Leave"
| "decide (Some h) rules =
     (if si h = 0 then Drop_frame
      else case rules (sph_of h - 1) of
        None \<Rightarrow> Drop_frame
      | Some r \<Rightarrow> if flags r AND 1 \<noteq> 0 then Leave else Next_hop (address r) (next_nsh h))"

lemma sphkey: "serv_path (next_nsh h) = bswap32 (sph_of h - 1)"
  by (simp add: next_nsh_def)

lemma egress_push:
  assumes "skb_room (skb_adjust_room E)" and "fst (skb_adjust_room E p 38) = 0"
    and "p = ethhdr d s ETH_P_IP @ body"
    and "get_tuple p 14 zero_tuple = Some (0, key)"
    and "nsh_data st key = Some h" "si h \<noteq> 0"
    and "\<And>nh. fwd_table st (serv_path (next_nsh h)) = Some nh \<Longrightarrow> flags nh AND 1 = 0"
  obtains st' where "src_mac st' = src_mac st" "fwd_table st' = fwd_table st"
    "tc_egress E fs st p = do {
       ((v, s''), q) \<leftarrow> sfc_forwarding E (st'\<lparr>prog_stats := fs\<rparr>)
          (ethhdr d s ETH_P_NSH @ enc_nsh (next_nsh h) @ p);
       Some ((v, prog_stats s'', s''\<lparr>prog_stats := prog_stats st'\<rparr>), q) }"
  using encap_nsh_goes_on [OF assms]
  by (rule_tac retok_obtain [of E "cb_mark_init E st" TC_ACT_UNSPEC]) (simp add: tc_egress_def)

lemma egress_decides:
  assumes room: "skb_room (skb_adjust_room E)" and room_ok: "fst (skb_adjust_room E p 38) = 0"
    and p: "p = ethhdr d s ETH_P_IP @ body"
    and key: "get_tuple p 14 zero_tuple = Some (0, key)"
    and mac: "src_mac st 1 = Some m"
  shows "\<exists>v st' q. tc_egress E fs st p = Some ((v, st'), q)
    \<and> (case decide (nsh_data st key) (\<lambda>sph. fwd_table st (bswap32 sph)) of
         Leave \<Rightarrow> v = TC_ACT_OK \<and> q = ethhdr d m ETH_P_IP @ body
       | Drop_frame \<Rightarrow> v = TC_ACT_SHOT
       | Next_hop a h' \<Rightarrow> v = TC_ACT_OK \<and> q = ethhdr a m ETH_P_NSH @ enc_nsh h' @ p)"
proof -
  note flow = encap_nsh_flow [OF key [unfolded p] p refl, of E st]
  have leave: "\<exists>st'. encap_leave E (cb_mark_init E st) p
      = Some ((TC_ACT_OK, st'), ethhdr d m ETH_P_IP @ body)"
    using mac by (simp add: p encap_leave_frame cb_retok_def)
  have ne: "TC_ACT_OK \<noteq> TC_ACT_UNSPEC" "TC_ACT_SHOT \<noteq> TC_ACT_UNSPEC"
    by (simp_all add: verdict_defs)
  show ?thesis
  proof (cases "nsh_data st key")
    case None
    with leave ne show ?thesis by (auto simp: tc_egress_def flow)
  next
    case (Some h)
    consider "si h = 0"
      | nh where "si h \<noteq> 0" "fwd_table st (bswap32 (sph_of h - 1)) = Some nh" "flags nh AND 1 \<noteq> 0"
      | "si h \<noteq> 0" "\<And>nh. fwd_table st (serv_path (next_nsh h)) = Some nh \<Longrightarrow> flags nh AND 1 = 0"
      using sphkey by metis
    then show ?thesis
    proof cases
      case 1
      then show ?thesis using Some ne by (simp add: tc_egress_def flow cb_retother_def)
    next
      case 2
      then show ?thesis using Some leave ne by (auto simp: tc_egress_def flow sphkey)
    next
      case 3
      obtain st' where st': "src_mac st' = src_mac st" "fwd_table st' = fwd_table st"
        and run: "tc_egress E fs st p = do {
          ((v, s''), q) \<leftarrow> sfc_forwarding E (st'\<lparr>prog_stats := fs\<rparr>)
             (ethhdr d s ETH_P_NSH @ enc_nsh (next_nsh h) @ p);
          Some ((v, prog_stats s'', s''\<lparr>prog_stats := prog_stats st'\<rparr>), q) }"
        by (rule egress_push [OF room room_ok p key Some 3])
      show ?thesis
      proof (cases "fwd_table st (bswap32 (sph_of h - 1))")
        case None
        then show ?thesis
          using 3(1) st' by (simp add: run forwarding_frame sphkey cb_retother_def Some Let_def)
      next
        case (Some nh)
        with 3(2) have "flags nh AND 1 = 0" by (simp add: sphkey)
        with Some show ?thesis
          using 3(1) st' mac \<open>nsh_data st key = Some h\<close>
          by (simp add: run forwarding_frame sphkey cb_retok_def Let_def)
      qed
    qed
  qed
qed

text \<open>C7. The two egress programs together implement \<open>decide\<close>: for every IPv4 frame with a
  flow key (and room for the headers, and a configured egress MAC address), the verdict and the
  frame that leaves are those of the decision.\<close>

theorem egress_refines_decide:
  assumes room: "skb_room (skb_adjust_room E)" and room_ok: "fst (skb_adjust_room E p 38) = 0"
    and p: "p = ethhdr d s ETH_P_IP @ body"
    and key: "get_tuple p 14 zero_tuple = Some (0, key)"
    and mac: "src_mac st 1 = Some m"
  shows "\<exists>v st' q. tc_egress E fs st p = Some ((v, st'), q)
    \<and> (case decide (nsh_data st key) (\<lambda>sph. fwd_table st (bswap32 sph)) of
         Leave \<Rightarrow> v = TC_ACT_OK \<and> q = ethhdr d m ETH_P_IP @ body
       | Drop_frame \<Rightarrow> v = TC_ACT_SHOT
       | Next_hop a h' \<Rightarrow> v = TC_ACT_OK \<and> q = ethhdr a m ETH_P_NSH @ enc_nsh h' @ p)"
  by (rule egress_decides [OF assms])

theorem egress_refines_decide_witness:
  "\<exists>st'. tc_egress sample_env Map.empty sample_known sample_inner
    = Some ((TC_ACT_OK, st'), ethhdr mac_c mac_b ETH_P_NSH @ enc_nsh (next_nsh sample_nsh) @ sample_inner)"
proof -
  have b: "bswap32 (sph_of sample_nsh - 1) = 0x01010000"
    using sample_next by (simp add: sphkey)
  have "\<exists>v st' q. tc_egress sample_env Map.empty sample_known sample_inner = Some ((v, st'), q)
    \<and> (case decide (nsh_data sample_known sample_key) (\<lambda>sph. fwd_table sample_known (bswap32 sph)) of
         Leave \<Rightarrow> v = TC_ACT_OK \<and> q = ethhdr mac_c mac_b ETH_P_IP @ sample_udp
       | Drop_frame \<Rightarrow> v = TC_ACT_SHOT
       | Next_hop a h' \<Rightarrow> v = TC_ACT_OK \<and> q = ethhdr a mac_b ETH_P_NSH @ enc_nsh h' @ sample_inner)"
    by (rule egress_refines_decide [OF _ _ sample_inner_def sample_tuple])
       (simp_all add: sample_helpers sample_room)
  then show ?thesis by (simp add: sample_more b)
qed

end
