(* ===== verification/SfcClassifier.thy ===== *)
theory SfcClassifier
  imports CbHelpers
begin

text \<open>
  \<^verbatim>\<open>src/kernel/sfc_classifier_kern.c\<close>: the entry of a chain. \<open>classify_tc\<close> looks the flow of
  a frame up in \<open>cls_table\<close> and, when there is a rule, puts an outer Ethernet header and an
  NSH in front of it. The file compiles to an XDP or to a TC program (\<^verbatim>\<open>#ifdef XDP\<close>); the build
  is the argument \<open>b\<close>.
\<close>

datatype cls_build = XDP | TC

primrec RET_OK :: "cls_build \<Rightarrow> int" where
  "RET_OK XDP = XDP_PASS"
| "RET_OK TC = TC_ACT_OK"

primrec RET_TX :: "cls_build \<Rightarrow> int" where
  "RET_TX XDP = XDP_TX"
| "RET_TX TC = TC_ACT_OK"

primrec RET_DROP :: "cls_build \<Rightarrow> int" where
  "RET_DROP XDP = XDP_DROP"
| "RET_DROP TC = TC_ACT_SHOT"

record cls_state = prog_state +
  cls_table :: "ip_5tuple \<rightharpoonup> cls_entry"
  cls_src_mac :: "u32 \<rightharpoonup> mac"

definition cls_table_decl :: bpf_elf_map where
  "cls_table_decl = MAP BPF_MAP_TYPE_HASH 13 10 2048 PIN_GLOBAL_NS"

definition cls_set_src_mac :: "(u32 \<rightharpoonup> mac) \<Rightarrow> bytes \<Rightarrow> nat \<Rightarrow> (int \<times> bytes) option" where
  "cls_set_src_mac macs p eth =
     (case macs 1 of
        None \<Rightarrow> Some (-1, p)
      | Some smac \<Rightarrow> do { p \<leftarrow> st_h_source p eth smac; Some (0, p) })"

text \<open>\<open>classify_tc\<close> from the second bounds check on: the new outer header and the NSH are
  written into the room that was made.\<close>

definition classify_fill ::
  "cls_build \<Rightarrow> 'e bpf_env_scheme \<Rightarrow> 's cls_state_scheme \<Rightarrow> bytes \<Rightarrow> cls_entry \<Rightarrow> u16 \<Rightarrow> 's cls_state_scheme run" where
  "classify_fill b E s data cls prev_proto =
     (if 2 * sizeof_ethhdr + 24 > length data then Some (cb_retother E s (RET_OK b), data)
      else let oeth = 0; nsh = oeth + sizeof_ethhdr; ieth = nsh + 24 in do {
        data \<leftarrow> (case b of XDP \<Rightarrow> Some data
                         | TC \<Rightarrow> do { ethhdr \<leftarrow> ld_bytes data oeth sizeof_ethhdr;
                                      st_bytes data ieth ethhdr });
        data \<leftarrow> st_h_proto data oeth (bswap16 ETH_P_NSH);
        data \<leftarrow> st_h_proto data ieth prev_proto;
        (ret, data) \<leftarrow> cls_set_src_mac (cls_src_mac s) data oeth;
        if ret \<noteq> 0 then Some (cb_retother E s (RET_DROP b), data)
        else do {
          data \<leftarrow> st_h_dest data oeth (next_hop cls);
          data \<leftarrow> st16 data nsh (bswap16 (0 OR NSH_TTL_DEFAULT OR NSH_BASE_LENGHT_MD_TYPE_2));
          data \<leftarrow> st8 data (nsh + 2) NSH_MD_TYPE_2;
          data \<leftarrow> st8 data (nsh + 3) NSH_NEXT_PROTO_ETHER;
          data \<leftarrow> st32 data (nsh + 4) (cls_sph cls);
          Some (cb_retok E s (RET_TX b), data)
        }
      })"

text \<open>The part of \<open>classify_tc\<close> after the lookup has found \<open>cls\<close>.\<close>

definition classify_push ::
  "cls_build \<Rightarrow> 'e bpf_env_scheme \<Rightarrow> 's cls_state_scheme \<Rightarrow> bytes \<Rightarrow> cls_entry \<Rightarrow> 's cls_state_scheme run" where
  "classify_push b E s data cls = do {
     prev_proto \<leftarrow> ld_h_proto data 0;
     let encapsz = sizeof_ethhdr + 24;
     let (ret, data) = (case b of XDP \<Rightarrow> xdp_adjust_head E data (- int encapsz)
                                | TC \<Rightarrow> skb_adjust_room E data (int encapsz));
     if ret < 0 then Some (cb_retother E s (RET_DROP b), data)
     else classify_fill b E s data cls prev_proto
   }"

definition classify_tc ::
  "cls_build \<Rightarrow> 'e bpf_env_scheme \<Rightarrow> 's cls_state_scheme \<Rightarrow> bytes \<Rightarrow> 's cls_state_scheme run" where
  "classify_tc b E s data =
     (let s = cb_mark_init E s in
      if sizeof_ethhdr + sizeof_iphdr > length data then Some (cb_retother E s (RET_OK b), data)
      else do {
        eth_proto \<leftarrow> ld_h_proto data 0;
        if bswap16 eth_proto \<noteq> ETH_P_IP then Some (cb_retother E s (RET_OK b), data)
        else do {
          (ret, key) \<leftarrow> get_tuple data sizeof_ethhdr zero_tuple;
          if ret < 0 then Some (cb_retother E s (RET_OK b), data)
          else case cls_table s key of
            None \<Rightarrow> do {
              (ret, data) \<leftarrow> cls_set_src_mac (cls_src_mac s) data 0;
              if ret \<noteq> 0 then Some (cb_retother E s (RET_DROP b), data)
              else Some (cb_retother E s (RET_OK b), data)
            }
          | Some cls \<Rightarrow> classify_push b E s data cls
        }
      })"

section \<open>Every access is in bounds\<close>

lemma in_bounds_cls_set_src_mac [inb]:
  "eth + 12 \<le> length p \<Longrightarrow> (\<And>rc q. length q = length p \<Longrightarrow> in_bounds (f (rc, q)))
    \<Longrightarrow> in_bounds (cls_set_src_mac macs p eth \<bind> f)"
  by (auto simp: cls_set_src_mac_def st_obj_in split: option.split)

lemma classify_fill_in_bounds: "in_bounds (classify_fill b E s p cls pr)"
  by (cases b) (auto simp: classify_fill_def Let_def intro!: inb)

lemma classify_push_in_bounds: "34 \<le> length p \<Longrightarrow> in_bounds (classify_push b E s p cls)"
  by (auto simp: classify_push_def Let_def intro!: inb classify_fill_in_bounds split: prod.split)

lemma classify_tc_in_bounds: "in_bounds (classify_tc b E s p)"
  by (auto simp: classify_tc_def Let_def intro!: inb classify_push_in_bounds split: option.split)

section \<open>What the classifier does to a frame\<close>

lemma cls_mark_init_fields [simp]:
  "cls_table (cb_mark_init E s) = cls_table s" "cls_src_mac (cb_mark_init E s) = cls_src_mac s"
  by (simp_all add: cb_mark_init_def Let_def split: option.split)

lemma cls_ret_fields [simp]:
  "cls_table (snd (cb_retok E s c)) = cls_table s" "cls_table (snd (cb_retother E s c)) = cls_table s"
  "cls_src_mac (snd (cb_retok E s c)) = cls_src_mac s" "cls_src_mac (snd (cb_retother E s c)) = cls_src_mac s"
  by (simp_all add: cb_retok_def cb_retother_def Let_def split: option.split)

lemma cls_set_src_mac_frame:
  "cls_set_src_mac macs (ethhdr d s p @ rest) 0 =
     (case macs 1 of None \<Rightarrow> Some (-1, ethhdr d s p @ rest)
      | Some m \<Rightarrow> Some (0, ethhdr d m p @ rest))"
  using ethhdr_set_source by (simp add: cls_set_src_mac_def split: option.split)

text \<open>The NSH the classifier builds: only the first 8 of its 24 bytes are written, the context
  words \<open>c\<close> are what was in the room before.\<close>

definition cls_nsh :: "cls_entry \<Rightarrow> u32 \<times> u32 \<times> u32 \<times> u32 \<Rightarrow> nshhdr_md1" where
  "cls_nsh cls c = \<lparr>basic_info = bswap16 (NSH_TTL_DEFAULT OR NSH_BASE_LENGHT_MD_TYPE_2),
     md_type = NSH_MD_TYPE_2, next_proto = NSH_NEXT_PROTO_ETHER, serv_path = cls_sph cls,
     nsh_context = c\<rparr>"

lemma classify_fill_frame:
  assumes e: "length e = 14" and r: "length r = 24"
    and tc: "b = TC \<Longrightarrow> e = ethhdr d s p" and xdp: "b = XDP \<Longrightarrow> i = ethhdr d s p"
    and i: "length i = 14"
  shows "classify_fill b E st (e @ r @ i @ rest) cls (bswap16 p) =
    (case cls_src_mac st 1 of
       None \<Rightarrow> Some (cb_retother E st (RET_DROP b),
         ethhdr (dec_mac (take 6 e)) (dec_mac (take 6 (drop 6 e))) ETH_P_NSH @ r @ ethhdr d s p @ rest)
     | Some m \<Rightarrow> Some (cb_retok E st (RET_TX b),
         ethhdr (next_hop cls) m ETH_P_NSH @ enc_nsh (cls_nsh cls (dec_ctx (drop 8 r))) @ ethhdr d s p @ rest))"
proof -
  let ?m = "enc_mac d @ enc_mac s"
  obtain d' s' p' where e': "e = ethhdr d' s' p'" using ethhdr_split [OF e] by blast
  obtain h where r': "r = enc_nsh h" using nshc.enc_dec [OF r] by metis
  have copy: "(case b of XDP \<Rightarrow> Some (e @ r @ i @ rest)
      | TC \<Rightarrow> do { h \<leftarrow> ld_bytes (e @ r @ i @ rest) 0 14; st_bytes (e @ r @ i @ rest) (0 + 14 + 24) h })
      = Some (e @ r @ ethhdr d s p @ rest)"
  proof (cases b)
    case TC
    have "st_bytes (e @ r @ i @ rest) 38 e = Some (e @ r @ e @ rest)"
      using st_bytes_append [of 38 "e @ r" e i rest] e r i by simp
    with tc TC e show ?thesis by simp
  qed (simp add: xdp)
  have proto: "st16 (ethhdr d' s' p' @ enc_nsh h @ ethhdr d s p @ rest) 50 (bswap16 p)
      = Some (ethhdr d' s' p' @ enc_nsh h @ ethhdr d s p @ rest)" for d' s' p'
    using u16c.st_append [of 50 "ethhdr d' s' p' @ enc_nsh h @ ?m" "enc16 (bswap16 p)" rest "bswap16 p"]
    by (simp add: ethhdr_def)
  have p0: "st16 (ethhdr d' s' p' @ rest') 12 (bswap16 q) = Some (ethhdr d' s' q @ rest')" for d' s' p' q rest'
    using ethhdr_set_proto [of d' s' p' rest' q] by simp
  have ctx: "h\<lparr>basic_info := x, md_type := y, next_proto := z, serv_path := w\<rparr> =
      \<lparr>basic_info = x, md_type = y, next_proto = z, serv_path = w, nsh_context = nsh_context h\<rparr>" for x y z w
    by simp
  show ?thesis
    unfolding classify_fill_def Let_def copy
    by (simp add: e' r' i p0 proto cls_set_src_mac_frame ethhdr_set nsh_set cls_nsh_def ctx
        split: option.split)
qed

text \<open>
  The room as the two hooks make it: 38 bytes \<open>r\<close> in front of the frame for XDP, after the
  Ethernet header for TC. The context words of the NSH are bytes 22 to 37 (XDP) or 8 to 23 (TC)
  of the room.
\<close>

fun room_context :: "cls_build \<Rightarrow> bytes \<Rightarrow> u32 \<times> u32 \<times> u32 \<times> u32" where
  "room_context XDP r = dec_ctx (drop 22 r)"
| "room_context TC r = dec_ctx (take 16 (drop 8 r))"

fun makes_room :: "cls_build \<Rightarrow> 'e bpf_env_scheme \<Rightarrow> bytes \<Rightarrow> bytes \<Rightarrow> bool" where
  "makes_room XDP E p r = (length r = 38 \<and> xdp_adjust_head E p (-38) = (0, r @ p))"
| "makes_room TC E p r = (length r = 38 \<and> skb_adjust_room E p 38 = (0, take 14 p @ r @ drop 14 p))"

lemma classify_push_frame:
  assumes "makes_room b E (ethhdr d s p @ rest) r"
  shows "\<exists>e. classify_push b E st (ethhdr d s p @ rest) cls =
    (case cls_src_mac st 1 of
       None \<Rightarrow> Some (cb_retother E st (RET_DROP b), e)
     | Some m \<Rightarrow> Some (cb_retok E st (RET_TX b),
         ethhdr (next_hop cls) m ETH_P_NSH @ enc_nsh (cls_nsh cls (room_context b r)) @ ethhdr d s p @ rest))"
proof (cases b)
  case XDP
  define e q where "e = take 14 r" and "q = drop 14 r"
  have r: "r = e @ q" "length e = 14" "length q = 24" using assms XDP by (simp_all add: e_def q_def)
  show ?thesis
    using assms XDP classify_fill_frame [of e q XDP d s p "ethhdr d s p" E st rest cls] r
    by (simp add: classify_push_def Let_def split: option.split)
next
  case TC
  define q i where "q = take 24 r" and "i = drop 24 r"
  have r: "r = q @ i" "length q = 24" "length i = 14" using assms TC by (simp_all add: q_def i_def)
  show ?thesis
    using assms TC classify_fill_frame [of "ethhdr d s p" q TC d s p i E st rest cls] r
    by (simp add: classify_push_def Let_def split: option.split)
qed

lemma classify_tc_flow:
  assumes key: "get_tuple p 14 zero_tuple = Some (0, key)" and p: "p = ethhdr d s ETH_P_IP @ body"
  shows "classify_tc b E st p =
    (let st' = cb_mark_init E st in
     case cls_table st key of
       Some cls \<Rightarrow> classify_push b E st' p cls
     | None \<Rightarrow> (case cls_src_mac st 1 of
         None \<Rightarrow> Some (cb_retother E st' (RET_DROP b), p)
       | Some m \<Rightarrow> Some (cb_retother E st' (RET_OK b), ethhdr d m ETH_P_IP @ body)))"
proof -
  have "20 \<le> length body" using key by (auto simp: p elim!: get_tuple_cases dest: get_tuple_l4_in)
  then show ?thesis using key
    by (simp add: p classify_tc_def Let_def cls_set_src_mac_frame split: option.split)
qed

end
