(* ===== verification/Route.thy ===== *)
theory Route
  imports Prelude
begin

text \<open>
  A frame on its way through a list of nodes. The locale \<open>route\<close> is what a chain relies on: the next
  node takes a frame that is right for the nodes ahead, and passes on one that is right for those
  after it. It follows that the frame passes all of them.
\<close>

fun through :: "('n \<Rightarrow> bytes \<Rightarrow> bytes option) \<Rightarrow> 'n list \<Rightarrow> bytes \<Rightarrow> bytes option" where
  "through hop [] f = Some f"
| "through hop (n # ns) f = hop n f \<bind> through hop ns"

locale route =
  fixes hop :: "'n \<Rightarrow> bytes \<Rightarrow> bytes option" and carries :: "'n list \<Rightarrow> bytes \<Rightarrow> bool"
  assumes passes: "carries (n # ns) f \<Longrightarrow> \<exists>g. hop n f = Some g \<and> carries ns g"
begin

lemma passes_prefix: "carries (ns @ ms) f \<Longrightarrow> \<exists>g. through hop ns f = Some g \<and> carries ms g"
proof (induction ns arbitrary: f)
  case (Cons n ns)
  then obtain g where "hop n f = Some g" "carries (ns @ ms) g" using passes [of n "ns @ ms" f] by auto
  then show ?case using Cons.IH by simp
qed simp

lemma delivers: "carries ns f \<Longrightarrow> \<exists>g. through hop ns f = Some g \<and> carries [] g"
  using passes_prefix [of ns "[]"] by simp

end

end
