(* ===== verification/ServiceChain.thy ===== *)
theory ServiceChain
  imports SfcNode SfcClassifier Route
begin

text \<open>
  Frames on their way through a chain: the classifier, then service function nodes one after
  the other, each with its own kernel, maps and MAC addresses. A service function is one that
  passes frames on unchanged.
\<close>

section \<open>A node, from its ingress to its egress interface\<close>

definition sf_node ::
  "'e stage_env_scheme \<Rightarrow> 's stage_state_scheme \<Rightarrow> bytes \<Rightarrow> ((u8 \<rightharpoonup> stats) \<times> 's stage_state_scheme) run" where
  "sf_node E s f = do {
     ((v, s'), g) \<leftarrow> decap_nsh E s f;
     if v = XDP_PASS then tc_egress E Map.empty s' g else Some ((v, Map.empty, s'), g)
   }"

text \<open>
  A node in working order: its helpers behave as documented and find room, and the agent has
  configured the MAC addresses of its two interfaces.
\<close>

definition helpers_work :: "'e stage_env_scheme \<Rightarrow> bool" where
  "helpers_work E \<longleftrightarrow>
     xdp_head (xdp_adjust_head E) \<and> map_update (nsh_update E) \<and> skb_room (skb_adjust_room E)
     \<and> (\<forall>p n. n + 14 \<le> length p \<longrightarrow> fst (xdp_adjust_head E p (int n)) = 0)
     \<and> (\<forall>m k v. fst (nsh_update E m k v BPF_ANY) = 0)
     \<and> (\<forall>p. 14 \<le> length p \<longrightarrow> fst (skb_adjust_room E p 38) = 0)"

definition node_at :: "mac \<Rightarrow> mac \<Rightarrow> 'e stage_env_scheme \<Rightarrow> 's stage_state_scheme \<Rightarrow> bool" where
  "node_at mi me E st \<longleftrightarrow>
     helpers_work E \<and> unicast mi \<and> src_mac st 0 = Some mi \<and> src_mac st 1 = Some me"

lemma decap_works:
  assumes w: "helpers_work E" and m: "unicast mi" "src_mac st 0 = Some mi"
    and h: "next_proto h = NSH_NEXT_PROTO_ETHER"
    and inner: "inner = ethhdr d s ETH_P_IP @ body"
    and key: "get_tuple inner 14 zero_tuple = Some (0, key)"
  obtains s' where "decap_nsh E st (ethhdr mi sa ETH_P_NSH @ enc_nsh h @ inner) = Some ((XDP_PASS, s'), inner)"
    "src_mac s' = src_mac st" "nsh_data s' key = Some h" "fwd_table s' = fwd_table st"
proof -
  let ?f = "ethhdr mi sa ETH_P_NSH @ enc_nsh h @ inner"
  let ?s = "(cb_mark_init E st)\<lparr>nsh_data := (nsh_data st)(key \<mapsto> h)\<rparr>"
  from w have w: "xdp_head (xdp_adjust_head E)" "map_update (nsh_update E)"
    "fst (nsh_update E (nsh_data st) key h BPF_ANY) = 0" "fst (xdp_adjust_head E ?f 38) = 0"
    using inner unfolding helpers_work_def by (auto dest: spec [of _ 38] spec [of _ ?f] elim!: allE [of _ 38])
  have "decap_nsh E st ?f = Some (cb_retok E ?s XDP_PASS, inner)"
    by (rule decap_nsh_accepts [where vlan = None and sa = sa, OF w(1,2) m(2,1) h key])
       (use w in \<open>simp_all add: outer_hdr_def\<close>)
  then show thesis using that by (rule_tac retok_obtain [of E ?s XDP_PASS]) auto
qed

lemma egress_works:
  assumes w: "helpers_work E" and m: "src_mac st 1 = Some me"
    and inner: "inner = ethhdr d s ETH_P_IP @ body"
    and key: "get_tuple inner 14 zero_tuple = Some (0, key)"
  shows "\<exists>v st' q. tc_egress E fs st inner = Some ((v, st'), q)
    \<and> (case decide (nsh_data st key) (\<lambda>sph. fwd_table st (bswap32 sph)) of
         Leave \<Rightarrow> v = TC_ACT_OK \<and> q = ethhdr d me ETH_P_IP @ body
       | Drop_frame \<Rightarrow> v = TC_ACT_SHOT
       | Next_hop a h' \<Rightarrow> v = TC_ACT_OK \<and> q = ethhdr a me ETH_P_NSH @ enc_nsh h' @ inner)"
proof -
  from w have "skb_room (skb_adjust_room E)" "fst (skb_adjust_room E inner 38) = 0"
    using inner by (auto simp: helpers_work_def)
  from egress_decides [OF this inner key m] show ?thesis .
qed

lemma sf_node_decides:
  assumes node: "node_at mi me E st"
    and h: "next_proto h = NSH_NEXT_PROTO_ETHER"
    and inner: "inner = ethhdr d s ETH_P_IP @ body"
    and key: "get_tuple inner 14 zero_tuple = Some (0, key)"
  shows "\<exists>v st' q. sf_node E st (ethhdr mi sa ETH_P_NSH @ enc_nsh h @ inner) = Some ((v, st'), q)
    \<and> (case decide (Some h) (\<lambda>sph. fwd_table st (bswap32 sph)) of
         Leave \<Rightarrow> v = TC_ACT_OK \<and> q = ethhdr d me ETH_P_IP @ body
       | Drop_frame \<Rightarrow> v = TC_ACT_SHOT
       | Next_hop a h' \<Rightarrow> v = TC_ACT_OK \<and> q = ethhdr a me ETH_P_NSH @ enc_nsh h' @ inner)"
proof -
  from node have w: "helpers_work E" and m: "unicast mi" "src_mac st 0 = Some mi" "src_mac st 1 = Some me"
    by (simp_all add: node_at_def)
  obtain s' where run: "decap_nsh E st (ethhdr mi sa ETH_P_NSH @ enc_nsh h @ inner) = Some ((XDP_PASS, s'), inner)"
    and f: "src_mac s' = src_mac st" "nsh_data s' key = Some h" "fwd_table s' = fwd_table st"
    by (rule decap_works [OF w m(1,2) h inner key])
  show ?thesis
    using egress_works [OF w _ inner key, of s' me Map.empty] m(3) f by (simp add: sf_node_def run)
qed

section \<open>A frame crossing several nodes\<close>

text \<open>
  \<open>on_chain f n g\<close>: the frame \<open>f\<close>, after \<open>n\<close> nodes in working order it was addressed to,
  is the NSH frame \<open>g\<close>.
\<close>

inductive on_chain :: "bytes \<Rightarrow> nat \<Rightarrow> bytes \<Rightarrow> bool" for f where
  start: "on_chain f 0 f"
| node: "on_chain f n g \<Longrightarrow> node_at mi me (E :: stage_env) (st :: stage_state) \<Longrightarrow> ld_h_dest g 0 = Some mi
    \<Longrightarrow> sf_node E st g = Some ((TC_ACT_OK, r), g')
    \<Longrightarrow> ld_h_proto g' 0 = Some (bswap16 ETH_P_NSH) \<Longrightarrow> on_chain f (Suc n) g'"

inductive_cases on_chain_SucE: "on_chain f (Suc n) g"

lemma si_le: "unat (si h) \<le> 255"
proof -
  have "unat (si h) = unat (sph_of h) mod 256"
    by (simp add: si_def and_low_byte unat_low)
  then show ?thesis by simp
qed

lemma si_next_unat: "si h \<noteq> 0 \<Longrightarrow> unat (si (next_nsh h)) = unat (si h) - 1"
  by (simp add: si_next unat_minus_one)

lemma eth_fields:
  "ld_obj 6 dec_mac (ethhdr d s p @ r) 0 = Some d" "ld16 (ethhdr d s p @ r) 12 = Some (bswap16 p)"
  by (simp_all add: ethhdr_def)

lemma on_chain_frame:
  assumes "on_chain (ethhdr d0 s0 ETH_P_NSH @ enc_nsh h @ inner) n g"
    and "next_proto h = NSH_NEXT_PROTO_ETHER"
    and inner: "inner = ethhdr d s ETH_P_IP @ body"
    and key: "get_tuple inner 14 zero_tuple = Some (0, key)"
  shows "\<exists>d' s' h'. g = ethhdr d' s' ETH_P_NSH @ enc_nsh h' @ inner \<and> next_proto h' = NSH_NEXT_PROTO_ETHER
    \<and> spi h' = spi h \<and> unat (si h') + n = unat (si h)"
  using assms(1,2)
proof (induction rule: on_chain.induct)
  case start
  then show ?case by auto
next
  case (node n g mi me E st r g')
  then obtain d' s' h' where g: "g = ethhdr d' s' ETH_P_NSH @ enc_nsh h' @ inner"
    and np: "next_proto h' = NSH_NEXT_PROTO_ETHER"
    and h': "spi h' = spi h" "unat (si h') + n = unat (si h)" by auto
  have "d' = mi" using node.hyps(3) by (simp add: g eth_fields)
  obtain v st' q where run: "sf_node E st g = Some ((v, st'), q)"
    and dec: "case decide (Some h') (\<lambda>sph. fwd_table st (bswap32 sph)) of
         Leave \<Rightarrow> v = TC_ACT_OK \<and> q = ethhdr d me ETH_P_IP @ body
       | Drop_frame \<Rightarrow> v = TC_ACT_SHOT
       | Next_hop a h' \<Rightarrow> v = TC_ACT_OK \<and> q = ethhdr a me ETH_P_NSH @ enc_nsh h' @ inner"
    using sf_node_decides [OF node.hyps(2) np inner key, of s'] g \<open>d' = mi\<close> by metis
  have v: "v = TC_ACT_OK" and q: "q = g'" using run node.hyps(4) by simp_all
  have "ETH_P_IP \<noteq> ETH_P_NSH" "TC_ACT_OK \<noteq> TC_ACT_SHOT" by (simp_all add: proto_defs verdict_defs)
  then obtain a where nz: "si h' \<noteq> 0" and g': "g' = ethhdr a me ETH_P_NSH @ enc_nsh (next_nsh h') @ inner"
    using dec node.hyps(5) unfolding v q by (auto simp: eth_fields split: if_splits option.splits)
  have "unat (si h') \<noteq> 0" using nz by (simp add: unat_eq_0)
  then show ?case
    using g' np h' nz by (auto simp: si_next_unat spi_next intro!: exI)
qed

text \<open>
  A list of nodes for the header \<open>h\<close>: each but the last has a rule for the next service path
  header whose next hop is the ingress address of the node after it, and the last has the
  end-of-chain rule.
\<close>

type_synonym node = "mac \<times> mac \<times> stage_env \<times> stage_state"

fun rules_for :: "nshhdr_md1 \<Rightarrow> node list \<Rightarrow> bool" where
  "rules_for h [] = False"
| "rules_for h [(mi, me, E, st)] =
     (node_at mi me E st \<and> si h \<noteq> 0 \<and>
      (case fwd_table st (serv_path (next_nsh h)) of None \<Rightarrow> False | Some r \<Rightarrow> flags r AND 1 \<noteq> 0))"
| "rules_for h ((mi, me, E, st) # n # ns) =
     (node_at mi me E st \<and> si h \<noteq> 0 \<and>
      (case fwd_table st (serv_path (next_nsh h)) of None \<Rightarrow> False
       | Some r \<Rightarrow> flags r AND 1 = 0 \<and> address r = fst n) \<and>
      rules_for (next_nsh h) (n # ns))"

definition hop :: "node \<Rightarrow> bytes \<Rightarrow> bytes option" where
  "hop n f = (case n of (mi, me, E, st) \<Rightarrow> do {
     ((v, r), g) \<leftarrow> sf_node E st f;
     if v = TC_ACT_OK then Some g else None
   })"

abbreviation travel :: "node list \<Rightarrow> bytes \<Rightarrow> bytes option" where
  "travel \<equiv> through hop"

text \<open>The frame ahead of the nodes \<open>ns\<close>, for an inner frame to \<open>d\<close> that will leave from \<open>me\<close>; behind
  the last node it is plain again.\<close>

definition under_way :: "mac \<Rightarrow> mac \<Rightarrow> bytes \<Rightarrow> node list \<Rightarrow> bytes \<Rightarrow> bool" where
  "under_way d me body ns f = (if ns = [] then f = ethhdr d me ETH_P_IP @ body
     else fst (snd (last ns)) = me \<and> (\<exists>s key sa h.
       f = ethhdr (fst (hd ns)) sa ETH_P_NSH @ enc_nsh h @ ethhdr d s ETH_P_IP @ body
       \<and> get_tuple (ethhdr d s ETH_P_IP @ body) 14 zero_tuple = Some (0, key)
       \<and> rules_for h ns \<and> next_proto h = NSH_NEXT_PROTO_ETHER))"

lemma hop_under_way:
  assumes "under_way d me body (n # ns) f"
  shows "\<exists>g. hop n f = Some g \<and> under_way d me body ns g"
proof -
  obtain mi m E st where n: "n = (mi, m, E, st)" by (cases n) auto
  obtain s key sa h where f: "f = ethhdr mi sa ETH_P_NSH @ enc_nsh h @ ethhdr d s ETH_P_IP @ body"
    and key: "get_tuple (ethhdr d s ETH_P_IP @ body) 14 zero_tuple = Some (0, key)"
    and h: "rules_for h (n # ns)" "next_proto h = NSH_NEXT_PROTO_ETHER" and me: "fst (snd (last (n # ns))) = me"
    using assms by (auto simp: under_way_def n)
  have "node_at mi m E st" using h(1) by (cases ns) (simp_all add: n)
  note run = sf_node_decides [OF this h(2) refl key, of sa]
  show ?thesis
  proof (cases ns)
    case Nil
    then show ?thesis using run h me by (auto simp: n hop_def f under_way_def sphkey split: option.splits)
  next
    case (Cons n' ns')
    then have "hop n f = Some (ethhdr (fst n') m ETH_P_NSH @ enc_nsh (next_nsh h) @ ethhdr d s ETH_P_IP @ body)"
      using run h by (auto simp: n hop_def f sphkey split: option.splits)
    moreover have "rules_for (next_nsh h) ns" "fst (snd (last ns)) = me"
      using h(1) me Cons by (simp_all add: n)
    ultimately show ?thesis using Cons key h(2) next_proto_next [of h]
      unfolding under_way_def by (metis list.discI list.sel(1))
  qed
qed

interpretation chain: route hop "under_way d me body" for d me body
  by unfold_locales (rule hop_under_way)

lemma travel_rules:
  assumes "rules_for h ns" and "next_proto h = NSH_NEXT_PROTO_ETHER"
    and "inner = ethhdr d s ETH_P_IP @ body" and "get_tuple inner 14 zero_tuple = Some (0, key)"
  shows "travel ns (ethhdr (fst (hd ns)) sa ETH_P_NSH @ enc_nsh h @ inner)
    = Some (ethhdr d (fst (snd (last ns))) ETH_P_IP @ body)"
proof -
  have "ns \<noteq> []" using assms(1) by auto
  then have "under_way d (fst (snd (last ns))) body ns (ethhdr (fst (hd ns)) sa ETH_P_NSH @ enc_nsh h @ inner)"
    using assms unfolding under_way_def by auto
  from chain.delivers [OF this] show ?thesis by (simp add: under_way_def)
qed

section \<open>Samples\<close>

lemma sample_env_works: "helpers_work sample_env"
  unfolding helpers_work_def
  by (auto simp: sample_helpers xdp_head_plain_def skb_room_zero_def upd_roomy_def BPF_ANY_def BPF_NOEXIST_def)

definition sample_cls :: cls_entry where
  "sample_cls = \<lparr>cls_sph = 0x02010000, next_hop = mac_a\<rparr>"

definition sample_cls_state :: cls_state where
  "sample_cls_state = \<lparr>prog_stats = Map.empty, cls_table = [sample_key \<mapsto> sample_cls],
     cls_src_mac = [0 \<mapsto> mac_b, 1 \<mapsto> mac_b]\<rparr>"

definition sample_room38 :: bytes where
  "sample_room38 = replicate 38 0xEE"

lemma sample_makes_room: "makes_room XDP sample_env sample_inner sample_room38"
  by (simp add: sample_room38_def xdp_head_plain_def)

definition sample_last :: stage_state where
  "sample_last = \<lparr>prog_stats = Map.empty, src_mac = [0 \<mapsto> mac_c, 1 \<mapsto> mac_b],
     nsh_data = Map.empty, fwd_table = [0x00010000 \<mapsto> \<lparr>flags = 1, address = mac_c\<rparr>]\<rparr>"

definition sample_nodes :: "node list" where
  "sample_nodes = [(mac_a, mac_b, sample_env, sample_state), (mac_c, mac_b, sample_env, sample_last)]"

lemma sample_next_paths:
  "serv_path (next_nsh (cls_nsh sample_cls c)) = 0x01010000"
  "serv_path (next_nsh (next_nsh (cls_nsh sample_cls c))) = 0x00010000"
  "si (cls_nsh sample_cls c) = 2" "si (next_nsh (cls_nsh sample_cls c)) = 1"
  by (simp_all add: next_nsh_def sph_of_def si_def cls_nsh_def sample_cls_def word_eval)

lemma sample_rules: "rules_for (cls_nsh sample_cls c) sample_nodes"
  by (simp add: sample_nodes_def sample_next_paths sample_env_works node_at_def sample_state_def
      sample_last_def mac_a_def mac_b_def mac_c_def)

lemma classify_sends:
  assumes p: "p = ethhdr d s ETH_P_IP @ body"
    and key: "get_tuple p 14 zero_tuple = Some (0, key)"
    and rule: "cls_table st key = Some cls" and mac: "cls_src_mac st 1 = Some m"
    and room: "makes_room b E p r"
  shows "\<exists>st'. classify_tc b E st p = Some ((RET_TX b, st'),
      ethhdr (next_hop cls) m ETH_P_NSH @ enc_nsh (cls_nsh cls (room_context b r)) @ p)
    \<and> cls_table st' = cls_table st"
proof -
  let ?s = "cb_mark_init E st"
  have "classify_push b E ?s p cls = Some (cb_retok E ?s (RET_TX b),
      ethhdr (next_hop cls) m ETH_P_NSH @ enc_nsh (cls_nsh cls (room_context b r)) @ p)"
    using classify_push_frame [OF room [unfolded p], of ?s cls] mac by (auto simp: p)
  then have "classify_tc b E st p = Some (cb_retok E ?s (RET_TX b),
      ethhdr (next_hop cls) m ETH_P_NSH @ enc_nsh (cls_nsh cls (room_context b r)) @ p)"
    using rule by (simp add: classify_tc_flow [OF key p] Let_def)
  then show ?thesis
    using cls_ret_fields(1) [of E ?s "RET_TX b"] ret_code(1) [of E ?s "RET_TX b"]
    by (cases "cb_retok E ?s (RET_TX b)") simp
qed

section \<open>Properties\<close>

text \<open>C9. The classifier, in both builds: a frame of a flow with a rule comes out unchanged behind
  an Ethernet header to the rule's next hop and an NSH with the rule's service path header; the
  NSH's context words are whatever the room the kernel made contained.\<close>

theorem classify_encapsulates:
  assumes p: "p = ethhdr d s ETH_P_IP @ body"
    and key: "get_tuple p 14 zero_tuple = Some (0, key)"
    and rule: "cls_table st key = Some cls" and mac: "cls_src_mac st 1 = Some m"
    and room: "makes_room b E p r"
  shows "\<exists>st'. classify_tc b E st p = Some ((RET_TX b, st'),
      ethhdr (next_hop cls) m ETH_P_NSH @ enc_nsh (cls_nsh cls (room_context b r)) @ p)
    \<and> cls_table st' = cls_table st"
  by (rule classify_sends [OF assms])

text \<open>The XDP build sends the 0xEE bytes of this headroom out in the NSH.\<close>

theorem classify_encapsulates_witness:
  "\<exists>st'. classify_tc XDP sample_env sample_cls_state sample_inner = Some ((XDP_TX, st'),
      ethhdr mac_a mac_b ETH_P_NSH @ enc_nsh (cls_nsh sample_cls (0xEEEEEEEE, 0xEEEEEEEE, 0xEEEEEEEE, 0xEEEEEEEE))
        @ sample_inner)"
proof -
  have ctx: "room_context XDP sample_room38 = (0xEEEEEEEE, 0xEEEEEEEE, 0xEEEEEEEE, 0xEEEEEEEE)"
    by code_simp
  have r: "cls_table sample_cls_state sample_key = Some sample_cls" "cls_src_mac sample_cls_state 1 = Some mac_b"
    by (simp_all add: sample_cls_state_def)
  from classify_encapsulates [OF sample_inner_def sample_tuple r sample_makes_room]
  show ?thesis unfolding ctx by (auto simp: sample_cls_def)
qed

text \<open>C10. A chain is finite: an NSH frame whose next protocol is Ethernet and whose inner frame is an
  IPv4 packet with a flow key, passed on by nodes in working order (their helpers find room, and a
  frame reaches the node it is addressed to), crosses at most as many nodes as its service index says,
  at most 255. At every point of its way the service path identifier is the one it started with, the
  index has gone down by one per node, and the inner frame has not changed.\<close>

theorem chain_is_finite:
  assumes chain: "on_chain (ethhdr d0 s0 ETH_P_NSH @ enc_nsh h @ inner) n g"
    and np: "next_proto h = NSH_NEXT_PROTO_ETHER"
    and inner: "inner = ethhdr d s ETH_P_IP @ body"
    and key: "get_tuple inner 14 zero_tuple = Some (0, key)"
  shows "n \<le> unat (si h) \<and> n \<le> 255
    \<and> (\<exists>d' s' h'. g = ethhdr d' s' ETH_P_NSH @ enc_nsh h' @ inner
        \<and> spi h' = spi h \<and> unat (si h') = unat (si h) - n)"
proof -
  obtain d' s' h' where g: "g = ethhdr d' s' ETH_P_NSH @ enc_nsh h' @ inner"
    and h': "spi h' = spi h" "unat (si h') + n = unat (si h)"
    using on_chain_frame [OF assms] by blast
  then have "n \<le> unat (si h)" by linarith
  moreover have "unat (si h') = unat (si h) - n" using h' by linarith
  ultimately show ?thesis using g h' si_le [of h] by auto
qed

theorem chain_is_finite_witness:
  "\<exists>g. on_chain (ethhdr mac_a mac_b ETH_P_NSH @ enc_nsh (cls_nsh sample_cls (0, 0, 0, 0)) @ sample_inner) 1 g
    \<and> (\<exists>d' s' h'. g = ethhdr d' s' ETH_P_NSH @ enc_nsh h' @ sample_inner \<and> unat (si h') = 1)"
proof -
  let ?h = "cls_nsh sample_cls (0, 0, 0, 0)"
  let ?f = "ethhdr mac_a mac_b ETH_P_NSH @ enc_nsh ?h @ sample_inner"
  have node: "node_at mac_a mac_b sample_env sample_state"
    using sample_rules [of "(0, 0, 0, 0)"] by (simp add: sample_nodes_def)
  have np: "next_proto ?h = NSH_NEXT_PROTO_ETHER" by (simp add: cls_nsh_def)
  have b: "bswap32 (sph_of ?h - 1) = 0x01010000"
    using sample_next_paths(1) [of "(0, 0, 0, 0)"] by (simp add: sphkey)
  obtain st' q where run: "sf_node sample_env sample_state ?f = Some ((TC_ACT_OK, st'), q)"
    and q: "q = ethhdr mac_c mac_b ETH_P_NSH @ enc_nsh (next_nsh ?h) @ sample_inner"
    using sf_node_decides [OF node np sample_inner_def sample_tuple, of mac_b]
    by (auto simp: sample_next_paths b)
  have "on_chain ?f (Suc 0) q"
    by (rule on_chain.node [OF on_chain.start node _ run]) (simp_all add: eth_fields q)
  then have c: "on_chain ?f 1 q" by simp
  from chain_is_finite [OF c np sample_inner_def sample_tuple] c show ?thesis
    by (auto simp: sample_next_paths)
qed

text \<open>C11. A configured chain delivers: if the classifier's rule leads to the first of a list of
  nodes, whose forwarding rules lead from each to the next and end the chain at the last, then
  the frame the classifier sends passes every node and leaves the last one as it came to the
  classifier, but for the source MAC address, which is the last node's.\<close>

theorem chain_delivers:
  assumes p: "p = ethhdr d s ETH_P_IP @ body"
    and key: "get_tuple p 14 zero_tuple = Some (0, key)"
    and rule: "cls_table st key = Some cls" and mac: "cls_src_mac st 1 = Some m"
    and room: "makes_room b E p r"
    and first: "next_hop cls = fst (hd ns)"
    and rules: "rules_for (cls_nsh cls (room_context b r)) ns"
  shows "\<exists>st' f. classify_tc b E st p = Some ((RET_TX b, st'), f)
    \<and> travel ns f = Some (ethhdr d (fst (snd (last ns))) ETH_P_IP @ body)"
proof -
  let ?h = "cls_nsh cls (room_context b r)"
  have "travel ns (ethhdr (next_hop cls) m ETH_P_NSH @ enc_nsh ?h @ p)
      = Some (ethhdr d (fst (snd (last ns))) ETH_P_IP @ body)"
    unfolding first by (rule travel_rules [OF rules _ p key]) (simp add: cls_nsh_def)
  then show ?thesis using classify_sends [OF p key rule mac room] by blast
qed

theorem chain_delivers_witness:
  "\<exists>st' f. classify_tc XDP sample_env sample_cls_state sample_inner = Some ((XDP_TX, st'), f)
    \<and> travel sample_nodes f = Some sample_inner"
proof -
  have r: "cls_table sample_cls_state sample_key = Some sample_cls" "cls_src_mac sample_cls_state 1 = Some mac_b"
    "next_hop sample_cls = fst (hd sample_nodes)"
    by (simp_all add: sample_cls_state_def sample_cls_def sample_nodes_def)
  from chain_delivers [OF sample_inner_def sample_tuple r(1,2) sample_makes_room r(3) sample_rules]
  show ?thesis by (simp add: sample_nodes_def sample_inner_def)
qed

end
