(* ===== verification/KeyStream.thy ===== *)
theory KeyStream
  imports Prelude
begin

text \<open>
  Encryption with a key stream of 64-byte blocks: what a packet program promises about its payload,
  whatever the cipher. A cipher is a function from its context to a block and the step to the next
  context; the laws of the locale \<open>block_stream\<close> are all that the tunnel needs of it. A last block of
  less than 64 bytes is left alone.
\<close>

fun stream_xor_of :: "('c \<Rightarrow> bytes) \<Rightarrow> ('c \<Rightarrow> 'c) \<Rightarrow> nat \<Rightarrow> 'c \<Rightarrow> bytes \<Rightarrow> bytes" where
  "stream_xor_of block step 0 ctx bs = bs"
| "stream_xor_of block step (Suc n) ctx bs =
     (if length bs < 64 then bs
      else map2 (XOR) (take 64 bs) (block ctx) @ stream_xor_of block step n (step ctx) (drop 64 bs))"

text \<open>The key stream of \<open>k\<close> blocks.\<close>

fun key_stream_of :: "('c \<Rightarrow> bytes) \<Rightarrow> ('c \<Rightarrow> 'c) \<Rightarrow> nat \<Rightarrow> 'c \<Rightarrow> bytes" where
  "key_stream_of block step 0 ctx = []"
| "key_stream_of block step (Suc k) ctx = block ctx @ key_stream_of block step k (step ctx)"

lemma map2_xor_self: "length k = length bs \<Longrightarrow> map2 (XOR) (map2 (XOR) bs k) k = bs" for bs :: bytes
  by (induction k bs rule: list_induct2) (simp_all add: xor.assoc)

lemma map2_xor_cancel:
  "length a = length b \<Longrightarrow> map2 (XOR) (map2 (XOR) a k) (map2 (XOR) b k) = map2 (XOR) (take (length k) a) (take (length k) b)"
  for a b k :: bytes
proof (induction a b arbitrary: k rule: list_induct2)
  case (Cons x xs y ys)
  have "(x XOR z) XOR (y XOR z) = x XOR y" for z :: u8
    by (rule bit_word_eqI) (auto simp: bit_simps)
  then show ?case using Cons by (cases k) simp_all
qed simp

lemma whole_blocks: "64 * (n div 64) \<le> n" "min m (n div 64) * 64 \<le> n" for n :: nat
  by simp (meson div_times_less_eq_dividend min.cobounded2 mult_le_mono1 order_trans)

locale block_stream =
  fixes valid :: "'c \<Rightarrow> bool" and block :: "'c \<Rightarrow> bytes" and step :: "'c \<Rightarrow> 'c"
  assumes length_block: "valid ctx \<Longrightarrow> length (block ctx) = 64"
    and valid_step: "valid ctx \<Longrightarrow> valid (step ctx)"
begin

lemma length_key_stream [simp]: "valid ctx \<Longrightarrow> length (key_stream_of block step k ctx) = 64 * k"
  by (induction k arbitrary: ctx) (simp_all add: length_block valid_step)

lemma closed:
  "valid ctx \<Longrightarrow> k = min n (length bs div 64) \<Longrightarrow>
    stream_xor_of block step n ctx bs = map2 (XOR) (take (64 * k) bs) (key_stream_of block step k ctx) @ drop (64 * k) bs"
proof (induction n arbitrary: ctx bs k)
  case (Suc n)
  show ?case
  proof (cases "length bs < 64")
    case False
    define k' where "k' = min n (length (drop 64 bs) div 64)"
    have l: "length bs div 64 = Suc ((length bs - 64) div 64)" using False by (simp add: le_div_geq)
    have k: "k = Suc k'" using Suc.prems(2) l by (simp add: k'_def)
    have t: "take (64 * k) bs = take 64 bs @ take (64 * k') (drop 64 bs)"
      unfolding k by (simp add: take_add)
    have d: "drop (64 * k) bs = drop (64 * k') (drop 64 bs)" unfolding k by (simp add: add.commute)
    have "length (take 64 bs) = length (block ctx)" using False Suc.prems(1) by (simp add: length_block)
    then show ?thesis
      using False Suc.IH [OF _ k'_def, of "step ctx"] Suc.prems(1) unfolding t d
      by (simp add: k zip_append valid_step)
  qed (use Suc in simp)
qed simp

lemma length_xor [simp]: "valid ctx \<Longrightarrow> length (stream_xor_of block step n ctx bs) = length bs"
  using whole_blocks(2) [of n "length bs"]
  by (simp add: closed [OF _ refl] length_key_stream mult.commute)

text \<open>Decryption is encryption.\<close>

lemma twice: "valid ctx \<Longrightarrow> stream_xor_of block step n ctx (stream_xor_of block step n ctx bs) = bs"
proof -
  assume v: "valid ctx"
  define k where "k = min n (length bs div 64)"
  have k: "64 * k \<le> length bs" using whole_blocks(2) [of n "length bs"] by (simp add: k_def mult.commute)
  let ?x = "map2 (XOR) (take (64 * k) bs) (key_stream_of block step k ctx)"
  have x: "length ?x = 64 * k" using k v by (simp add: length_key_stream)
  have 1: "stream_xor_of block step n ctx bs = ?x @ drop (64 * k) bs" by (rule closed [OF v k_def])
  have "k = min n (length (?x @ drop (64 * k) bs) div 64)" using x k by (simp add: k_def)
  from closed [OF v this] show ?thesis
    using x k v unfolding 1 by (simp add: map2_xor_self length_key_stream)
qed

text \<open>Two texts under the same key stream.\<close>

lemma reuse:
  assumes c: "valid ctx" and l: "length a = length b"
  shows "map2 (XOR) (stream_xor_of block step n ctx a) (stream_xor_of block step n ctx b) = map2 (XOR) a b"
proof -
  define k where "k = min n (length a div 64)"
  have k: "64 * k \<le> length a" using whole_blocks(2) [of n "length a"] by (simp add: k_def mult.commute)
  have ab: "stream_xor_of block step n ctx a = map2 (XOR) (take (64 * k) a) (key_stream_of block step k ctx) @ drop (64 * k) a"
    "stream_xor_of block step n ctx b = map2 (XOR) (take (64 * k) b) (key_stream_of block step k ctx) @ drop (64 * k) b"
    using closed [OF c, of k n] l by (simp_all add: k_def)
  have "map2 (XOR) (stream_xor_of block step n ctx a) (stream_xor_of block step n ctx b)
      = map2 (XOR) (take (64 * k) a) (take (64 * k) b) @ map2 (XOR) (drop (64 * k) a) (drop (64 * k) b)"
    using k l c unfolding ab by (simp add: zip_append map2_xor_cancel length_key_stream)
  also have "\<dots> = map2 (XOR) a b"
    by (metis append_take_drop_id length_take l map_append zip_append)
  finally show ?thesis .
qed

end

end
