(* ===== verification/Chacha.thy ===== *)
theory Chacha
  imports CbHelpers KeyStream
begin

text \<open>
  \<^verbatim>\<open>src/functions/chacha/chacha_kern.c\<close>: a service function that encrypts the payload of
  IPv4 packets with ChaCha8 (key and IV all zero) and puts them into an IP-in-IP tunnel. The
  first part is the cipher, on a list of sixteen 32-bit words; the second \<open>parse_ip\<close> and
  \<open>cha\<close>, on the packet.
\<close>

section \<open>The cipher\<close>

record chacha_ctx =
  state :: "u32 list"
  rounds :: u8

definition CHACHA_ROUNDS :: u8 where "CHACHA_ROUNDS = 8"

definition ROTATE :: "u32 \<Rightarrow> nat \<Rightarrow> u32" where
  "ROTATE v c = push_bit c v OR drop_bit (32 - c) v"

definition QUARTERROUND :: "nat \<Rightarrow> nat \<Rightarrow> nat \<Rightarrow> nat \<Rightarrow> u32 list \<Rightarrow> u32 list" where
  "QUARTERROUND a b c d x =
     (let x = x[a := x ! a + x ! b]; x = x[d := ROTATE (x ! d XOR x ! a) 16];
          x = x[c := x ! c + x ! d]; x = x[b := ROTATE (x ! b XOR x ! c) 12];
          x = x[a := x ! a + x ! b]; x = x[d := ROTATE (x ! d XOR x ! a) 8];
          x = x[c := x ! c + x ! d]; x = x[b := ROTATE (x ! b XOR x ! c) 7] in x)"

definition doubleround :: "u32 list \<Rightarrow> u32 list" where
  "doubleround x =
     (let x = QUARTERROUND 0 4 8 12 x;
          x = QUARTERROUND 1 5 9 13 x;
          x = QUARTERROUND 2 6 10 14 x;
          x = QUARTERROUND 3 7 11 15 x;
          x = QUARTERROUND 0 5 10 15 x;
          x = QUARTERROUND 1 6 11 12 x;
          x = QUARTERROUND 2 7 8 13 x;
          x = QUARTERROUND 3 4 9 14 x in x)"

text \<open>The loop \<^verbatim>\<open>for (i = rounds; i > 0; i -= 2)\<close>, and the whole of \<^verbatim>\<open>doublerounds\<close>.\<close>

fun rounds_loop :: "nat \<Rightarrow> u32 list \<Rightarrow> u32 list" where
  "rounds_loop i x = (if i > 0 then rounds_loop (i - 2) (doubleround x) else x)"

declare rounds_loop.simps [simp del]

definition doublerounds :: "u32 list \<Rightarrow> u8 \<Rightarrow> bytes" where
  "doublerounds input nr =
     (let x = rounds_loop (unat nr) input;
          x = map2 (+) x input in concat (map enc32 x))"

text \<open>\<^verbatim>\<open>TAU\<close> is the string "expand 16-byte k".\<close>

definition TAU :: bytes where
  "TAU = [0x65, 0x78, 0x70, 0x61, 0x6E, 0x64, 0x20, 0x31, 0x36, 0x2D, 0x62, 0x79, 0x74, 0x65, 0x20, 0x6B]"

definition U8TO32_LITTLE :: "bytes \<Rightarrow> nat \<Rightarrow> u32" where
  "U8TO32_LITTLE p i = dec32 (take 4 (drop i p))"

definition init_ctx :: "u8 \<Rightarrow> chacha_ctx" where
  "init_ctx r = \<lparr>state = replicate 16 0, rounds = r\<rparr>"

definition init :: "chacha_ctx \<Rightarrow> bytes \<Rightarrow> bytes \<Rightarrow> chacha_ctx" where
  "init x key iv = x\<lparr>state :=
     [U8TO32_LITTLE TAU 0, U8TO32_LITTLE TAU 4, U8TO32_LITTLE TAU 8, U8TO32_LITTLE TAU 12,
      U8TO32_LITTLE key 0, U8TO32_LITTLE key 4, U8TO32_LITTLE key 8, U8TO32_LITTLE key 12,
      U8TO32_LITTLE key 0, U8TO32_LITTLE key 4, U8TO32_LITTLE key 8, U8TO32_LITTLE key 12,
      0, 0, U8TO32_LITTLE iv 0, U8TO32_LITTLE iv 4]\<rparr>"

text \<open>\<open>tick\<close> is the update of the block counter in \<^verbatim>\<open>next\<close>.\<close>

definition tick :: "chacha_ctx \<Rightarrow> chacha_ctx" where
  "tick ctx =
     (let s = (state ctx)[12 := state ctx ! 12 + 1];
          s = (if s ! 12 = 0 then s[13 := s ! 13 + 1] else s) in ctx\<lparr>state := s\<rparr>)"

abbreviation ld64 :: "bytes \<Rightarrow> nat \<Rightarrow> u64 option" where "ld64 \<equiv> ld_obj 8 dec64"
abbreviation st64 :: "bytes \<Rightarrow> nat \<Rightarrow> u64 \<Rightarrow> bytes option" where "st64 \<equiv> st_obj enc64"

text \<open>The eight 64-bit XORs of \<^verbatim>\<open>next\<close>: the loop from \<open>i\<close>, with \<open>n\<close> iterations to go.\<close>

fun xor_lanes :: "bytes \<Rightarrow> nat \<Rightarrow> bytes \<Rightarrow> nat \<Rightarrow> nat \<Rightarrow> bytes option" where
  "xor_lanes data m x i 0 = Some data"
| "xor_lanes data m x i (Suc n) = do {
     a \<leftarrow> ld64 data (m + 8 * i);
     b \<leftarrow> ld64 x (8 * i);
     data \<leftarrow> st64 data (m + 8 * i) (a XOR b);
     xor_lanes data m x (Suc i) n
   }"

definition next_block :: "chacha_ctx \<Rightarrow> bytes \<Rightarrow> nat \<Rightarrow> (chacha_ctx \<times> bytes) option" where
  "next_block ctx data m = do {
     let x = doublerounds (state ctx) (rounds ctx);
     data \<leftarrow> xor_lanes data m x 0 8;
     Some (tick ctx, data)
   }"

text \<open>The loop of \<open>parse_ip\<close> over at most \<open>n\<close> blocks, from offset \<open>pkt\<close> on.\<close>

fun crypt_loop :: "nat \<Rightarrow> chacha_ctx \<Rightarrow> bytes \<Rightarrow> nat \<Rightarrow> bytes option" where
  "crypt_loop 0 ctx data pkt = Some data"
| "crypt_loop (Suc n) ctx data pkt =
     (if pkt + 64 > length data then Some data
      else do {
        (ctx, data) \<leftarrow> next_block ctx data pkt;
        crypt_loop n ctx data (pkt + 64)
      })"

section \<open>What the cipher computes\<close>

text \<open>The specification: XOR with the key stream, block by block, a short last block left alone.\<close>

definition key_block :: "chacha_ctx \<Rightarrow> bytes" where
  "key_block ctx = doublerounds (state ctx) (rounds ctx)"

abbreviation stream_xor :: "nat \<Rightarrow> chacha_ctx \<Rightarrow> bytes \<Rightarrow> bytes" where
  "stream_xor \<equiv> stream_xor_of key_block tick"

abbreviation key_stream :: "nat \<Rightarrow> chacha_ctx \<Rightarrow> bytes" where
  "key_stream \<equiv> key_stream_of key_block tick"

lemma length_QUARTERROUND [simp]: "length (QUARTERROUND a b c d x) = length x"
  by (simp add: QUARTERROUND_def Let_def)

lemma length_doubleround [simp]: "length (doubleround x) = length x"
  by (simp add: doubleround_def Let_def)

lemma length_rounds_loop [simp]: "length (rounds_loop n x) = length x"
  by (induction n x rule: rounds_loop.induct) (subst rounds_loop.simps, simp)

lemma length_concat_enc32: "length (concat (map enc32 x)) = 4 * length x"
  by (induction x) simp_all

lemma length_doublerounds [simp]: "length x = 16 \<Longrightarrow> length (doublerounds x r) = 64"
  by (simp add: doublerounds_def Let_def length_concat_enc32 del: map_map)

lemma length_tick [simp]: "length (state (tick ctx)) = length (state ctx)" "rounds (tick ctx) = rounds ctx"
  by (simp_all add: tick_def Let_def)

interpretation cipher: block_stream "\<lambda>ctx. length (state ctx) = 16" key_block tick
  by unfold_locales (simp_all add: key_block_def)

lemma byte_of_xor: "byte_of k (a XOR b) = byte_of k a XOR byte_of k b"
  by (rule byte_eqI) (simp add: byte_of_def bit_simps)

lemma enc32_xor: "enc32 (a XOR b) = map2 (XOR) (enc32 a) (enc32 b)"
  by (simp add: enc32_def byte_of_xor)

lemma ucast32_xor: "ucast (a XOR b :: u64) = (ucast a XOR ucast b :: u32)"
  by (rule bit_word_eqI) (simp add: bit_simps)

lemma enc64_xor: "enc64 (a XOR b) = map2 (XOR) (enc64 a) (enc64 b)"
  by (simp add: enc64_def ucast32_xor enc32_xor zip_append drop_bit_xor)

lemma xor_lanes_bytes:
  assumes "length blk = 8 * n" and "length x = 8 * (i + n)" and "length pre = m + 8 * i"
  shows "xor_lanes (pre @ blk @ post) m x i n = Some (pre @ map2 (XOR) blk (drop (8 * i) x) @ post)"
  using assms
proof (induction n arbitrary: pre blk i)
  case (Suc n)
  define a b where "a = take 8 blk" and "b = drop 8 blk"
  define y z where "y = take 8 (drop (8 * i) x)" and "z = drop (8 * Suc i) x"
  have blk: "blk = a @ b" "length a = 8" "length b = 8 * n" using Suc.prems by (simp_all add: a_def b_def)
  have "z = drop 8 (drop (8 * i) x)" by (simp add: z_def)
  then have x: "drop (8 * i) x = y @ z" by (simp only: y_def append_take_drop_id)
  have y: "length y = 8" using Suc.prems by (simp add: y_def)
  have l: "ld64 (pre @ a @ b @ post) (m + 8 * i) = Some (dec64 a)"
    by (rule ld_append) (simp_all only: Suc.prems(3) blk(2))
  have k: "ld64 x (8 * i) = Some (dec64 y)"
    using Suc.prems by (simp add: y_def)
  have s: "st64 (pre @ a @ b @ post) (m + 8 * i) (dec64 a XOR dec64 y)
      = Some (pre @ map2 (XOR) a y @ b @ post)"
    using u64c.st_append [of "m + 8 * i" pre a "b @ post" "dec64 a XOR dec64 y"]
    by (simp only: Suc.prems(3) blk(2) y enc64_xor enc64_dec64)
  have "xor_lanes ((pre @ map2 (XOR) a y) @ b @ post) m x (Suc i) n
      = Some ((pre @ map2 (XOR) a y) @ map2 (XOR) b z @ post)"
    unfolding z_def by (rule Suc.IH) (use Suc.prems blk(2,3) y in \<open>simp_all add: add.commute\<close>)
  then show ?case
    using blk(2) y by (simp add: blk(1) x l k s zip_append)
qed simp

lemma next_block_bytes:
  assumes "length (state ctx) = 16" and "length blk = 64"
  shows "next_block ctx (pre @ blk @ post) (length pre)
    = Some (tick ctx, pre @ map2 (XOR) blk (key_block ctx) @ post)"
  using assms xor_lanes_bytes [of blk 8 "key_block ctx" 0 pre "length pre" post]
  by (simp add: next_block_def key_block_def)

lemma crypt_loop_stream:
  "length (state ctx) = 16 \<Longrightarrow> crypt_loop n ctx (pre @ bs) (length pre) = Some (pre @ stream_xor n ctx bs)"
proof (induction n arbitrary: ctx pre bs)
  case (Suc n)
  show ?case
  proof (cases "length bs < 64")
    case False
    define blk post where "blk = take 64 bs" and "post = drop 64 bs"
    have bs: "bs = blk @ post" "length blk = 64" using False by (simp_all add: blk_def post_def)
    have k: "length (map2 (XOR) blk (key_block ctx)) = 64" using bs Suc.prems by (simp add: key_block_def)
    have "crypt_loop n (tick ctx) ((pre @ map2 (XOR) blk (key_block ctx)) @ post)
          (length (pre @ map2 (XOR) blk (key_block ctx)))
        = Some ((pre @ map2 (XOR) blk (key_block ctx)) @ stream_xor n (tick ctx) post)"
      by (rule Suc.IH) (simp add: Suc.prems)
    with k show ?thesis
      using bs Suc.prems by (simp add: next_block_bytes)
  qed simp
qed simp

end
