(* ===== verification/ChachaTunnel.thy ===== *)
theory ChachaTunnel
  imports Chacha
begin

text \<open>
  The packet side of \<^verbatim>\<open>src/functions/chacha/chacha_kern.c\<close>: \<open>parse_ip\<close> finds the payload, makes
  room for an outer IPv4 header, writes it with its checksum, and encrypts the payload in place;
  \<open>cha\<close> is the program.
\<close>

section \<open>The IPv4 header as a struct\<close>

record iphdr =
  ver_ihl :: u8
  tos :: u8
  tot_len :: u16
  ip_id :: u16
  frag_off :: u16
  ttl :: u8
  ip_proto :: u8
  ip_check :: u16
  ip_saddr :: u32
  ip_daddr :: u32

definition enc_iphdr :: "iphdr \<Rightarrow> bytes" where
  "enc_iphdr h = [ver_ihl h, tos h] @ enc16 (tot_len h) @ enc16 (ip_id h) @ enc16 (frag_off h) @
     [ttl h, ip_proto h] @ enc16 (ip_check h) @ enc32 (ip_saddr h) @ enc32 (ip_daddr h)"

lemma length_enc_iphdr [simp]: "length (enc_iphdr h) = 20"
  by (simp add: enc_iphdr_def)

section \<open>The checksum loop\<close>

fun csum_loop :: "bytes \<Rightarrow> nat \<Rightarrow> nat \<Rightarrow> u32 \<Rightarrow> u32 option" where
  "csum_loop hdr i 0 csum = Some csum"
| "csum_loop hdr i (Suc n) csum = do {
     w \<leftarrow> ld16 hdr (2 * i);
     csum_loop hdr (Suc i) n (csum + ucast w)
   }"

definition csum_fold :: "u32 \<Rightarrow> u16" where
  "csum_fold csum = ucast (NOT ((csum AND 0xffff) + drop_bit 16 csum))"

section \<open>The program\<close>

record chacha_state =
  chacha_egress :: "int \<rightharpoonup> int"

definition IP_FRAGMENTED :: u16 where "IP_FRAGMENTED = 65343"
definition ICMP_ECHO :: u8 where "ICMP_ECHO = 8"
abbreviation (input) sizeof_timeval :: nat where "sizeof_timeval \<equiv> 16"

definition parse_transport :: "bytes \<Rightarrow> nat \<Rightarrow> bool" where
  "parse_transport data off = (off + sizeof_udphdr \<le> length data)"

text \<open>Where the payload starts: \<open>Inr\<close> the offset, or \<open>Inl\<close> the verdict of an early return.\<close>

definition l4_payload :: "bytes \<Rightarrow> nat \<Rightarrow> u8 \<Rightarrow> (int + nat) option" where
  "l4_payload data nf_off ip_protocol =
     (if ip_protocol = IPPROTO_TCP then
        (if \<not> parse_transport data nf_off then Some (Inl TC_ACT_SHOT)
         else Some (Inr (nf_off + sizeof_tcphdr)))
      else if ip_protocol = IPPROTO_UDP then
        (if \<not> parse_transport data nf_off then Some (Inl TC_ACT_SHOT)
         else Some (Inr (nf_off + sizeof_udphdr)))
      else if ip_protocol = IPPROTO_ICMP then
        (if nf_off + sizeof_icmphdr > length data then Some (Inl TC_ACT_SHOT)
         else do {
           type \<leftarrow> ld_icmp_type data nf_off;
           let nf_off = nf_off + sizeof_icmphdr;
           if type = ICMP_ECHO then
             (if nf_off + sizeof_timeval > length data then Some (Inl TC_ACT_SHOT)
              else Some (Inr (nf_off + sizeof_timeval)))
           else Some (Inr nf_off)
         })
      else Some (Inl TC_ACT_OK))"

text \<open>The outer header: \<open>iph_tnl\<close> before and after its checksum is set.\<close>

definition iph_tnl :: "u16 \<Rightarrow> u32 \<Rightarrow> u32 \<Rightarrow> iphdr" where
  "iph_tnl payload_len saddr daddr =
     \<lparr>ver_ihl = 0x45, tos = 0, tot_len = bswap16 (payload_len + 20), ip_id = 0, frag_off = 0, ttl = 8,
      ip_proto = IPPROTO_IPIP, ip_check = 0, ip_saddr = saddr, ip_daddr = daddr\<rparr>"

definition checksummed :: "iphdr \<Rightarrow> iphdr option" where
  "checksummed h = do {
     csum \<leftarrow> csum_loop (enc_iphdr h) 0 10 0;
     Some (h\<lparr>ip_check := csum_fold csum\<rparr>)
   }"

definition t_key :: bytes where "t_key = replicate 32 0"
definition t_iv :: bytes where "t_iv = replicate 8 0"

definition cha_ctx :: chacha_ctx where
  "cha_ctx = init (init_ctx CHACHA_ROUNDS) t_key t_iv"

text \<open>\<open>parse_ip\<close> from the call that makes room on.\<close>

definition encap_crypt ::
  "'e bpf_env_scheme \<Rightarrow> 's chacha_state_scheme \<Rightarrow> bytes \<Rightarrow> nat \<Rightarrow> u16 \<Rightarrow> (int \<times> bytes) option" where
  "encap_crypt E s data nf_off payload_len =
     (let (ret, data) = skb_adjust_room E data (int sizeof_iphdr) in
      if ret \<noteq> 0 then Some (TC_ACT_SHOT, data)
      else if nf_off + sizeof_iphdr > length data then Some (TC_ACT_SHOT, data)
      else let nf_off = nf_off + sizeof_iphdr;
               outer_iph = sizeof_ethhdr; inner_iph = sizeof_ethhdr + sizeof_iphdr in
      if sizeof_ethhdr > length data \<or> outer_iph + sizeof_iphdr > length data
         \<or> inner_iph + sizeof_iphdr > length data then Some (TC_ACT_SHOT, data)
      else do {
        daddr \<leftarrow> ld_daddr data inner_iph;
        saddr \<leftarrow> ld_saddr data inner_iph;
        iph \<leftarrow> checksummed (iph_tnl payload_len saddr daddr);
        data \<leftarrow> st_obj enc_iphdr data outer_iph iph;
        data \<leftarrow> crypt_loop 24 cha_ctx data nf_off;
        case chacha_egress s 0 of
          None \<Rightarrow> Some (TC_ACT_SHOT, data)
        | Some tx_port \<Rightarrow> Some (redirect E tx_port 0, data)
      })"

definition parse_ip ::
  "'e bpf_env_scheme \<Rightarrow> 's chacha_state_scheme \<Rightarrow> bytes \<Rightarrow> nat \<Rightarrow> (int \<times> bytes) option" where
  "parse_ip E s data nf_off =
     (if nf_off + sizeof_iphdr > length data then Some (TC_ACT_SHOT, data)
      else do {
        ver_ihl \<leftarrow> ld_ver_ihl data nf_off;
        if ver_ihl AND 0x0F \<noteq> 5 then Some (TC_ACT_SHOT, data)
        else do {
          payload_len \<leftarrow> ld_tot_len data nf_off;
          ip_protocol \<leftarrow> ld_protocol data nf_off;
          frag_off \<leftarrow> ld_frag_off data nf_off;
          if frag_off AND IP_FRAGMENTED \<noteq> 0 then Some (TC_ACT_SHOT, data)
          else do {
            r \<leftarrow> l4_payload data (nf_off + sizeof_iphdr) ip_protocol;
            case r of
              Inl verdict \<Rightarrow> Some (verdict, data)
            | Inr nf_off \<Rightarrow> encap_crypt E s data nf_off (bswap16 payload_len)
          }
        }
      })"

definition cha :: "'e bpf_env_scheme \<Rightarrow> 's chacha_state_scheme \<Rightarrow> bytes \<Rightarrow> (int \<times> bytes) option" where
  "cha E s data =
     (if sizeof_ethhdr > length data then Some (TC_ACT_OK, data)
      else do {
        eth_proto \<leftarrow> ld_h_proto data 0;
        if eth_proto = bswap16 ETH_P_IP then parse_ip E s data sizeof_ethhdr
        else Some (TC_ACT_OK, data)
      })"

section \<open>Every access is in bounds\<close>

lemma csum_loop_in: "2 * (i + n) \<le> length hdr \<Longrightarrow> \<exists>c'. csum_loop hdr i n c = Some c'"
  by (induction n arbitrary: i c) auto

lemma in_bounds_checksummed [inb]: "in_bounds (checksummed h)"
  using csum_loop_in [of 0 10 "enc_iphdr h" 0] by (auto simp: checksummed_def)

lemma length_cha_ctx [simp]: "length (state cha_ctx) = 16"
  by (simp add: cha_ctx_def init_def)

lemma crypt_loop_at:
  assumes "m \<le> length p"
  shows "crypt_loop n cha_ctx p m = Some (take m p @ stream_xor n cha_ctx (drop m p))"
  using crypt_loop_stream [of cha_ctx n "take m p" "drop m p"] assms by simp

lemma in_bounds_crypt_loop [inb]:
  "m \<le> length p \<Longrightarrow> (\<And>q. length q = length p \<Longrightarrow> in_bounds (f q)) \<Longrightarrow> in_bounds (crypt_loop n cha_ctx p m \<bind> f)"
  by (simp add: crypt_loop_at)

lemma in_bounds_l4_payload [inb]: "in_bounds (l4_payload p off pr)"
  by (auto simp: l4_payload_def Let_def intro!: inb)

lemma encap_crypt_in_bounds: "in_bounds (encap_crypt E s p off len)"
  by (auto simp: encap_crypt_def Let_def intro!: inb split: prod.split option.split)

lemma cha_in_bounds: "in_bounds (cha E s p)"
  by (auto simp: cha_def parse_ip_def intro!: inb encap_crypt_in_bounds split: sum.split)

section \<open>What the program does to a packet\<close>

lemma encap_crypt_frame:
  assumes room: "skb_room (skb_adjust_room E)" and rc: "fst (skb_adjust_room E (e @ body) 20) = 0"
    and e: "length e = 14" and nf: "14 \<le> nf" "nf \<le> length (e @ body)" "20 \<le> length body"
    and hdr: "checksummed (iph_tnl len (dec32 (take 4 (drop 12 body))) (dec32 (take 4 (drop 16 body)))) = Some h"
  shows "encap_crypt E s (e @ body) nf len =
     Some (case chacha_egress s 0 of None \<Rightarrow> TC_ACT_SHOT | Some port \<Rightarrow> redirect E port 0,
           e @ enc_iphdr h @ take (nf - 14) body @ stream_xor 24 cha_ctx (drop (nf - 14) body))"
proof -
  obtain r where r: "length r = 20" and ar: "skb_adjust_room E (e @ body) 20 = (0, e @ r @ body)"
    using skb_room.room_success [OF room, of "e @ body" 20] rc e by auto
  have st: "st_obj enc_iphdr (e @ r @ body) 14 h = Some (e @ enc_iphdr h @ body)"
    using r e by (simp add: st_obj_in)
  have cr: "crypt_loop 24 cha_ctx (e @ enc_iphdr h @ body) (nf + 20) =
      Some (e @ enc_iphdr h @ take (nf - 14) body @ stream_xor 24 cha_ctx (drop (nf - 14) body))"
    using e nf by (subst crypt_loop_at) simp_all
  show ?thesis
    using e nf r hdr by (simp add: encap_crypt_def ar st cr Let_def split: option.split)
qed

end
