(* ===== verification/RemoveIpip.thy ===== *)
theory RemoveIpip
  imports ChachaTunnel
begin

text \<open>
  \<^verbatim>\<open>src/kernel/remove-ipip.c\<close>: an XDP program that takes the outer header off IP-in-IP packets
  and answers pings, and the properties of the encrypting function of \<open>ChachaTunnel\<close> that need
  both ends of the tunnel.
\<close>

section \<open>The program\<close>

definition ICMP_ECHOREPLY :: u8 where "ICMP_ECHOREPLY = 0"

definition ripip_set_src_mac :: "bytes \<Rightarrow> nat \<Rightarrow> bytes option" where
  "ripip_set_src_mac p eth = do {
     p \<leftarrow> st_h_source p eth (Mac 0xaa 0xbb 0xcc 0xdd 0xee 0xff);
     st_h_dest p eth (Mac 0x00 0x15 0x4d 0x13 0x81 0x7f)
   }"

text \<open>\<open>decap_ipip\<close> after the outer header is gone.\<close>

definition ping_reply :: "bytes \<Rightarrow> (int \<times> bytes) option" where
  "ping_reply data =
     (let eth = 0; ip = sizeof_ethhdr in
      if sizeof_ethhdr > length data then Some (XDP_PASS, data)
      else if ip + sizeof_iphdr > length data then Some (XDP_PASS, data)
      else do {
        protocol \<leftarrow> ld_protocol data ip;
        if protocol \<noteq> IPPROTO_ICMP then Some (XDP_PASS, data)
        else let icmp = ip + sizeof_iphdr in
        if icmp + sizeof_icmphdr > length data then Some (XDP_PASS, data)
        else do {
          type \<leftarrow> ld_icmp_type data icmp;
          if type \<noteq> ICMP_ECHO then Some (XDP_PASS, data)
          else do {
            data \<leftarrow> ripip_set_src_mac data eth;
            data \<leftarrow> st_icmp_type data icmp ICMP_ECHOREPLY;
            aux \<leftarrow> ld_saddr data ip;
            daddr \<leftarrow> ld_daddr data ip;
            data \<leftarrow> st_saddr data ip daddr;
            data \<leftarrow> st_daddr data ip aux;
            data \<leftarrow> st_icmp_checksum data icmp 0;
            Some (XDP_TX, data)
          }
        }
      })"

definition decap_ipip :: "'e bpf_env_scheme \<Rightarrow> bytes \<Rightarrow> (int \<times> bytes) option" where
  "decap_ipip E data =
     (if sizeof_ethhdr > length data then Some (XDP_PASS, data)
      else do {
        proto \<leftarrow> ld_h_proto data 0;
        if bswap16 proto \<noteq> ETH_P_IP then Some (XDP_PASS, data)
        else let ip = sizeof_ethhdr; offset = sizeof_ethhdr + sizeof_iphdr in
        if ip + sizeof_iphdr > length data then Some (XDP_PASS, data)
        else do {
          protocol \<leftarrow> ld_protocol data ip;
          if protocol \<noteq> IPPROTO_IPIP then Some (XDP_PASS, data)
          else do {
            eth \<leftarrow> ld_bytes data 0 sizeof_ethhdr;
            data \<leftarrow> st_bytes data (offset - sizeof_ethhdr) eth;
            let (ret, data) = xdp_adjust_head E data (int sizeof_iphdr);
            if ret \<noteq> 0 then Some (XDP_DROP, data) else ping_reply data
          }
        }
      })"

section \<open>Every access is in bounds\<close>

lemma in_bounds_ripip_set_src_mac [inb]:
  "eth + 12 \<le> length p \<Longrightarrow> (\<And>q. length q = length p \<Longrightarrow> in_bounds (f q))
    \<Longrightarrow> in_bounds (ripip_set_src_mac p eth \<bind> f)"
  by (simp add: ripip_set_src_mac_def st_obj_in)

lemma in_bounds_st_only [inb]: "i + length (enc x) \<le> length p \<Longrightarrow> in_bounds (st_obj enc p i x)"
  by (simp add: in_bounds_def st_obj_in)

lemma ping_reply_in_bounds: "in_bounds (ping_reply p)"
  by (auto simp: ping_reply_def Let_def intro!: inb)

lemma decap_ipip_in_bounds: "in_bounds (decap_ipip E p)"
  by (auto simp: decap_ipip_def Let_def intro!: inb ping_reply_in_bounds split: prod.split)

section \<open>What the program does to a packet\<close>

lemma decap_ipip_strips:
  assumes head: "xdp_head (xdp_adjust_head E)"
    and rc: "\<And>p. 34 \<le> length p \<Longrightarrow> fst (xdp_adjust_head E p 20) = 0"
    and outer: "length outer = 20" "outer ! 9 = IPPROTO_IPIP"
  shows "decap_ipip E (ethhdr d s ETH_P_IP @ outer @ inner) = ping_reply (ethhdr d s ETH_P_IP @ inner)"
proof -
  let ?e = "ethhdr d s ETH_P_IP" and ?r = "ethhdr d s ETH_P_IP @ take 6 outer"
  have ld: "dec8 (take (Suc 0) (drop 9 outer)) = outer ! 9"
    using outer by (simp add: dec8_def)
  have sp: "?e @ outer @ inner = ?r @ drop 6 outer @ inner" by simp
  have st: "st_bytes (?e @ outer @ inner) 20 ?e = Some (?r @ ?e @ inner)"
    unfolding sp using st_bytes_append [of 20 ?r ?e "drop 6 outer" inner] outer by simp
  have "fst (xdp_adjust_head E (?r @ ?e @ inner) (int 20)) = 0"
    using rc [of "?r @ ?e @ inner"] outer by simp
  from this xdp_head.head_drop [OF head this]
  have ah: "xdp_adjust_head E (?r @ ?e @ inner) 20 = (0, ?e @ inner)"
    using outer by (simp add: prod_eq_iff)
  show ?thesis
    using outer st ah by (simp add: decap_ipip_def Let_def ld)
qed

lemma ping_reply_frame:
  assumes pre: "length pre = 12" "pre ! 9 = IPPROTO_ICMP" and ck: "length ck = 2" and rest: "4 \<le> length rest"
  shows "ping_reply (ethhdr d s ETH_P_IP @ pre @ enc32 sa @ enc32 da @ [ICMP_ECHO, c] @ ck @ rest) =
    Some (XDP_TX, ethhdr (Mac 0x00 0x15 0x4d 0x13 0x81 0x7f) (Mac 0xaa 0xbb 0xcc 0xdd 0xee 0xff) ETH_P_IP
       @ pre @ enc32 da @ enc32 sa @ [ICMP_ECHOREPLY, c] @ enc16 0 @ rest)"
proof -
  let ?e = "ethhdr d s ETH_P_IP"
  let ?e' = "ethhdr (Mac 0x00 0x15 0x4d 0x13 0x81 0x7f) (Mac 0xaa 0xbb 0xcc 0xdd 0xee 0xff) ETH_P_IP"
  have b: "dec8 (take (Suc 0) (drop 9 pre)) = IPPROTO_ICMP" "dec8 [x] = x" for x
    using pre by (simp_all add: dec8_def)
  have mac: "ripip_set_src_mac (?e @ r) 0 = Some (?e' @ r)" for r
    using ethhdr_set by (simp add: ripip_set_src_mac_def)
  have t: "st8 (?e' @ pre @ enc32 sa @ enc32 da @ ICMP_ECHO # c # ck @ rest) 34 ICMP_ECHOREPLY
      = Some (?e' @ pre @ enc32 sa @ enc32 da @ ICMP_ECHOREPLY # c # ck @ rest)"
    using pre by (simp add: st_obj_in enc8_def)
  have ip: "ld32 (?e' @ pre @ enc32 a @ r) 26 = Some a"
    "ld32 (?e' @ pre @ enc32 a @ enc32 b @ r) 30 = Some b"
    "st32 (?e' @ pre @ enc32 a @ r) 26 x = Some (?e' @ pre @ enc32 x @ r)"
    "st32 (?e' @ pre @ enc32 a @ enc32 b @ r) 30 x = Some (?e' @ pre @ enc32 a @ enc32 x @ r)" for a b x r
    using pre by (simp_all add: st_obj_in)
  have k: "st16 (?e' @ pre @ enc32 da @ enc32 sa @ ICMP_ECHOREPLY # c # ck @ rest) 36 0
      = Some (?e' @ pre @ enc32 da @ enc32 sa @ ICMP_ECHOREPLY # c # enc16 0 @ rest)"
    using pre ck by (simp add: st_obj_in)
  show ?thesis
    using pre ck rest unfolding ping_reply_def Let_def
    by (simp add: b mac t ip k)
qed

end
