(* ===== verification/ChachaReference.thy ===== *)
theory ChachaReference
  imports Chacha
begin

text \<open>
  ChaCha with a 128-bit key, as its specification has it and apart from the code: the state is a
  matrix of four rows, a round applies the quarter round to the columns, and the second round of
  each pair does so after the rows have been rotated, i.e. on the diagonals. The lemmas relate it
  to the program's sixteen numbered words, for every key, initialisation vector and block number.
\<close>

section \<open>The reference\<close>

type_synonym column = "u32 \<times> u32 \<times> u32 \<times> u32"
type_synonym matrix = "u32 list \<times> u32 list \<times> u32 list \<times> u32 list"

definition quarter_round :: "column \<Rightarrow> column" where
  "quarter_round = (\<lambda>(a, b, c, d).
     let a = a + b; d = word_rotl 16 (d XOR a); c = c + d; b = word_rotl 12 (b XOR c);
         a = a + b; d = word_rotl 8 (d XOR a); c = c + d; b = word_rotl 7 (b XOR c) in (a, b, c, d))"

definition columns_round :: "matrix \<Rightarrow> matrix" where
  "columns_round = (\<lambda>(as, bs, cs, ds).
     let qs = map quarter_round (zip as (zip bs (zip cs ds)))
     in (map fst qs, map (fst \<circ> snd) qs, map (fst \<circ> snd \<circ> snd) qs, map (snd \<circ> snd \<circ> snd) qs))"

definition rotate_rows :: "nat \<Rightarrow> nat \<Rightarrow> nat \<Rightarrow> matrix \<Rightarrow> matrix" where
  "rotate_rows i j k = (\<lambda>(as, bs, cs, ds). (as, rotate i bs, rotate j cs, rotate k ds))"

definition double_round :: "matrix \<Rightarrow> matrix" where
  "double_round m = rotate_rows 3 2 1 (columns_round (rotate_rows 1 2 3 (columns_round m)))"

definition row_words :: "bytes \<Rightarrow> u32 list" where
  "row_words bs = map (\<lambda>i. dec32 (take 4 (drop (4 * i) bs))) [0..<length bs div 4]"

text \<open>"expa", "nd 1", "6-by", "te k" as numbers; the 128-bit key twice; the block number in two
  words, the lower half first; the initialisation vector.\<close>

definition start_matrix :: "bytes \<Rightarrow> bytes \<Rightarrow> u64 \<Rightarrow> matrix" where
  "start_matrix key iv j =
     ([0x61707865, 0x3120646e, 0x79622d36, 0x6b206574], row_words key, row_words key,
      [ucast j, ucast (drop_bit 32 j)] @ row_words iv)"

definition row_list :: "matrix \<Rightarrow> u32 list" where
  "row_list = (\<lambda>(as, bs, cs, ds). as @ bs @ cs @ ds)"

definition chacha_block :: "nat \<Rightarrow> bytes \<Rightarrow> bytes \<Rightarrow> u64 \<Rightarrow> bytes" where
  "chacha_block r key iv j =
     concat (map enc32 (map2 (+) (row_list ((double_round ^^ (r div 2)) (start_matrix key iv j)))
       (row_list (start_matrix key iv j))))"

section \<open>The rounds\<close>

definition four_rows :: "matrix \<Rightarrow> bool" where
  "four_rows = (\<lambda>(as, bs, cs, ds). length as = 4 \<and> length bs = 4 \<and> length cs = 4 \<and> length ds = 4)"

lemma list_of_four: "length xs = 4 \<Longrightarrow> \<exists>a b c d. xs = [a, b, c, d]"
  by (auto simp: numeral_eq_Suc length_Suc_conv)

lemma four_rows_cases:
  assumes "four_rows m"
  obtains a0 a1 a2 a3 b0 b1 b2 b3 c0 c1 c2 c3 d0 d1 d2 d3
  where "m = ([a0, a1, a2, a3], [b0, b1, b2, b3], [c0, c1, c2, c3], [d0, d1, d2, d3])"
  using assms by (cases m) (auto simp: four_rows_def dest!: list_of_four)

lemma ROTATE_rotl:
  assumes "0 < c" and "c < 32"
  shows "ROTATE v c = word_rotl c v"
proof (rule bit_word_eqI)
  fix n assume "n < LENGTH(32)"
  then have n: "n < 32" by simp
  show "bit (ROTATE v c) n = bit (word_rotl c v) n"
  proof (cases "c \<le> n")
    case True
    then have "(n + 32 - c) mod 32 = n - c" "\<not> 32 - c + n < 32"
      using n assms by (simp_all add: mod_if)
    then show ?thesis using True n assms by (auto simp: ROTATE_def bit_simps dest: bit_imp_le_length)
  next
    case False
    moreover have "n + 32 - c = 32 - c + n" using assms by simp
    ultimately show ?thesis using n assms by (simp add: ROTATE_def bit_simps del: Suc_eq_plus1)
  qed
qed

text \<open>The order of writes to different places does not matter, a second write to a place wins.\<close>

lemma eight_writes:
  assumes "a < length x" "b < length x" "c < length x" "d < length x" and "distinct [a, b, c, d]"
  shows "x[a := a1, d := d1, c := c1, b := b1, a := a2, d := d2, c := c2, b := b2]
    = x[a := a2, b := b2, c := c2, d := d2]"
  using assms by (intro nth_equalityI) (auto simp: nth_list_update)

lemma QUARTERROUND_words:
  assumes "a < length x" "b < length x" "c < length x" "d < length x" and "distinct [a, b, c, d]"
  shows "QUARTERROUND a b c d x =
    (let (p, q, r, s) = quarter_round (x ! a, x ! b, x ! c, x ! d) in x[a := p, b := q, c := r, d := s])"
  using assms eight_writes [OF assms] by (simp add: QUARTERROUND_def quarter_round_def ROTATE_rotl Let_def)

lemma doubleround_rows:
  assumes "four_rows m"
  shows "doubleround (row_list m) = row_list (double_round m)"
proof -
  obtain a0 a1 a2 a3 b0 b1 b2 b3 c0 c1 c2 c3 d0 d1 d2 d3
    where m: "m = ([a0, a1, a2, a3], [b0, b1, b2, b3], [c0, c1, c2, c3], [d0, d1, d2, d3])"
    using assms by (rule four_rows_cases)
  show ?thesis
    unfolding m doubleround_def Let_def
    by (simp add: QUARTERROUND_words row_list_def double_round_def columns_round_def rotate_rows_def
      case_prod_beta' Let_def numeral_eq_Suc)
qed

lemma four_double_round: "four_rows m \<Longrightarrow> four_rows (double_round m)"
  by (cases m) (simp add: four_rows_def double_round_def columns_round_def rotate_rows_def Let_def)

lemma rounds_loop_rows:
  "four_rows m \<Longrightarrow> rounds_loop (2 * n) (row_list m) = row_list ((double_round ^^ n) m)"
proof (induction n arbitrary: m)
  case 0
  then show ?case by (simp add: rounds_loop.simps [of 0])
next
  case (Suc n)
  then show ?case
    by (simp add: rounds_loop.simps [of "Suc (Suc (2 * n))"] doubleround_rows four_double_round funpow_swap1)
qed

section \<open>The start and the block counter\<close>

definition block_ctx :: "bytes \<Rightarrow> bytes \<Rightarrow> u64 \<Rightarrow> chacha_ctx" where
  "block_ctx key iv j = \<lparr>state = row_list (start_matrix key iv j), rounds = CHACHA_ROUNDS\<rparr>"

lemma four_start: "length key = 16 \<Longrightarrow> length iv = 8 \<Longrightarrow> four_rows (start_matrix key iv j)"
  by (simp add: four_rows_def start_matrix_def row_words_def)

lemma key_block_ctx:
  "length key = 16 \<Longrightarrow> length iv = 8 \<Longrightarrow> key_block (block_ctx key iv j) = chacha_block 8 key iv j"
  using rounds_loop_rows [OF four_start, of key iv 4 j]
  by (simp add: key_block_def block_ctx_def doublerounds_def chacha_block_def CHACHA_ROUNDS_def Let_def)

lemma init_block_ctx:
  assumes "length key = 16" and "length iv = 8"
  shows "init (init_ctx CHACHA_ROUNDS) (key @ rest) iv = block_ctx key iv 0"
proof -
  have "U8TO32_LITTLE TAU 0 = 0x61707865" "U8TO32_LITTLE TAU 4 = 0x3120646e"
    "U8TO32_LITTLE TAU 8 = 0x79622d36" "U8TO32_LITTLE TAU 12 = 0x6b206574" by code_simp+
  moreover have "[0..<4] = [0, 1, 2, 3::nat]" "[0..<2] = [0, 1::nat]" by code_simp+
  ultimately show ?thesis using assms
    by (simp add: init_def init_ctx_def block_ctx_def start_matrix_def row_words_def row_list_def U8TO32_LITTLE_def)
qed

lemma u64_halves:
  fixes j :: u64
  shows "ucast (j + 1) = (ucast j + 1 :: u32)"
    and "ucast (drop_bit 32 (j + 1)) =
      (if ucast j + 1 = (0 :: u32) then ucast (drop_bit 32 j) + 1 else ucast (drop_bit 32 j) :: u32)"
proof -
  define q r where "q = unat j div 2 ^ 32" and "r = unat j mod 2 ^ 32"
  have qr: "unat j = q * 2 ^ 32 + r" "r < 2 ^ 32" "q < 2 ^ 32"
    using unsigned_less [of j, where ?'a = nat] by (simp_all add: q_def r_def less_mult_imp_div_less)
  have lo: "unat (ucast j :: u32) = r" by (simp add: unsigned_ucast_eq r_def take_bit_eq_mod)
  have hi: "unat (ucast (drop_bit 32 k) :: u32) = unat k div 2 ^ 32" for k :: u64
    using unsigned_less [of k, where ?'a = nat]
    by (simp only: unsigned_ucast_eq unat_drop_bit_eq take_bit_eq_mod) (simp add: drop_bit_eq_div less_mult_imp_div_less)
  show 1: "ucast (j + 1) = (ucast j + 1 :: u32)"
    by (rule word_unat_eq_iff [THEN iffD2]) (simp add: unsigned_ucast_eq unat_word_ariths take_bit_eq_mod mod_mod_cancel mod_simps)
  have carry: "ucast j + 1 = (0 :: u32) \<longleftrightarrow> r + 1 = 2 ^ 32"
    using qr(2) by (simp add: word_unat_eq_iff unat_word_ariths lo mod_if)
  show "ucast (drop_bit 32 (j + 1)) =
      (if ucast j + 1 = (0 :: u32) then ucast (drop_bit 32 j) + 1 else ucast (drop_bit 32 j) :: u32)"
    unfolding word_unat_eq_iff [of "ucast (drop_bit 32 (j + 1))"] hi if_distrib [of unat] carry
    using qr by (auto simp: hi unat_word_ariths mod_if)
qed

lemma tick_block_ctx:
  assumes "length key = 16" and "length iv = 8"
  shows "tick (block_ctx key iv j) = block_ctx key iv (j + 1)"
  using four_start [OF assms, of j]
  by (auto simp: tick_def block_ctx_def start_matrix_def row_list_def four_rows_def u64_halves Let_def nth_append list_update_append
    dest!: list_of_four)

lemma key_stream_blocks:
  assumes "length key = 16" and "length iv = 8"
  shows "key_stream n (block_ctx key iv j) = concat (map (\<lambda>i. chacha_block 8 key iv (j + of_nat i)) [0..<n])"
proof (induction n arbitrary: j)
  case (Suc n)
  have "[0..<Suc n] = 0 # map Suc [0..<n]" by (simp add: map_Suc_upt upt_conv_Cons)
  then show ?case
    using Suc by (simp add: key_block_ctx [OF assms] tick_block_ctx [OF assms] comp_def add.assoc)
qed simp

end
