(* ===== verification/EncryptionTunnel.thy ===== *)
theory EncryptionTunnel
  imports RemoveIpip SfcNode ChachaReference
begin

text \<open>
  The properties of the encrypting service function and of the program that ends its tunnel:
  the cipher of \<open>Chacha\<close>, the packet program of \<open>ChachaTunnel\<close> and \<open>decap_ipip\<close> of
  \<open>RemoveIpip\<close>.
\<close>

section \<open>The header checksum\<close>

text \<open>All words of a header but the checksum, summed up.\<close>

lemma csum_header:
  obtains A where "\<And>k. csum_loop (enc_iphdr (h\<lparr>ip_check := k\<rparr>)) 0 10 0 = Some (A + ucast k)"
    and "unat A \<le> 9 * 65535"
proof -
  let ?w = "\<lambda>i. ucast (dec16 (take 2 (drop (2 * i) (enc_iphdr h)))) :: u32"
  let ?A = "?w 0 + ?w 1 + ?w 2 + ?w 3 + ?w 4 + ?w 6 + ?w 7 + ?w 8 + ?w 9"
  have w: "unat (?w i) \<le> 65535" for i
    by (simp add: unat_u16_le)
  have add: "unat (a + b) \<le> m + 65535" if "unat a \<le> m" "unat b \<le> 65535" for a b :: u32 and m
    using that mod_less_eq_dividend [of "unat a + unat b" "2 ^ 32"] by (simp add: unat_word_ariths)
  have "unat ?A \<le> 65535 + 65535 + 65535 + 65535 + 65535 + 65535 + 65535 + 65535 + 65535"
    by (intro add w)
  moreover have "csum_loop (enc_iphdr (h\<lparr>ip_check := k\<rparr>)) 0 10 0 = Some (?A + ucast k)" for k
    by (simp add: numeral_eq_Suc enc_iphdr_def add.assoc add.left_commute add.commute)
  ultimately show thesis using that by simp
qed

text \<open>The fold of the program, as numbers: one's complement of the 32-bit sum folded once.\<close>

lemma csum_fold_unat:
  assumes "unat c < 2 ^ 20"
  shows "unat (csum_fold c) = 65535 - (unat c mod 65536 + unat c div 65536) mod 65536"
  using assms
  by (simp add: csum_fold_def ucast_not unat_not_u16 unat_u32_u16 unat_add_small unat_low16 unat_high16)

text \<open>A receiver accepts a header when its one's complement sum is zero, i.e. the plain sum of
  its words is a positive multiple of 65535.\<close>

lemma checksummed_valid:
  assumes "checksummed h = Some h'" and "ip_check h = 0"
  shows "\<exists>c c'. csum_loop (enc_iphdr h) 0 10 0 = Some c \<and> csum_loop (enc_iphdr h') 0 10 0 = Some c'
    \<and> (unat c' mod 65535 = 0) = (unat c mod 65536 + unat c div 65536 < 65536)"
proof -
  obtain A where A: "\<And>k. csum_loop (enc_iphdr (h\<lparr>ip_check := k\<rparr>)) 0 10 0 = Some (A + ucast k)"
    and small: "unat A \<le> 9 * 65535"
    by (rule csum_header [of h]) blast
  have "h\<lparr>ip_check := 0\<rparr> = h" using assms(2) by simp
  with A [of 0] have c: "csum_loop (enc_iphdr h) 0 10 0 = Some A" by simp
  with assms(1) have h': "h' = h\<lparr>ip_check := csum_fold A\<rparr>" by (simp add: checksummed_def)
  define q r where "q = unat A div 65536" and "r = unat A mod 65536"
  have qr: "unat A = 65536 * q + r" "r < 65536" "q \<le> 8" using small by (auto simp: q_def r_def)
  have k: "unat (csum_fold A) = 65535 - (r + q) mod 65536"
    using small by (simp add: csum_fold_unat q_def r_def)
  have c': "unat (A + ucast (csum_fold A)) = unat A + unat (csum_fold A)"
    using small unat_u16_le [of "csum_fold A"] by (subst unat_add_small) simp_all
  have "(unat (A + ucast (csum_fold A)) mod 65535 = 0) = (r + q < 65536)"
  proof (cases "r + q < 65536")
    case True
    then have "unat (A + ucast (csum_fold A)) = 65535 * (q + 1)" using qr by (simp add: c' k)
    with True show ?thesis by (simp only: mod_mult_self1_is_0) simp
  next
    case False
    then have "(r + q) mod 65536 = r + q - 65536" using qr by (simp add: mod_if)
    then have "unat (A + ucast (csum_fold A)) = 1 + 65535 * (q + 2)" using qr False by (simp add: c' k)
    then show ?thesis using False by (simp only: mod_mult_self2) simp
  qed
  with A [of "csum_fold A"] c h' show ?thesis by (simp add: q_def r_def)
qed

section \<open>The tunnel\<close>

text \<open>What \<open>cha\<close> does to an IPv4 packet it accepts.\<close>

lemma cha_frame:
  assumes room: "skb_room (skb_adjust_room E)"
    and p: "p = ethhdr d s ETH_P_IP @ body" and len: "20 \<le> length body"
    and rc: "fst (skb_adjust_room E p 20) = 0"
    and ihl: "dec8 (take 1 body) AND 0x0F = 5"
    and frag: "dec16 (take 2 (drop 6 body)) AND IP_FRAGMENTED = 0"
    and l4: "l4_payload p 34 (dec8 (take 1 (drop 9 body))) = Some (Inr nf)" "nf \<le> length p"
  shows "\<exists>h. checksummed (iph_tnl (bswap16 (dec16 (take 2 (drop 2 body))))
        (dec32 (take 4 (drop 12 body))) (dec32 (take 4 (drop 16 body)))) = Some h
    \<and> cha E st p = Some (case chacha_egress st 0 of None \<Rightarrow> TC_ACT_SHOT | Some port \<Rightarrow> redirect E port 0,
        ethhdr d s ETH_P_IP @ enc_iphdr h @ take (nf - 14) body @ stream_xor 24 cha_ctx (drop (nf - 14) body))"
proof -
  obtain h where h: "checksummed (iph_tnl (bswap16 (dec16 (take 2 (drop 2 body))))
        (dec32 (take 4 (drop 12 body))) (dec32 (take 4 (drop 16 body)))) = Some h"
    using in_boundsD [OF in_bounds_checksummed] by blast
  have "14 \<le> nf" using l4(1) by (auto simp: l4_payload_def Let_def split: if_splits Option.bind_splits)
  then show ?thesis
    using encap_crypt_frame [OF room rc [unfolded p] _ _ _ len h, of nf st] len ihl frag l4 h
    by (simp add: cha_def parse_ip_def p)
qed

lemma checksummed_keeps: "checksummed h = Some h' \<Longrightarrow> \<exists>k. h' = h\<lparr>ip_check := k\<rparr>"
  by (auto simp: checksummed_def split: Option.bind_splits)

lemma ping_reply_other:
  "42 \<le> length p \<Longrightarrow> dec8 (take 1 (drop 23 p)) \<noteq> IPPROTO_ICMP \<or> dec8 (take 1 (drop 34 p)) \<noteq> ICMP_ECHO
    \<Longrightarrow> ping_reply p = Some (XDP_PASS, p)"
  by (auto simp: ping_reply_def Let_def)

text \<open>A packet that \<open>cha\<close> encrypts: IPv4 without options, not a fragment, its payload at \<open>nf\<close>, and
  the kernel makes room.\<close>

definition cha_accepts :: "'e bpf_env_scheme \<Rightarrow> bytes \<Rightarrow> nat \<Rightarrow> bool" where
  "cha_accepts E p nf \<longleftrightarrow> skb_room (skb_adjust_room E) \<and> fst (skb_adjust_room E p 20) = 0
     \<and> (\<exists>d s body. p = ethhdr d s ETH_P_IP @ body \<and> 20 \<le> length body
        \<and> dec8 (take 1 body) AND 0x0F = 5 \<and> dec16 (take 2 (drop 6 body)) AND IP_FRAGMENTED = 0
        \<and> l4_payload p 34 (dec8 (take 1 (drop 9 body))) = Some (Inr nf)) \<and> nf \<le> length p"

lemma cha_accepted:
  assumes "cha_accepts E p nf" and "chacha_egress st 0 = Some port"
  shows "\<exists>hdr. length hdr = 20 \<and> 34 \<le> nf
    \<and> cha E st p = Some (redirect E port 0, take 14 p @ hdr @ drop 14 (take nf p) @ stream_xor 24 cha_ctx (drop nf p))"
proof -
  obtain d s body where p: "p = ethhdr d s ETH_P_IP @ body" "20 \<le> length body"
    and c: "dec8 (take 1 body) AND 0x0F = 5" "dec16 (take 2 (drop 6 body)) AND IP_FRAGMENTED = 0"
    and l4: "l4_payload p 34 (dec8 (take 1 (drop 9 body))) = Some (Inr nf)" "nf \<le> length p"
    and room: "skb_room (skb_adjust_room E)" "fst (skb_adjust_room E p 20) = 0"
    using assms(1) unfolding cha_accepts_def by blast
  obtain h where run: "cha E st p = Some (redirect E port 0,
        ethhdr d s ETH_P_IP @ enc_iphdr h @ take (nf - 14) body @ stream_xor 24 cha_ctx (drop (nf - 14) body))"
    using cha_frame [OF room(1) p room(2) c l4, of st] assms(2) by auto
  have nf: "34 \<le> nf" using l4(1) by (auto simp: l4_payload_def Let_def split: if_splits Option.bind_splits)
  then have "take 14 p = ethhdr d s ETH_P_IP" "drop 14 (take nf p) = take (nf - 14) body" "drop nf p = drop (nf - 14) body"
    by (simp_all add: p(1))
  with run nf show ?thesis by (intro exI [of _ "enc_iphdr h"]) simp
qed

section \<open>Properties\<close>

text \<open>The published test vector: 8 rounds, a zero key of 128 bits, a zero initialisation vector.\<close>

lemma chacha8_vector:
  "key_block cha_ctx =
     [0xe2, 0x8a, 0x5f, 0xa4, 0xa6, 0x7f, 0x8c, 0x5d, 0xef, 0xed, 0x3e, 0x6f, 0xb7, 0x30, 0x34, 0x86,
      0xaa, 0x84, 0x27, 0xd3, 0x14, 0x19, 0xa7, 0x29, 0x57, 0x2d, 0x77, 0x79, 0x53, 0x49, 0x11, 0x20,
      0xb6, 0x4a, 0xb8, 0xe7, 0x2b, 0x8d, 0xeb, 0x85, 0xcd, 0x6a, 0xea, 0x7c, 0xb6, 0x08, 0x9a, 0x10,
      0x18, 0x24, 0xbe, 0xeb, 0x08, 0x81, 0x4a, 0x42, 0x8a, 0xab, 0x1f, 0xa2, 0xc8, 0x16, 0x08, 0x1b]"
  by code_simp

text \<open>C12. The encryption loop is ChaCha with 8 rounds: for every key of 128 bits (the first 16
  bytes of the key array), every initialisation vector, every packet and every number of turns, the
  whole 64-byte blocks of the payload are XORed with the blocks number 0, 1, 2 and so on of the
  specification \<open>chacha_block\<close> (matrix of rows, columns and diagonals, 64-bit block number), and
  everything else stays.\<close>

theorem crypt_loop_is_chacha8:
  assumes key: "length key = 16" and iv: "length iv = 8"
    and m: "m \<le> length p" and k: "k = min n ((length p - m) div 64)"
  shows "crypt_loop n (init (init_ctx CHACHA_ROUNDS) (key @ rest) iv) p m =
    Some (take m p
      @ map2 (XOR) (take (64 * k) (drop m p)) (concat (map (\<lambda>j. chacha_block 8 key iv (of_nat j)) [0..<k]))
      @ drop (m + 64 * k) p)"
proof -
  let ?ctx = "init (init_ctx CHACHA_ROUNDS) (key @ rest) iv"
  have v: "length (state ?ctx) = 16" by (simp add: init_def)
  have "crypt_loop n ?ctx p m = Some (take m p @ stream_xor n ?ctx (drop m p))"
    using crypt_loop_stream [OF v, of n "take m p" "drop m p"] m by simp
  moreover have "key_stream k ?ctx = concat (map (\<lambda>j. chacha_block 8 key iv (of_nat j)) [0..<k])"
    using key_stream_blocks [OF key iv, of k 0] by (simp add: init_block_ctx [OF key iv])
  ultimately show ?thesis
    using cipher.closed [OF v, of k n "drop m p"] k by (simp add: add.commute)
qed

theorem crypt_loop_is_chacha8_witness:
  "crypt_loop 24 cha_ctx (replicate 20 7 @ replicate 70 0x41) 20 =
    Some (replicate 20 7
      @ map2 (XOR) (replicate 64 0x41) (chacha_block 8 (replicate 16 0) (replicate 8 0) 0) @ replicate 6 0x41)"
proof -
  have "t_key = replicate 16 0 @ replicate 16 0" by (simp add: t_key_def replicate_add [symmetric])
  moreover have "(1::nat) = min 24 ((length (replicate 20 7 @ replicate 70 (0x41 :: u8)) - 20) div 64)" by simp
  ultimately show ?thesis
    using crypt_loop_is_chacha8 [of "replicate 16 0" "replicate 8 0" 20 "replicate 20 7 @ replicate 70 0x41" 1 24 "replicate 16 0"]
    by (simp add: cha_ctx_def t_iv_def)
qed

text \<open>C13. Running the encryption loop on its own result gives the packet back: the 64-bit XORs
  with the key stream undo themselves, and nothing before the payload is touched.\<close>

theorem crypt_loop_undoes_itself:
  assumes "m \<le> length p"
  shows "\<exists>q. crypt_loop n cha_ctx p m = Some q \<and> length q = length p \<and> take m q = take m p
    \<and> crypt_loop n cha_ctx q m = Some p"
proof -
  let ?q = "take m p @ stream_xor n cha_ctx (drop m p)"
  have m: "length (take m p) = m" using assms by simp
  have "crypt_loop n cha_ctx p m = Some ?q" using assms by (rule crypt_loop_at)
  moreover have "crypt_loop n cha_ctx ?q m = Some p"
    using crypt_loop_stream [OF length_cha_ctx, of n "take m p" "stream_xor n cha_ctx (drop m p)"] m
    by (simp add: cipher.twice)
  ultimately show ?thesis using m assms by (intro exI [of _ ?q]) simp
qed

theorem crypt_loop_undoes_itself_witness:
  "\<exists>q. crypt_loop 24 cha_ctx (replicate 100 7) 20 = Some q
    \<and> crypt_loop 24 cha_ctx q 20 = Some (replicate 100 7)"
  using crypt_loop_undoes_itself [of 20 "replicate 100 7" 24] by auto

text \<open>C15. The two ends of the tunnel fit: an IPv4 packet that \<open>cha\<close> accepts and that is not an ICMP
  echo request (TCP, UDP, or another type of ICMP message), once \<open>decap_ipip\<close> has taken the outer header off, is the packet as it was, up to where its payload starts, and
  then the payload XORed with the key stream in whole blocks of 64 bytes.\<close>

theorem tunnel_ends_fit:
  assumes room: "skb_room (skb_adjust_room E)" and head: "xdp_head (xdp_adjust_head E')"
    and p: "p = ethhdr d s ETH_P_IP @ body" and len: "20 \<le> length body"
    and rc: "fst (skb_adjust_room E p 20) = 0"
    and rc': "\<And>q. 34 \<le> length q \<Longrightarrow> fst (xdp_adjust_head E' q 20) = 0"
    and ihl: "dec8 (take 1 body) AND 0x0F = 5"
    and frag: "dec16 (take 2 (drop 6 body)) AND IP_FRAGMENTED = 0"
    and no_ping: "dec8 (take 1 (drop 9 body)) \<noteq> IPPROTO_ICMP \<or> dec8 (take 1 (drop 20 body)) \<noteq> ICMP_ECHO"
    and l4: "l4_payload p 34 (dec8 (take 1 (drop 9 body))) = Some (Inr nf)" "nf \<le> length p"
    and port: "chacha_egress st 0 = Some port"
  shows "\<exists>q. cha E st p = Some (redirect E port 0, q)
    \<and> decap_ipip E' q = Some (XDP_PASS, take nf p @ stream_xor 24 cha_ctx (drop nf p))"
proof -
  let ?e = "ethhdr d s ETH_P_IP" and ?b = "take (nf - 14) body @ stream_xor 24 cha_ctx (drop (nf - 14) body)"
  have nf: "42 \<le> nf" using l4(1) by (auto simp: l4_payload_def Let_def split: if_splits Option.bind_splits)
  obtain h where h: "checksummed (iph_tnl (bswap16 (dec16 (take 2 (drop 2 body))))
        (dec32 (take 4 (drop 12 body))) (dec32 (take 4 (drop 16 body)))) = Some h"
    and run: "cha E st p = Some (redirect E port 0, ?e @ enc_iphdr h @ ?b)"
    using cha_frame [OF room p len rc ihl frag l4, of st] port by auto
  from checksummed_keeps [OF h] have "enc_iphdr h ! 9 = IPPROTO_IPIP"
    by (auto simp: enc_iphdr_def iph_tnl_def enc16_def)
  then have "decap_ipip E' (?e @ enc_iphdr h @ ?b) = ping_reply (?e @ ?b)"
    by (intro decap_ipip_strips head rc') simp_all
  also have "\<dots> = Some (XDP_PASS, ?e @ ?b)"
    using no_ping nf len l4(2) by (intro ping_reply_other) (simp_all add: take_drop p)
  finally show ?thesis using run nf by (auto simp: p)
qed

definition sample_payload :: bytes where
  "sample_payload = replicate 70 0x41"

definition sample_datagram :: bytes where
  "sample_datagram = ethhdr mac_c mac_b ETH_P_IP @ sample_udp @ sample_payload"

theorem tunnel_ends_fit_witness:
  "\<exists>q. cha sample_env \<lparr>chacha_egress = [0 \<mapsto> 3]\<rparr> sample_datagram = Some (7, q)
    \<and> decap_ipip sample_env q = Some (XDP_PASS, sample_inner @ stream_xor 24 cha_ctx sample_payload)"
proof -
  let ?st = "\<lparr>chacha_egress = [0 \<mapsto> 3]\<rparr>"
  have l4: "l4_payload sample_datagram 34 (dec8 (take 1 (drop 9 (sample_udp @ sample_payload)))) = Some (Inr 42)"
    by (simp add: sample_datagram_def l4_payload_def parse_transport_def sample_udp_def dec8_def proto_defs)
  have "\<exists>q. cha sample_env ?st sample_datagram = Some (redirect sample_env 3 0, q)
    \<and> decap_ipip sample_env q
        = Some (XDP_PASS, take 42 sample_datagram @ stream_xor 24 cha_ctx (drop 42 sample_datagram))"
    by (rule tunnel_ends_fit [OF _ _ sample_datagram_def _ _ _ _ _ _ l4])
       (simp_all add: sample_helpers skb_room_zero_def xdp_head_plain_def sample_datagram_def
         sample_udp_def dec8_def dec16_def proto_defs)
  then show ?thesis
    by (simp add: sample_env_def sample_datagram_def sample_inner_def sample_udp_def)
qed

text \<open>C14. Which bytes are encrypted: of the payload exactly the first \<open>64 * min 24 (n div 64)\<close>, where
  \<open>n\<close> is its length, that is the whole blocks and at most 1536 bytes, are XORed with the key stream.
  The rest, up to 63 bytes at the end of every packet, all of a payload below 64 bytes, and what is
  beyond 1536, leaves as it came.\<close>

theorem cha_encrypts_whole_blocks:
  assumes acc: "cha_accepts E p nf" and port: "chacha_egress st 0 = Some port"
    and k: "k = min 24 ((length p - nf) div 64)"
  shows "\<exists>hdr. length hdr = 20 \<and> cha E st p = Some (redirect E port 0,
      take 14 p @ hdr @ drop 14 (take nf p) @ map2 (XOR) (take (64 * k) (drop nf p)) (key_stream k cha_ctx) @ drop (nf + 64 * k) p)"
  using cha_accepted [OF acc port] cipher.closed [of cha_ctx k 24 "drop nf p"] k
  by (auto simp: add.commute)

text \<open>C31. Every packet is encrypted with the same key stream, since the key and the initialisation
  vector are zero and the context is set up anew for each packet: the exclusive or of the payloads
  of any two encrypted packets (of the same payload length) is the exclusive or of the plaintexts.\<close>

theorem key_stream_reused:
  assumes acc: "cha_accepts E p nf" "cha_accepts E' p' nf'"
    and port: "chacha_egress st 0 = Some port" "chacha_egress st' 0 = Some port'"
    and len: "length p - nf = length p' - nf'"
  shows "\<exists>q q'. cha E st p = Some (redirect E port 0, q) \<and> cha E' st' p' = Some (redirect E' port' 0, q')
    \<and> map2 (XOR) (drop (nf + 20) q) (drop (nf' + 20) q') = map2 (XOR) (drop nf p) (drop nf' p')"
proof -
  obtain hdr where 1: "length hdr = 20" "34 \<le> nf" "cha E st p = Some (redirect E port 0,
      take 14 p @ hdr @ drop 14 (take nf p) @ stream_xor 24 cha_ctx (drop nf p))"
    using cha_accepted [OF acc(1) port(1)] by blast
  obtain hdr' where 2: "length hdr' = 20" "34 \<le> nf'" "cha E' st' p' = Some (redirect E' port' 0,
      take 14 p' @ hdr' @ drop 14 (take nf' p') @ stream_xor 24 cha_ctx (drop nf' p'))"
    using cha_accepted [OF acc(2) port(2)] by blast
  have n: "nf \<le> length p" "nf' \<le> length p'" using acc by (auto simp: cha_accepts_def)
  have "map2 (XOR) (stream_xor 24 cha_ctx (drop nf p)) (stream_xor 24 cha_ctx (drop nf' p')) = map2 (XOR) (drop nf p) (drop nf' p')"
    by (rule cipher.reuse) (simp_all add: len)
  then show ?thesis using 1 2 n by simp
qed

definition sample_datagram2 :: bytes where
  "sample_datagram2 = ethhdr mac_c mac_b ETH_P_IP @ sample_udp @ replicate 70 0x42"

lemma sample_accepted: "cha_accepts sample_env sample_datagram 42" "cha_accepts sample_env sample_datagram2 42"
proof -
  have "dec8 (take 1 (drop 9 (sample_udp @ r))) = IPPROTO_UDP" "dec8 (take 1 (sample_udp @ r)) AND 0x0F = 5"
    "dec16 (take 2 (drop 6 (sample_udp @ r))) = 0" "length sample_udp = 28" for r
    by (simp_all add: sample_udp_def dec8_def dec16_def proto_defs)
  moreover have "IPPROTO_UDP \<noteq> IPPROTO_TCP" by (simp add: proto_defs)
  ultimately show "cha_accepts sample_env sample_datagram 42" "cha_accepts sample_env sample_datagram2 42"
    unfolding cha_accepts_def sample_datagram_def sample_datagram2_def
    by (auto simp: sample_helpers skb_room_zero_def l4_payload_def parse_transport_def sample_payload_def intro!: exI)
qed

theorem cha_encrypts_whole_blocks_witness:
  "\<exists>q. cha sample_env \<lparr>chacha_egress = [0 \<mapsto> 3]\<rparr> sample_datagram = Some (7, q) \<and> drop 126 q = replicate 6 0x41"
proof -
  have l: "length sample_datagram = 112" by (simp add: sample_datagram_def sample_udp_def sample_payload_def)
  then have k: "1 = min 24 ((length sample_datagram - 42) div 64)" by simp
  have d: "drop 106 sample_datagram = replicate 6 0x41"
    by (simp add: sample_datagram_def sample_udp_def sample_payload_def)
  from cha_encrypts_whole_blocks [OF sample_accepted(1) _ k, of "\<lparr>chacha_egress = [0 \<mapsto> 3]\<rparr>" 3] l d
  show ?thesis by (auto simp: sample_env_def key_block_def)
qed

theorem key_stream_reused_witness:
  "\<exists>q q'. cha sample_env \<lparr>chacha_egress = [0 \<mapsto> 3]\<rparr> sample_datagram = Some (7, q)
    \<and> cha sample_env \<lparr>chacha_egress = [0 \<mapsto> 3]\<rparr> sample_datagram2 = Some (7, q')
    \<and> map2 (XOR) (drop 62 q) (drop 62 q') = replicate 70 3"
proof -
  have l: "length sample_datagram - 42 = length sample_datagram2 - 42"
    by (simp add: sample_datagram_def sample_datagram2_def sample_payload_def)
  have x: "map2 (XOR) (drop 42 sample_datagram) (drop 42 sample_datagram2) = replicate 70 3"
    by (simp add: sample_datagram_def sample_datagram2_def sample_udp_def sample_payload_def zip_replicate)
  from key_stream_reused [OF sample_accepted _ _ l, of "\<lparr>chacha_egress = [0 \<mapsto> 3]\<rparr>" 3 "\<lparr>chacha_egress = [0 \<mapsto> 3]\<rparr>" 3] x
  show ?thesis by (simp add: sample_env_def)
qed

text \<open>C16. The checksum of the outer header folds the 32-bit sum only once. It verifies at a
  receiver exactly when that fold has no carry left; when it has, the header is invalid.\<close>

theorem tunnel_checksum:
  assumes "checksummed (iph_tnl len sa da) = Some h"
  shows "\<exists>c c'. csum_loop (enc_iphdr (iph_tnl len sa da)) 0 10 0 = Some c
    \<and> csum_loop (enc_iphdr h) 0 10 0 = Some c'
    \<and> (unat c' mod 65535 = 0) = (unat c mod 65536 + unat c div 65536 < 65536)"
  by (rule checksummed_valid [OF assms]) (simp add: iph_tnl_def)

text \<open>From 255.255.0.0 to 178.251.0.0 with 236 bytes the sum is 0x1FFFF, and the checksum wrong.\<close>

theorem tunnel_checksum_witness:
  "\<exists>h c'. checksummed (iph_tnl 236 0x0000FFFF 0x0000FBB2) = Some h
    \<and> csum_loop (enc_iphdr h) 0 10 0 = Some c' \<and> unat c' mod 65535 \<noteq> 0"
proof -
  obtain h where h: "checksummed (iph_tnl 236 0x0000FFFF 0x0000FBB2) = Some h"
    using in_boundsD [OF in_bounds_checksummed] by blast
  have "csum_loop (enc_iphdr (iph_tnl 236 0x0000FFFF 0x0000FBB2)) 0 10 0 = Some 0x1FFFF"
    by code_simp
  with tunnel_checksum [OF h] h show ?thesis by auto
qed

text \<open>C17. \<open>decap_ipip\<close> answers a tunnelled ping request: the outer header is gone, the IP
  addresses are swapped, the type is echo reply, the MAC addresses are the configured ones, the
  identifier, sequence number and data are those of the request, and the ICMP checksum is zero.\<close>

theorem decap_ipip_answers_ping:
  assumes "xdp_head (xdp_adjust_head E)"
    and "\<And>q. 34 \<le> length q \<Longrightarrow> fst (xdp_adjust_head E q 20) = 0"
    and "length outer = 20" "outer ! 9 = IPPROTO_IPIP"
    and "length pre = 12" "pre ! 9 = IPPROTO_ICMP" "length ck = 2" "4 \<le> length rest"
  shows "decap_ipip E (ethhdr d s ETH_P_IP @ outer @ pre @ enc32 sa @ enc32 da @ [ICMP_ECHO, c] @ ck @ rest)
    = Some (XDP_TX, ethhdr (Mac 0x00 0x15 0x4d 0x13 0x81 0x7f) (Mac 0xaa 0xbb 0xcc 0xdd 0xee 0xff) ETH_P_IP
        @ pre @ enc32 da @ enc32 sa @ [ICMP_ECHOREPLY, c] @ enc16 0 @ rest)"
  using decap_ipip_strips [OF assms(1-4), of d s "pre @ enc32 sa @ enc32 da @ [ICMP_ECHO, c] @ ck @ rest"]
    ping_reply_frame [OF assms(5-8), of d s sa da c] by simp

definition sample_outer :: bytes where
  "sample_outer = enc_iphdr (iph_tnl 28 0x010A0A0A 0x020A0A0A)"

theorem decap_ipip_answers_ping_witness:
  "decap_ipip sample_env (ethhdr mac_c mac_b ETH_P_IP @ sample_outer
      @ [0x45, 0, 0, 28, 0, 0, 0, 0, 64, 1, 0, 0] @ enc32 0x010A0A0A @ enc32 0x020A0A0A
      @ [ICMP_ECHO, 0] @ [0xF7, 0xFF] @ [0, 0, 0, 1])
    = Some (XDP_TX, ethhdr (Mac 0x00 0x15 0x4d 0x13 0x81 0x7f) (Mac 0xaa 0xbb 0xcc 0xdd 0xee 0xff) ETH_P_IP
        @ [0x45, 0, 0, 28, 0, 0, 0, 0, 64, 1, 0, 0] @ enc32 0x020A0A0A @ enc32 0x010A0A0A
        @ [ICMP_ECHOREPLY, 0] @ enc16 0 @ [0, 0, 0, 1])"
  by (rule decap_ipip_answers_ping)
     (simp_all add: sample_helpers xdp_head_plain_def sample_outer_def enc_iphdr_def iph_tnl_def
       enc16_def proto_defs)

end
