(* ===== verification/Jhash.thy ===== *)
theory Jhash
  imports Prelude
begin

text \<open>
  \<^verbatim>\<open>src/functions/l4lb/jhash.h\<close>: Jenkins' hash in its three forms, over bytes (\<open>jhash\<close>), over
  words (\<open>jhash2\<close>) and over one to three words (\<open>jhash_1word\<close> and so on). The state of the
  hash is the triple of the local variables \<^verbatim>\<open>a\<close>, \<^verbatim>\<open>b\<close>, \<^verbatim>\<open>c\<close>.
\<close>

type_synonym abc = "u32 \<times> u32 \<times> u32"

definition rol32 :: "u32 \<Rightarrow> u32 \<Rightarrow> u32" where
  "rol32 word shift = push_bit (unat shift) word OR drop_bit (unat ((- shift) AND 31)) word"

fun jhash_mix :: "abc \<Rightarrow> abc" where
  "jhash_mix (a, b, c) =
     (let a = a - c; a = a XOR rol32 c 4; c = c + b;
          b = b - a; b = b XOR rol32 a 6; a = a + c;
          c = c - b; c = c XOR rol32 b 8; b = b + a;
          a = a - c; a = a XOR rol32 c 16; c = c + b;
          b = b - a; b = b XOR rol32 a 19; a = a + c;
          c = c - b; c = c XOR rol32 b 4; b = b + a in (a, b, c))"

fun jhash_final :: "abc \<Rightarrow> abc" where
  "jhash_final (a, b, c) =
     (let c = c XOR b; c = c - rol32 b 14;
          a = a XOR c; a = a - rol32 c 11;
          b = b XOR a; b = b - rol32 a 25;
          c = c XOR b; c = c - rol32 b 16;
          a = a XOR c; a = a - rol32 c 4;
          b = b XOR a; b = b - rol32 a 14;
          c = c XOR b; c = c - rol32 b 24 in (a, b, c))"

declare jhash_mix.simps [simp del] jhash_final.simps [simp del]

definition JHASH_INITVAL :: u32 where "JHASH_INITVAL = 0xdeadbeef"

section \<open>Over bytes\<close>

text \<open>\<^verbatim>\<open>*(u32 *)k\<close> and the bytes of the last block; a key shorter than its length is \<open>None\<close>.\<close>

fun jhash_loop :: "bytes \<Rightarrow> nat \<Rightarrow> abc \<Rightarrow> (bytes \<times> nat \<times> abc) option" where
  "jhash_loop k len (a, b, c) =
     (if len > 12 then do {
        k0 \<leftarrow> ld32 k 0;
        k1 \<leftarrow> ld32 k 4;
        k2 \<leftarrow> ld32 k 8;
        jhash_loop (drop 12 k) (len - 12) (jhash_mix (a + k0, b + k1, c + k2))
      } else Some (k, len, (a, b, c)))"

declare jhash_loop.simps [simp del]

text \<open>One case label of the \<^verbatim>\<open>switch\<close>, reached by every length from its own on: add byte
  \<open>i\<close>, shifted, to \<open>x\<close>.\<close>

definition add_byte :: "bytes \<Rightarrow> nat \<Rightarrow> nat \<Rightarrow> nat \<Rightarrow> u32 \<Rightarrow> u32 option" where
  "add_byte k len i shift x =
     (if len \<ge> i + 1 then do { v \<leftarrow> ld8 k i; Some (x + push_bit shift (ucast v)) } else Some x)"

definition jhash_tail :: "bytes \<Rightarrow> nat \<Rightarrow> abc \<Rightarrow> u32 option" where
  "jhash_tail k len abc = (case abc of (a, b, c) \<Rightarrow> do {
     c \<leftarrow> add_byte k len 11 24 c;
     c \<leftarrow> add_byte k len 10 16 c;
     c \<leftarrow> add_byte k len 9 8 c;
     c \<leftarrow> add_byte k len 8 0 c;
     b \<leftarrow> add_byte k len 7 24 b;
     b \<leftarrow> add_byte k len 6 16 b;
     b \<leftarrow> add_byte k len 5 8 b;
     b \<leftarrow> add_byte k len 4 0 b;
     a \<leftarrow> add_byte k len 3 24 a;
     a \<leftarrow> add_byte k len 2 16 a;
     a \<leftarrow> add_byte k len 1 8 a;
     a \<leftarrow> add_byte k len 0 0 a;
     if len = 0 then Some c else (case jhash_final (a, b, c) of (a, b, c) \<Rightarrow> Some c)
   })"

definition jhash :: "bytes \<Rightarrow> u32 \<Rightarrow> u32 \<Rightarrow> u32 option" where
  "jhash key len initval =
     (let i = JHASH_INITVAL + len + initval in do {
        (k, len, abc) \<leftarrow> jhash_loop key (unat len) (i, i, i);
        jhash_tail k len abc
      })"

section \<open>Over words\<close>

fun jhash2_loop :: "u32 list \<Rightarrow> nat \<Rightarrow> abc \<Rightarrow> u32 list \<times> nat \<times> abc" where
  "jhash2_loop k len (a, b, c) =
     (if len > 3 then
        jhash2_loop (drop 3 k) (len - 3) (jhash_mix (a + k ! 0, b + k ! 1, c + k ! 2))
      else (k, len, (a, b, c)))"

declare jhash2_loop.simps [simp del]

definition jhash2_tail :: "u32 list \<Rightarrow> nat \<Rightarrow> abc \<Rightarrow> u32" where
  "jhash2_tail k len abc = (case abc of (a, b, c) \<Rightarrow>
     (let c = (if len \<ge> 3 then c + k ! 2 else c);
          b = (if len \<ge> 2 then b + k ! 1 else b) in
      if len \<ge> 1 then (case jhash_final (a + k ! 0, b, c) of (a, b, c) \<Rightarrow> c) else c))"

definition jhash2 :: "u32 list \<Rightarrow> u32 \<Rightarrow> u32 \<Rightarrow> u32" where
  "jhash2 k len initval =
     (let i = JHASH_INITVAL + push_bit 2 len + initval in
      case jhash2_loop k (unat len) (i, i, i) of (k, len, abc) \<Rightarrow> jhash2_tail k len abc)"

definition jhash_nwords :: "u32 \<Rightarrow> u32 \<Rightarrow> u32 \<Rightarrow> u32 \<Rightarrow> u32" where
  "jhash_nwords a b c initval =
     (case jhash_final (a + initval, b + initval, c + initval) of (a, b, c) \<Rightarrow> c)"

definition jhash_3words :: "u32 \<Rightarrow> u32 \<Rightarrow> u32 \<Rightarrow> u32 \<Rightarrow> u32" where
  "jhash_3words a b c initval = jhash_nwords a b c (initval + JHASH_INITVAL + 12)"

definition jhash_2words :: "u32 \<Rightarrow> u32 \<Rightarrow> u32 \<Rightarrow> u32" where
  "jhash_2words a b initval = jhash_nwords a b 0 (initval + JHASH_INITVAL + 8)"

definition jhash_1word :: "u32 \<Rightarrow> u32 \<Rightarrow> u32" where
  "jhash_1word a initval = jhash_nwords a 0 0 (initval + JHASH_INITVAL + 4)"

section \<open>The three forms agree\<close>

lemma rol32_rotl:
  assumes "unat s < 32"
  shows "rol32 w s = word_rotl (unat s) w"
proof -
  have "unat ((- s) AND 31) = (32 - unat s) mod 32"
  proof -
    have "(- s) AND 31 = take_bit 5 (- s)" by (simp add: take_bit_eq_mask mask_numeral)
    then have "unat ((- s) AND 31) = unat (- s) mod 32"
      by (simp add: unsigned_take_bit_eq take_bit_nat_def)
    also have "\<dots> = (32 - unat s) mod 32"
    proof (cases "s = 0")
      case False
      have "- s = word_of_nat (2 ^ 32 - unat s)" using assms by (simp add: of_nat_diff)
      then have "unat (- s) = (2 ^ 32 - unat s) mod 2 ^ 32" by (simp add: unsigned_of_nat take_bit_nat_def)
      also have "\<dots> = 2 ^ 32 - unat s" using False by (simp add: unat_gt_0)
      also have "\<dots> = (32 - unat s) + 32 * (2 ^ 27 - 1)" using assms by simp
      finally show ?thesis by (simp only: mod_mult_self2)
    qed simp
    finally show ?thesis .
  qed
  note amount = this
  show ?thesis
  proof (cases "unat s = 0")
    case True
    then show ?thesis by (intro bit_word_eqI) (auto simp: rol32_def amount bit_simps)
  next
    case False
    show ?thesis
    proof (rule bit_word_eqI)
      fix n :: nat assume n: "n < LENGTH(32)"
      have r: "bit (word_rotl (unat s) w) n = bit w ((n + (32 - unat s)) mod 32)"
        using n assms False by (simp add: bit_word_rotl_iff)
      have l: "bit (rol32 w s) n = (unat s \<le> n \<and> bit w (n - unat s) \<or> bit w (32 - unat s + n))"
        using n assms False by (auto simp: rol32_def amount bit_or_iff bit_push_bit_iff bit_drop_bit_eq)
      show "bit (rol32 w s) n = bit (word_rotl (unat s) w) n"
      proof (cases "unat s \<le> n")
        case True
        then have "(n + (32 - unat s)) mod 32 = n - unat s" using n assms False by (simp add: mod_if)
        moreover have "\<not> bit w (32 - unat s + n)" using True assms by (intro bit_u32_ge) linarith
        ultimately show ?thesis using True by (simp only: l r) simp
      next
        case F: False
        then have "(n + (32 - unat s)) mod 32 = 32 - unat s + n" using assms by (subst mod_less) linarith+
        then show ?thesis using F by (simp only: l r) simp
      qed
    qed
  qed
qed

lemma word_of_bytes:
  "push_bit 24 (ucast (byte_of 3 w)) + push_bit 16 (ucast (byte_of 2 w)) + push_bit 8 (ucast (byte_of 1 w))
     + ucast (byte_of 0 w) = w" for w :: u32
proof -
  let ?b = "\<lambda>i. push_bit (8 * i) (ucast (byte_of i w)) :: u32"
  have d: "bit (?b i) n \<Longrightarrow> 8 * i \<le> n \<and> n < 8 * i + 8" for i n
    by (auto simp: bit_simps dest: bit_u8_less)
  have "?b 3 + ?b 2 + ?b 1 + ?b 0 = ?b 3 OR ?b 2 OR ?b 1 OR ?b 0"
    by (subst disjunctive_add, use d in \<open>fastforce simp: bit_simps\<close>)+ (simp add: ac_simps)
  also have "\<dots> = dec32 (enc32 w)"
    by (simp add: dec32_def enc32_def ac_simps)
  finally show ?thesis by simp
qed

text \<open>What one loop iteration reads: the words of the key one by one.\<close>

abbreviation words_bytes :: "u32 list \<Rightarrow> bytes" where
  "words_bytes ws \<equiv> concat (map enc32 ws)"

lemma ld32_words:
  "ld32 (words_bytes (w # ws)) 0 = Some w"
  "ld32 (words_bytes (v # w # ws)) 4 = Some w"
  "ld32 (words_bytes (u # v # w # ws)) 8 = Some w"
  by simp_all

lemma jhash_loop_words:
  "jhash_loop (words_bytes ws) (4 * length ws) abc =
     (case jhash2_loop ws (length ws) abc of (k, len, abc) \<Rightarrow> Some (words_bytes k, 4 * len, abc))"
proof (induction ws "length ws" abc rule: jhash2_loop.induct)
  case (1 ws a b c)
  show ?case
  proof (cases "length ws > 3")
    case True
    then obtain u v w rest where ws: "ws = u # v # w # rest"
      by (auto simp: Suc_le_length_iff numeral_eq_Suc less_eq_Suc_le)
    have "jhash_loop (words_bytes rest) (4 * length rest) (jhash_mix (a + u, b + v, c + w)) =
      (case jhash2_loop rest (length rest) (jhash_mix (a + u, b + v, c + w)) of
         (k, len, abc) \<Rightarrow> Some (words_bytes k, 4 * len, abc))"
      using 1 [of] True by (simp add: ws)
    then show ?thesis
      using True by (simp add: ws jhash_loop.simps [of _ _ a] jhash2_loop.simps [of _ _ a])
  next
    case False
    then show ?thesis by (simp add: jhash_loop.simps jhash2_loop.simps)
  qed
qed

lemma jhash2_loop_length:
  "jhash2_loop ws (length ws) abc = (k, len, abc') \<Longrightarrow> len = length k \<and> len \<le> 3"
proof (induction ws "length ws" abc rule: jhash2_loop.induct)
  case (1 ws a b c)
  show ?case
  proof (cases "length ws > 3")
    case True
    with 1(2) have "jhash2_loop (drop 3 ws) (length ws - 3) (jhash_mix (a + ws ! 0, b + ws ! 1, c + ws ! 2))
        = (k, len, abc')"
      by (simp add: jhash2_loop.simps [of ws])
    with 1(1) [OF True] show ?thesis by simp
  next
    case False
    with 1(2) show ?thesis by (auto simp: jhash2_loop.simps [of ws])
  qed
qed

lemma jhash_tail_words:
  assumes "length ws \<le> 3"
  shows "jhash_tail (words_bytes ws) (4 * length ws) abc = Some (jhash2_tail ws (length ws) abc)"
proof -
  have w: "x + push_bit 24 (ucast (byte_of 3 w)) + push_bit 16 (ucast (byte_of 2 w))
      + push_bit 8 (ucast (byte_of 1 w)) + ucast (byte_of 0 w) = x + w" for x w :: u32
    using arg_cong [OF word_of_bytes [of w], of "\<lambda>y. x + y"] by (simp only: add.assoc)
  have e: "\<And>w. enc32 w = [byte_of 0 w, byte_of 1 w, byte_of 2 w, byte_of 3 w]"
    by (simp add: enc32_def)
  consider "ws = []" | u where "ws = [u]" | u v where "ws = [u, v]" | u v t where "ws = [u, v, t]"
    using assms by (cases ws; cases "tl ws"; cases "tl (tl ws)") auto
  then show ?thesis
  proof cases
    case 4
    then show ?thesis
      by (cases abc) (simp add: jhash_tail_def jhash2_tail_def add_byte_def e dec8_def w [unfolded One_nat_def] split: prod.split)
  qed (cases abc; simp add: jhash_tail_def jhash2_tail_def add_byte_def e dec8_def w [unfolded One_nat_def] split: prod.split)+
qed

text \<open>The word and the byte form agree, and so do the fixed-length forms.\<close>

lemma jhash_words:
  assumes "length ws < 2 ^ 30"
  shows "jhash (words_bytes ws) (of_nat (4 * length ws)) initval = Some (jhash2 ws (of_nat (length ws)) initval)"
proof -
  have n: "unat (of_nat (4 * length ws) :: u32) = 4 * length ws" "unat (of_nat (length ws) :: u32) = length ws"
    using assms by (simp_all add: unsigned_of_nat take_bit_nat_def del: of_nat_mult)
  have i: "(of_nat (4 * length ws) :: u32) = push_bit 2 (of_nat (length ws))"
    by (simp add: push_bit_eq_mult)
  let ?i = "JHASH_INITVAL + push_bit 2 (of_nat (length ws)) + initval"
  obtain k len abc where l: "jhash2_loop ws (length ws) (?i, ?i, ?i) = (k, len, abc)"
    by (cases "jhash2_loop ws (length ws) (?i, ?i, ?i)") auto
  with jhash2_loop_length [OF l] jhash_tail_words [of k abc] show ?thesis
    unfolding jhash_def jhash2_def n
    by (simp add: jhash_loop_words i [simplified] Let_def)
qed

lemma jhash2_fixed:
  "jhash2 [a] 1 initval = jhash_1word a initval"
  "jhash2 [a, b] 2 initval = jhash_2words a b initval"
  "jhash2 [a, b, c] 3 initval = jhash_3words a b c initval"
proof -
  have n: "unat (1 :: u32) = 1" "unat (2 :: u32) = 2" "unat (3 :: u32) = 3" by simp_all
  note defs = jhash2_loop.simps jhash2_tail_def jhash_1word_def jhash_2words_def
      jhash_3words_def jhash_nwords_def push_bit_eq_mult
  show "jhash2 [a] 1 initval = jhash_1word a initval"
    "jhash2 [a, b] 2 initval = jhash_2words a b initval"
    "jhash2 [a, b, c] 3 initval = jhash_3words a b c initval"
    unfolding jhash2_def n Let_def by (simp_all add: defs ac_simps)
qed

end
