(* ===== verification/L4lb.thy ===== *)
theory L4lb
  imports Jhash ChachaTunnel SfcNode
begin

text \<open>
  \<^verbatim>\<open>src/functions/l4lb/l4lb_kern.c\<close>: the load balancer. It hashes the source address and the
  ports of a packet with \<open>jhash_2words\<close> to one of 512 slots and redirects the packet to the
  interface configured for the slot, or for slot 0. The packet itself is not changed.
\<close>

definition MAX_SERVERS :: u32 where "MAX_SERVERS = 512"

record l4lb_state =
  l4lb_egress :: "u32 \<rightharpoonup> int"

definition l4lb_egress_decl :: bpf_elf_map where
  "l4lb_egress_decl = MAP BPF_MAP_TYPE_HASH 4 4 512 PIN_GLOBAL_NS"

definition dest_key :: "ip_5tuple \<Rightarrow> u32" where
  "dest_key t = (let ports = push_bit 16 (ucast (sport t)) + ucast (dport t) in
     jhash_2words (ip_src t) ports MAX_SERVERS mod MAX_SERVERS)"

definition hash_get_dest :: "(u32 \<rightharpoonup> int) \<Rightarrow> ip_5tuple \<Rightarrow> int option" where
  "hash_get_dest egress t = (case egress (dest_key t) of Some tnl \<Rightarrow> Some tnl | None \<Rightarrow> egress 0)"

text \<open>The tuple is a local variable that is not initialised: \<open>junk\<close> is what it holds.\<close>

definition process_packet ::
  "'e bpf_env_scheme \<Rightarrow> 's l4lb_state_scheme \<Rightarrow> ip_5tuple \<Rightarrow> bytes \<Rightarrow> nat \<Rightarrow> int option" where
  "process_packet E s junk data off =
     (if off + sizeof_iphdr > length data then Some TC_ACT_SHOT
      else do {
        ver_ihl \<leftarrow> ld_ver_ihl data off;
        if ver_ihl AND 0x0F \<noteq> 5 then Some TC_ACT_SHOT
        else do {
          frag_off \<leftarrow> ld_frag_off data off;
          if frag_off AND IP_FRAGMENTED \<noteq> 0 then Some TC_ACT_SHOT
          else do {
            (ret, t) \<leftarrow> get_tuple data off junk;
            if ret \<noteq> 0 then Some TC_ACT_SHOT
            else case hash_get_dest (l4lb_egress s) t of
              None \<Rightarrow> Some TC_ACT_SHOT
            | Some tx_port \<Rightarrow> Some (redirect E tx_port 0)
          }
        }
      })"

definition loadbal ::
  "'e bpf_env_scheme \<Rightarrow> 's l4lb_state_scheme \<Rightarrow> ip_5tuple \<Rightarrow> bytes \<Rightarrow> int option" where
  "loadbal E s junk data =
     (if sizeof_ethhdr > length data then Some TC_ACT_SHOT
      else do {
        eth_proto \<leftarrow> ld_h_proto data 0;
        if eth_proto = bswap16 ETH_P_IP then process_packet E s junk data sizeof_ethhdr
        else Some TC_ACT_OK
      })"

section \<open>Lemmas\<close>

lemma loadbal_in_bounds: "in_bounds (loadbal E s junk p)"
  by (auto simp: loadbal_def process_packet_def intro!: inb split: option.split)

lemma unat_mod_512: "unat (x mod (512 :: u32)) < 512"
  by (simp add: unat_mod_distrib)

lemma dest_key_slot: "unat (dest_key t) < 512"
  by (simp add: dest_key_def MAX_SERVERS_def Let_def unat_mod_512)

lemma hash_get_dest_slot:
  "hash_get_dest m t = Some port \<Longrightarrow> \<exists>k. unat k < 512 \<and> m k = Some port"
  using dest_key_slot [of t] by (auto simp: hash_get_dest_def split: option.splits intro: exI [of _ 0])

text \<open>A packet the balancer looks at: IPv4 with a header of five words, not a fragment.\<close>

definition balanced :: "bytes \<Rightarrow> bool" where
  "balanced p \<longleftrightarrow> 34 \<le> length p \<and> dec16 (take 2 (drop 12 p)) = bswap16 ETH_P_IP
     \<and> dec8 (take 1 (drop 14 p)) AND 0x0F = 5 \<and> dec16 (take 2 (drop 20 p)) AND IP_FRAGMENTED = 0"

lemma loadbal_balanced:
  assumes "balanced p" and "get_tuple p 14 zero_tuple = Some (0, t)"
  shows "loadbal E s junk p =
    Some (case hash_get_dest (l4lb_egress s) t of None \<Rightarrow> TC_ACT_SHOT | Some port \<Rightarrow> redirect E port 0)"
  using assms get_tuple_init [OF assms(2), of junk]
  by (simp add: balanced_def loadbal_def process_packet_def split: option.split)

lemma loadbal_unbalanced:
  assumes "\<not> (\<exists>t. balanced p \<and> get_tuple p 14 zero_tuple = Some (0, t))"
    and "14 \<le> length p" and "dec16 (take 2 (drop 12 p)) = bswap16 ETH_P_IP"
  shows "loadbal E s junk p = Some TC_ACT_SHOT"
proof -
  obtain rc t where t: "get_tuple p 14 junk = Some (rc, t)" using get_tuple_total by blast
  have "rc \<noteq> 0" if "balanced p"
    using assms(1) that t get_tuple_init [of p 14 junk t zero_tuple] by auto
  with t show ?thesis
    using assms(2,3) by (auto simp: loadbal_def process_packet_def balanced_def)
qed

lemma balanced_frame:
  "balanced (ethhdr d sa ETH_P_IP @ body) \<longleftrightarrow> 20 \<le> length body
     \<and> dec8 (take 1 body) AND 0x0F = 5 \<and> dec16 (take 2 (drop 6 body)) AND IP_FRAGMENTED = 0"
  by (auto simp: balanced_def)

section \<open>Properties\<close>

text \<open>C18. The three forms of the hash agree: over a byte string, over its words, and, for one to
  three words, the fixed-length functions that the load balancer uses.\<close>

theorem jhash_forms_agree:
  assumes "length ws < 2 ^ 30"
  shows "jhash (words_bytes ws) (of_nat (4 * length ws)) i = Some (jhash2 ws (of_nat (length ws)) i)
    \<and> jhash2 [a] 1 i = jhash_1word a i
    \<and> jhash2 [a, b] 2 i = jhash_2words a b i
    \<and> jhash2 [a, b, c] 3 i = jhash_3words a b c i"
  using jhash_words [OF assms, of i] jhash2_fixed by simp

theorem jhash_forms_agree_witness:
  "jhash (words_bytes [1, 2]) 8 512 = Some (jhash2 [1, 2] 2 512)"
  using jhash_forms_agree [of "[1, 2]" 512 0 0 0] by simp

text \<open>C19. The load balancer never reads outside the packet, and its verdict is one of three. It lets
  the packet pass only when it is not IPv4. It redirects only a packet that is balanced (IPv4, header
  of five words, no fragment) and has a flow key, and only to the interface configured for the slot
  of that key, below 512, or, when the slot has none, for slot 0. It drops the packet only when it is
  too short for an Ethernet header, or IPv4 but not balanced, without a flow key, or without an
  interface. What the uninitialised tuple held plays no part.\<close>

theorem loadbal_verdicts:
  "\<exists>v. loadbal E s junk p = Some v
     \<and> (v = TC_ACT_OK \<and> 14 \<le> length p \<and> dec16 (take 2 (drop 12 p)) \<noteq> bswap16 ETH_P_IP
        \<or> v = TC_ACT_SHOT \<and> (length p < 14 \<or> dec16 (take 2 (drop 12 p)) = bswap16 ETH_P_IP
            \<and> \<not> (\<exists>t port. balanced p \<and> get_tuple p 14 zero_tuple = Some (0, t)
                 \<and> (l4lb_egress s (dest_key t) = Some port \<or> l4lb_egress s (dest_key t) = None \<and> l4lb_egress s 0 = Some port)))
        \<or> (\<exists>t k port. balanced p \<and> get_tuple p 14 zero_tuple = Some (0, t)
            \<and> k = (if l4lb_egress s (dest_key t) = None then 0 else dest_key t) \<and> unat k < 512
            \<and> l4lb_egress s k = Some port \<and> v = redirect E port 0))"
proof (cases "length p < 14 \<or> dec16 (take 2 (drop 12 p)) \<noteq> bswap16 ETH_P_IP")
  case True
  then show ?thesis by (auto simp: loadbal_def)
next
  case False
  show ?thesis
  proof (cases "\<exists>t. balanced p \<and> get_tuple p 14 zero_tuple = Some (0, t)")
    case True
    then obtain t where t: "balanced p" "get_tuple p 14 zero_tuple = Some (0, t)" by blast
    show ?thesis
      using loadbal_balanced [OF t, of E s junk] False t dest_key_slot [of t]
      by (auto simp: hash_get_dest_def split: option.splits)
  next
    case no: False
    with loadbal_unbalanced [of p E s junk] False show ?thesis by auto
  qed
qed

text \<open>C20. Flow affinity: two packets with the same source address and ports go the same way,
  whatever their destination addresses, protocols, lengths and payloads and whatever the
  uninitialised tuple held. Both are packets that the program balances: IPv4 with a header of five
  words, not fragments, and with a flow key.\<close>

theorem loadbal_affinity:
  assumes "balanced p" and "balanced q"
    and "get_tuple p 14 zero_tuple = Some (0, t)" and "get_tuple q 14 zero_tuple = Some (0, t')"
    and "ip_src t = ip_src t'" "sport t = sport t'" "dport t = dport t'"
  shows "loadbal E s junk p = loadbal E s junk' q"
proof -
  have "dest_key t = dest_key t'" using assms(5-7) by (simp add: dest_key_def)
  then have "hash_get_dest (l4lb_egress s) t = hash_get_dest (l4lb_egress s) t'"
    by (simp add: hash_get_dest_def)
  then show ?thesis
    using assms(1-4) by (simp add: loadbal_balanced)
qed

theorem loadbal_affinity_witness:
  "loadbal sample_env \<lparr>l4lb_egress = [0 \<mapsto> 4]\<rparr> zero_tuple sample_inner
    = loadbal sample_env \<lparr>l4lb_egress = [0 \<mapsto> 4]\<rparr> sample_key (sample_inner @ [1, 2, 3])"
proof -
  have b: "balanced sample_inner" "balanced (sample_inner @ [1, 2, 3])"
    by (simp_all add: balanced_frame sample_inner_def sample_udp_def dec8_def dec16_def)
  have t: "get_tuple (sample_inner @ [1, 2, 3]) 14 zero_tuple = Some (0, sample_key)"
    by (simp add: get_tuple_def get_tuple_l4_def sample_inner_def sample_udp_def sample_key_def
      zero_tuple_def proto_defs dec8_def dec16_def dec32_def)
  show ?thesis by (rule loadbal_affinity [OF b sample_tuple t]) simp_all
qed

end
