(* ===== verification/CString.thy ===== *)
theory CString
  imports Prelude
begin

text \<open>
  The parts of the C library that the user space programs use on text: \<^verbatim>\<open>sscanf\<close> conversions
  \<^verbatim>\<open>%s\<close> and \<^verbatim>\<open>%hu\<close>, \<^verbatim>\<open>inet_pton(AF_INET, ...)\<close> and the decimal and hexadecimal output of
  \<^verbatim>\<open>printf\<close>. A text is a \<open>string\<close>, without its terminating NUL.
\<close>

section \<open>Input\<close>

definition is_blank :: "char \<Rightarrow> bool" where
  "is_blank c \<longleftrightarrow> c = CHR '' '' \<or> c = CHR 0x09 \<or> c = CHR 0x0A \<or> c = CHR 0x0B \<or> c = CHR 0x0C \<or> c = CHR 0x0D"

definition is_dec :: "char \<Rightarrow> bool" where
  "is_dec c \<longleftrightarrow> c \<in> set ''0123456789''"

fun dec_digit :: "char \<Rightarrow> nat" where
  "dec_digit c = of_char c - 48"

definition dec_value :: "string \<Rightarrow> nat" where
  "dec_value s = foldl (\<lambda>n c. 10 * n + dec_digit c) 0 s"

text \<open>\<^verbatim>\<open>%s\<close>: the next token and what follows it; \<open>None\<close> at the end of the input.\<close>

definition scan_s :: "string \<Rightarrow> (string \<times> string) option" where
  "scan_s s = (let s = dropWhile is_blank s; tok = takeWhile (\<lambda>c. \<not> is_blank c) s in
     if tok = [] then None else Some (tok, dropWhile (\<lambda>c. \<not> is_blank c) s))"

text \<open>\<^verbatim>\<open>%hu\<close> and \<^verbatim>\<open>%hhu\<close>: an optional sign and digits, converted like \<^verbatim>\<open>strtoul\<close> (which
  saturates) and cut to the width; \<open>None\<close> when there is no digit.\<close>

definition scan_u :: "string \<Rightarrow> ('a::len word \<times> string) option" where
  "scan_u s =
     (let s = dropWhile is_blank s;
          neg = (s \<noteq> [] \<and> hd s = CHR ''-'');
          s = (if s \<noteq> [] \<and> (hd s = CHR ''-'' \<or> hd s = CHR ''+'') then tl s else s);
          ds = takeWhile is_dec s;
          n = min (dec_value ds) (2 ^ 64 - 1) in
      if ds = [] then None
      else Some (if neg \<and> dec_value ds < 2 ^ 64 then - of_nat n else of_nat n, dropWhile is_dec s))"

section \<open>IPv4 addresses\<close>

text \<open>\<^verbatim>\<open>inet_pton\<close> accepts four decimal octets of one to three digits without leading zeros.\<close>

definition octet :: "string \<Rightarrow> u8 option" where
  "octet s = (if s \<noteq> [] \<and> list_all is_dec s \<and> length s \<le> 3 \<and> dec_value s < 256
                 \<and> (hd s = CHR ''0'' \<longrightarrow> length s = 1)
              then Some (of_nat (dec_value s)) else None)"

fun split_dot :: "string \<Rightarrow> string list" where
  "split_dot [] = [[]]"
| "split_dot (c # s) =
     (if c = CHR ''.'' then [] # split_dot s
      else case split_dot s of [] \<Rightarrow> [[c]] | t # ts \<Rightarrow> (c # t) # ts)"

definition inet_pton :: "string \<Rightarrow> u32 option" where
  "inet_pton s = (case split_dot s of
     [a, b, c, d] \<Rightarrow> do {
       a \<leftarrow> octet a; b \<leftarrow> octet b; c \<leftarrow> octet c; d \<leftarrow> octet d;
       Some (dec32 [a, b, c, d])
     }
   | _ \<Rightarrow> None)"

section \<open>Output\<close>

definition dec_char :: "nat \<Rightarrow> char" where
  "dec_char n = ''0123456789'' ! (n mod 10)"

fun show_nat :: "nat \<Rightarrow> string" where
  "show_nat n = (if n < 10 then [dec_char n] else show_nat (n div 10) @ [dec_char n])"

declare show_nat.simps [simp del] dec_digit.simps [simp del]

definition show_int :: "int \<Rightarrow> string" where
  "show_int i = (if i < 0 then ''-'' @ show_nat (nat (- i)) else show_nat (nat i))"

definition hex_char :: "nat \<Rightarrow> char" where
  "hex_char n = ''0123456789abcdef'' ! (n mod 16)"

definition show_hex2 :: "u8 \<Rightarrow> string" where
  "show_hex2 b = [hex_char (unat b div 16), hex_char (unat b)]"

section \<open>Printing and reading agree\<close>

lemma dec_value_snoc: "dec_value (s @ [c]) = 10 * dec_value s + dec_digit c"
  by (simp add: dec_value_def)

lemma dec_char_props: "dec_digit (dec_char n) = n mod 10" "is_dec (dec_char n)"
proof -
  have "\<forall>k\<in>set [0..<10]. dec_digit (''0123456789'' ! k) = k \<and> is_dec (''0123456789'' ! k)"
    by code_simp
  from bspec [OF this, of "n mod 10"] show "dec_digit (dec_char n) = n mod 10" "is_dec (dec_char n)"
    by (simp_all add: dec_char_def)
qed

lemma show_nat_props: "dec_value (show_nat n) = n \<and> list_all is_dec (show_nat n) \<and> show_nat n \<noteq> []"
proof (induction n rule: show_nat.induct)
  case (1 n)
  show ?case
    using 1 by (cases "n < 10")
      (simp_all add: show_nat.simps [of n] dec_value_snoc dec_char_props, simp add: dec_value_def dec_char_props)
qed

lemma show_nat_length: "n < 1000 \<Longrightarrow> length (show_nat n) \<le> 3"
proof -
  have one: "m < 10 \<Longrightarrow> length (show_nat m) \<le> 1" for m by (simp add: show_nat.simps)
  have two: "m < 100 \<Longrightarrow> length (show_nat m) \<le> 2" for m
    using one [of "m div 10"] by (simp add: show_nat.simps [of m])
  show "n < 1000 \<Longrightarrow> length (show_nat n) \<le> 3"
    using two [of "n div 10"] by (simp add: show_nat.simps [of n])
qed

lemma show_nat_leading: "n \<noteq> 0 \<Longrightarrow> hd (show_nat n) \<noteq> CHR ''0''"
proof (induction n rule: show_nat.induct)
  case (1 n)
  show ?case
  proof (cases "n < 10")
    case True
    then have "n \<in> {1, 2, 3, 4, 5, 6, 7, 8, 9}" using 1(2) by auto
    then show ?thesis by (auto simp: show_nat.simps [of n] dec_char_def)
  next
    case False
    then show ?thesis
      using 1 show_nat_props [of "n div 10"] by (simp add: show_nat.simps [of n])
  qed
qed

lemma octet_show: "octet (show_nat (unat b)) = Some b"
proof -
  have b: "unat b < 256" using unsigned_less [of b, where 'a = nat] by simp
  have "hd (show_nat (unat b)) = CHR ''0'' \<longrightarrow> length (show_nat (unat b)) = 1"
    using show_nat_leading [of "unat b"] by (cases "unat b = 0") (simp_all add: show_nat.simps)
  then show ?thesis
    using b show_nat_props [of "unat b"] show_nat_length [of "unat b"] by (simp add: octet_def)
qed

lemma no_dot: "list_all is_dec s \<Longrightarrow> split_dot (s @ CHR ''.'' # t) = s # split_dot t \<and> split_dot s = [s]"
  by (induction s) (auto simp: is_dec_def)

text \<open>What the conversions do on blank-separated input.\<close>

definition word_text :: "string \<Rightarrow> bool" where
  "word_text s \<longleftrightarrow> s \<noteq> [] \<and> list_all (\<lambda>c. \<not> is_blank c) s"

lemma dec_not_blank: "is_dec c \<Longrightarrow> \<not> is_blank c"
  by (auto simp: is_dec_def is_blank_def)

text \<open>An address that \<open>inet_pton\<close> accepts is a short word of digits and dots.\<close>

lemma split_dot_not_Nil [simp]: "split_dot s \<noteq> []"
  by (induction s) (auto split: list.split)

lemma split_dot_Cons:
  "split_dot s = t # ts \<Longrightarrow> ts = [] \<and> s = t \<or> (\<exists>r. s = t @ CHR ''.'' # r \<and> split_dot r = ts)"
proof (induction s arbitrary: t ts)
  case (Cons c s)
  show ?case
  proof (cases "c = CHR ''.''")
    case False
    with Cons.prems obtain u where "split_dot s = u # ts \<and> t = c # u \<or> split_dot s = [] \<and> t = [c] \<and> ts = []"
      by (auto split: list.splits)
    then show ?thesis using Cons.IH [of u ts] by auto
  qed (use Cons.prems in auto)
qed simp

lemma octet_text: "octet s = Some b \<Longrightarrow> s \<noteq> [] \<and> list_all is_dec s \<and> length s \<le> 3"
  by (auto simp: octet_def split: if_splits)

lemma inet_pton_text:
  assumes "inet_pton s = Some a"
  shows "word_text s \<and> hd s \<noteq> CHR ''#'' \<and> length s < 32"
proof -
  obtain p q r t where sp: "split_dot s = [p, q, r, t]" and oc: "octet p \<noteq> None" "octet q \<noteq> None" "octet r \<noteq> None" "octet t \<noteq> None"
    using assms by (auto simp: inet_pton_def split: list.splits Option.bind_splits)
  from split_dot_Cons [OF sp] obtain s1 where 1: "s = p @ CHR ''.'' # s1" "split_dot s1 = [q, r, t]" by auto
  from split_dot_Cons [OF 1(2)] obtain s2 where 2: "s1 = q @ CHR ''.'' # s2" "split_dot s2 = [r, t]" by auto
  from split_dot_Cons [OF 2(2)] obtain s3 where 3: "s2 = r @ CHR ''.'' # s3" "split_dot s3 = [t]" by auto
  from split_dot_Cons [OF 3(2)] have 4: "s3 = t" by auto
  have d: "p \<noteq> []" "list_all is_dec p" "list_all is_dec q" "list_all is_dec r" "list_all is_dec t"
    "length p \<le> 3" "length q \<le> 3" "length r \<le> 3" "length t \<le> 3"
    using oc octet_text by blast+
  then obtain c u where p: "p = c # u" "is_dec c" by (cases p) auto
  have "\<not> is_blank CHR ''.''" by (simp add: is_blank_def)
  then have "word_text s"
    using d by (auto simp: word_text_def 1 2 3 4 list_all_iff dec_not_blank)
  moreover have "hd s \<noteq> CHR ''#''" using p by (auto simp: 1 is_dec_def)
  moreover have "length s < 32" using d by (simp add: 1 2 3 4)
  ultimately show ?thesis by simp
qed

lemma scan_s_token:
  assumes "word_text tok" and "is_blank c"
  shows "scan_s (tok @ c # s) = Some (tok, c # s)" "scan_s (CHR '' '' # tok @ c # s) = Some (tok, c # s)"
proof -
  have t: "takeWhile (\<lambda>c. \<not> is_blank c) (tok @ c # s) = tok" "dropWhile (\<lambda>c. \<not> is_blank c) (tok @ c # s) = c # s"
    using assms by (simp_all add: word_text_def list_all_iff takeWhile_append2 dropWhile_append2)
  have d: "dropWhile is_blank (tok @ c # s) = tok @ c # s"
    using assms by (cases tok) (simp_all add: word_text_def)
  have b: "is_blank CHR '' ''" by (simp add: is_blank_def)
  show "scan_s (tok @ c # s) = Some (tok, c # s)" "scan_s (CHR '' '' # tok @ c # s) = Some (tok, c # s)"
    using assms by (simp_all add: scan_s_def Let_def t d b word_text_def)
qed

lemma scan_u_number:
  assumes "n < 2 ^ 64" and "\<not> is_dec c"
  shows "scan_u (CHR '' '' # show_nat n @ c # s) = Some (of_nat n, c # s)"
proof -
  have a: "list_all is_dec (show_nat n)" "show_nat n \<noteq> []" "dec_value (show_nat n) = n"
    using show_nat_props [of n] by simp_all
  then obtain x xs where x: "show_nat n = x # xs" by (cases "show_nat n") auto
  with a have dx: "is_dec x" by simp
  then have "x \<noteq> CHR ''-''" "x \<noteq> CHR ''+''" "\<not> is_blank x"
    by (auto simp: is_dec_def is_blank_def)
  moreover have "is_blank CHR '' ''" by (simp add: is_blank_def)
  moreover have "takeWhile is_dec (show_nat n @ c # s) = show_nat n" "dropWhile is_dec (show_nat n @ c # s) = c # s"
    using a assms by (simp_all add: list_all_iff takeWhile_append2 dropWhile_append2)
  ultimately show ?thesis
    using assms a x by (simp add: scan_u_def Let_def)
qed

end
