(* ===== verification/Firewall.thy ===== *)
theory Firewall
  imports CString SfcNode
begin

text \<open>
  The firewall function: the packet program \<open>fw\<close> of \<^verbatim>\<open>src/functions/firewall/firewall_kern.c\<close>
  and the rule file reader \<open>parse_rules\<close> of \<^verbatim>\<open>firewall_user.c\<close> that fills its \<^verbatim>\<open>rules\<close> map.
\<close>

section \<open>The packet program\<close>

text \<open>\<^verbatim>\<open>enum fw_action_t\<close> is an unsigned 32-bit number in the map, which may hold any value.\<close>

definition FW_ACTION_BLOCK :: u32 where "FW_ACTION_BLOCK = 1"
definition FW_ACTION_PASS :: u32 where "FW_ACTION_PASS = 2"

record fw_action =
  what :: u32

record fw_state =
  fw_egress :: "int \<rightharpoonup> int"
  rules :: "ip_5tuple \<rightharpoonup> fw_action"

definition fw_egress_decl :: bpf_elf_map where
  "fw_egress_decl = MAP BPF_MAP_TYPE_ARRAY 4 4 1 PIN_GLOBAL_NS"

definition rules_decl :: bpf_elf_map where
  "rules_decl = MAP BPF_MAP_TYPE_HASH 13 4 100 PIN_GLOBAL_NS"

definition fw_redirect :: "'e bpf_env_scheme \<Rightarrow> 's fw_state_scheme \<Rightarrow> int" where
  "fw_redirect E s = (case fw_egress s 0 of None \<Rightarrow> TC_ACT_SHOT | Some tx_port \<Rightarrow> redirect E tx_port 0)"

definition fw :: "'e bpf_env_scheme \<Rightarrow> 's fw_state_scheme \<Rightarrow> bytes \<Rightarrow> int option" where
  "fw E s data =
     (if sizeof_ethhdr + sizeof_iphdr > length data then Some TC_ACT_OK
      else do {
        eth_proto \<leftarrow> ld_h_proto data 0;
        if eth_proto \<noteq> bswap16 ETH_P_IP then Some TC_ACT_OK
        else do {
          (ret, key) \<leftarrow> get_tuple data sizeof_ethhdr zero_tuple;
          if ret < 0 then Some TC_ACT_OK
          else case rules s key of
            None \<Rightarrow> Some (fw_redirect E s)
          | Some action \<Rightarrow>
              (if what action = FW_ACTION_PASS then Some (fw_redirect E s)
               else if what action = FW_ACTION_BLOCK then Some TC_ACT_SHOT
               else Some TC_ACT_SHOT)
        }
      })"

section \<open>The rule file\<close>

text \<open>
  The local variables of \<open>parse_rules\<close>, which keep their values from one line to the next.
  A conversion that fails ends the \<^verbatim>\<open>sscanf\<close> and leaves the rest as they are; a token that does
  not fit its buffer (32, 32 and 8 bytes) is a write past the buffer, \<open>None\<close>.
\<close>

record rule_vars =
  v_saddr :: string
  v_daddr :: string
  v_action :: string
  v_tuple :: ip_5tuple

definition scan_rule :: "rule_vars \<Rightarrow> string \<Rightarrow> rule_vars option" where
  "scan_rule v s =
     (case scan_s s of None \<Rightarrow> Some v
      | Some (tok, s) \<Rightarrow> if length tok \<ge> 32 then None else let v = v\<lparr>v_saddr := tok\<rparr> in
     (case scan_s s of None \<Rightarrow> Some v
      | Some (tok, s) \<Rightarrow> if length tok \<ge> 32 then None else let v = v\<lparr>v_daddr := tok\<rparr> in
     (case scan_u s of None \<Rightarrow> Some v
      | Some (n, s) \<Rightarrow> let v = v\<lparr>v_tuple := (v_tuple v)\<lparr>sport := n\<rparr>\<rparr> in
     (case scan_u s of None \<Rightarrow> Some v
      | Some (n, s) \<Rightarrow> let v = v\<lparr>v_tuple := (v_tuple v)\<lparr>dport := n\<rparr>\<rparr> in
     (case scan_u s of None \<Rightarrow> Some v
      | Some (n, s) \<Rightarrow> let v = v\<lparr>v_tuple := (v_tuple v)\<lparr>proto := n\<rparr>\<rparr> in
     (case scan_s s of None \<Rightarrow> Some v
      | Some (tok, s) \<Rightarrow> if length tok \<ge> 8 then None else Some (v\<lparr>v_action := tok\<rparr>)))))))"

text \<open>\<^verbatim>\<open>inet_pton\<close> never returns -1 for \<^verbatim>\<open>AF_INET\<close>: an address it does not accept leaves the
  field as it is.\<close>

definition rule_addrs :: "rule_vars \<Rightarrow> rule_vars" where
  "rule_addrs v =
     (let v = (case inet_pton (v_saddr v) of None \<Rightarrow> v
               | Some a \<Rightarrow> v\<lparr>v_tuple := (v_tuple v)\<lparr>ip_src := a\<rparr>\<rparr>) in
      (case inet_pton (v_daddr v) of None \<Rightarrow> v
       | Some a \<Rightarrow> v\<lparr>v_tuple := (v_tuple v)\<lparr>ip_dst := a\<rparr>\<rparr>))"

definition rule_action :: "rule_vars \<Rightarrow> fw_action option" where
  "rule_action v =
     (if v_action v = ''drop'' then Some \<lparr>what = FW_ACTION_BLOCK\<rparr>
      else if v_action v = ''allow'' then Some \<lparr>what = FW_ACTION_PASS\<rparr>
      else None)"

text \<open>The loop over the pieces \<^verbatim>\<open>fgets\<close> returns (lines of up to 1023 bytes, never empty).\<close>

fun rules_loop ::
  "(ip_5tuple, fw_action) map_upd \<Rightarrow> rule_vars \<Rightarrow> (ip_5tuple \<rightharpoonup> fw_action) \<Rightarrow> string list
   \<Rightarrow> (ip_5tuple \<rightharpoonup> fw_action) option" where
  "rules_loop upd v m [] = Some m"
| "rules_loop upd v m (buf # lines) =
     (if buf ! 0 = CHR ''#'' \<or> buf ! 0 = CHR 0x0A then rules_loop upd v m lines
      else do {
        v \<leftarrow> scan_rule v buf;
        let v = rule_addrs v;
        case rule_action v of
          None \<Rightarrow> rules_loop upd v m lines
        | Some fwact \<Rightarrow> rules_loop upd v (snd (upd m (v_tuple v) fwact BPF_ANY)) lines
      })"

definition parse_rules ::
  "(ip_5tuple, fw_action) map_upd \<Rightarrow> rule_vars \<Rightarrow> (ip_5tuple \<rightharpoonup> fw_action) \<Rightarrow> string list option
   \<Rightarrow> (int \<times> (ip_5tuple \<rightharpoonup> fw_action)) option" where
  "parse_rules upd junk m file =
     (case file of None \<Rightarrow> Some (-1, m)
      | Some lines \<Rightarrow> do { m \<leftarrow> rules_loop upd junk m lines; Some (0, m) })"

section \<open>Lemmas\<close>

lemma fw_in_bounds: "in_bounds (fw E s p)"
  by (auto simp: fw_def intro!: inb split: option.split)

lemma fw_frame:
  assumes "p = ethhdr d sa ETH_P_IP @ body" and "get_tuple p 14 zero_tuple = Some (0, key)"
  shows "fw E s p = Some (case rules s key of
      None \<Rightarrow> fw_redirect E s
    | Some a \<Rightarrow> if what a = FW_ACTION_PASS then fw_redirect E s else TC_ACT_SHOT)"
proof -
  have "34 \<le> length p" using get_tuple_ok_length [OF assms(2)] by simp
  then show ?thesis using assms by (simp add: fw_def split: option.split)
qed

text \<open>A well-formed line: the fields of a rule as text, separated by blanks.\<close>

definition rule_line :: "string \<Rightarrow> string \<Rightarrow> nat \<Rightarrow> nat \<Rightarrow> nat \<Rightarrow> string \<Rightarrow> string" where
  "rule_line sa da sp dp pr act =
     sa @ '' '' @ da @ '' '' @ show_nat sp @ '' '' @ show_nat dp @ '' '' @ show_nat pr @ '' '' @ act @ ''\<newline>''"

lemma scan_rule_line:
  assumes "word_text sa" "word_text da" "word_text act"
    and "length sa < 32" "length da < 32" "length act < 8"
    and "sp < 2 ^ 64" "dp < 2 ^ 64" "pr < 2 ^ 64"
  shows "scan_rule v (rule_line sa da sp dp pr act) = Some (v\<lparr>v_saddr := sa, v_daddr := da, v_action := act,
      v_tuple := (v_tuple v)\<lparr>sport := of_nat sp, dport := of_nat dp, proto := of_nat pr\<rparr>\<rparr>)"
proof -
  have b: "is_blank CHR '' ''" "is_blank (CHR 0x0A)" "\<not> is_dec CHR '' ''"
    by (simp_all add: is_blank_def is_dec_def)
  note sc = scan_s_token [OF assms(1) b(1)] scan_s_token [OF assms(2) b(1)] scan_s_token [OF assms(3) b(2)]
    scan_u_number [OF assms(7) b(3)] scan_u_number [OF assms(8) b(3)] scan_u_number [OF assms(9) b(3)]
  show ?thesis
    using assms(4-6) by (simp add: scan_rule_def rule_line_def Let_def sc)
qed

lemma rule_line_not_comment:
  assumes "word_text sa" "hd sa \<noteq> CHR ''#''"
  shows "rule_line sa da sp dp pr act ! 0 \<noteq> CHR ''#''" "rule_line sa da sp dp pr act ! 0 \<noteq> CHR 0x0A"
  using assms by (cases sa; auto simp: rule_line_def word_text_def is_blank_def)+

lemma rules_loop_rule:
  assumes "word_text sa" "hd sa \<noteq> CHR ''#''" "word_text da" "length sa < 32" "length da < 32"
    and "sp < 2 ^ 64" "dp < 2 ^ 64" "pr < 2 ^ 64"
    and "inet_pton sa = Some a" "inet_pton da = Some b"
    and "act = ''drop'' \<and> fwact = \<lparr>what = FW_ACTION_BLOCK\<rparr> \<or> act = ''allow'' \<and> fwact = \<lparr>what = FW_ACTION_PASS\<rparr>"
  shows "\<exists>v'. rules_loop upd v m (rule_line sa da sp dp pr act # lines) = rules_loop upd v' (snd (upd m
     \<lparr>ip_src = a, ip_dst = b, sport = of_nat sp, dport = of_nat dp, proto = of_nat pr\<rparr> fwact BPF_ANY)) lines"
proof -
  have act: "word_text act" "length act < 8"
    using assms(11) by (auto simp: word_text_def is_blank_def)
  have t: "v_tuple v\<lparr>sport := x, dport := y, proto := z, ip_src := a, ip_dst := b\<rparr>
      = \<lparr>ip_src = a, ip_dst = b, sport = x, dport = y, proto = z\<rparr>" for x y z
    by (cases "v_tuple v") simp
  note scan = scan_rule_line [OF assms(1,3) act(1) assms(4,5) act(2) assms(6-8), of v]
  show ?thesis
    using assms(9-11) rule_line_not_comment [OF assms(1,2)]
    by (auto simp: scan rule_addrs_def rule_action_def Let_def t)
qed

lemma parse_rules_line:
  assumes "word_text sa" "hd sa \<noteq> CHR ''#''" "word_text da" "length sa < 32" "length da < 32"
    and "sp < 2 ^ 64" "dp < 2 ^ 64" "pr < 2 ^ 64"
    and "inet_pton sa = Some a" "inet_pton da = Some b"
    and "act = ''drop'' \<and> fwact = \<lparr>what = FW_ACTION_BLOCK\<rparr> \<or> act = ''allow'' \<and> fwact = \<lparr>what = FW_ACTION_PASS\<rparr>"
  shows "parse_rules upd v m (Some [rule_line sa da sp dp pr act]) = Some (0, snd (upd m
     \<lparr>ip_src = a, ip_dst = b, sport = of_nat sp, dport = of_nat dp, proto = of_nat pr\<rparr> fwact BPF_ANY))"
  using rules_loop_rule [OF assms, of upd v m "[]"] by (auto simp: parse_rules_def)

section \<open>What a rule file means\<close>














section \<open>Properties\<close>



text \<open>C22. The ports of the rule file end up in the map in the order of the host, those of a
  packet in network order: a line that drops the ports sp and dp drops the packets whose ports
  are the byte-swapped numbers, and lets the packets from sp to dp pass.\<close>

theorem rule_ports_swapped:
  assumes "map_update upd" "fst (upd Map.empty \<lparr>ip_src = a, ip_dst = b, sport = of_nat sp, dport = of_nat dp,
        proto = of_nat pr\<rparr> \<lparr>what = FW_ACTION_BLOCK\<rparr> BPF_ANY) = 0"
    and line: "word_text sa" "hd sa \<noteq> CHR ''#''" "word_text da" "length sa < 32" "length da < 32"
      "sp < 2 ^ 64" "dp < 2 ^ 64" "pr < 2 ^ 64" "inet_pton sa = Some a" "inet_pton da = Some b"
    and p: "p = ethhdr d s ETH_P_IP @ body"
    and key: "get_tuple p 14 zero_tuple = Some (0, \<lparr>ip_src = a, ip_dst = b, sport = bswap16 x,
      dport = bswap16 y, proto = of_nat pr\<rparr>)"
    and egress: "redirect E i 0 \<noteq> TC_ACT_SHOT"
  shows "\<exists>m. parse_rules upd v Map.empty (Some [rule_line sa da sp dp pr ''drop'']) = Some (0, m)
    \<and> (fw E \<lparr>fw_egress = [0 \<mapsto> i], rules = m\<rparr> p = Some TC_ACT_SHOT)
        = (x = bswap16 (of_nat sp) \<and> y = bswap16 (of_nat dp))"
proof -
  let ?k = "\<lparr>ip_src = a, ip_dst = b, sport = of_nat sp, dport = of_nat dp, proto = of_nat pr\<rparr>"
  let ?m = "[?k \<mapsto> \<lparr>what = FW_ACTION_BLOCK\<rparr>]"
  have r: "parse_rules upd v Map.empty (Some [rule_line sa da sp dp pr ''drop'']) = Some (0, ?m)"
    using parse_rules_line [OF line, of "''drop''" "\<lparr>what = FW_ACTION_BLOCK\<rparr>" upd v Map.empty]
      map_update.update_ok [OF assms(1,2)] by simp
  have sw: "(bswap16 x = n) = (x = bswap16 n)" for x n :: u16
    by (metis bswap16_bswap16)
  have "(fw E \<lparr>fw_egress = [0 \<mapsto> i], rules = ?m\<rparr> p = Some TC_ACT_SHOT)
        = (x = bswap16 (of_nat sp) \<and> y = bswap16 (of_nat dp))"
    using egress by (simp add: fw_frame [OF p key] fw_redirect_def FW_ACTION_BLOCK_def FW_ACTION_PASS_def sw)
  with r show ?thesis by blast
qed

text \<open>The line that should drop UDP from 10.10.10.1 port 1000 to 10.10.10.2 port 2000 does not.\<close>

definition sample_vars :: rule_vars where
  "sample_vars = \<lparr>v_saddr = [], v_daddr = [], v_action = [], v_tuple = zero_tuple\<rparr>"

theorem rule_ports_swapped_witness:
  "\<exists>m. parse_rules upd_roomy sample_vars Map.empty (Some [rule_line ''10.10.10.1'' ''10.10.10.2'' 1000 2000 17 ''drop''])
      = Some (0, m)
    \<and> fw sample_env \<lparr>fw_egress = [0 \<mapsto> 3], rules = m\<rparr> sample_inner \<noteq> Some TC_ACT_SHOT"
proof -
  have ip: "inet_pton ''10.10.10.1'' = Some 0x010A0A0A" "inet_pton ''10.10.10.2'' = Some 0x020A0A0A"
    by code_simp+
  have sw: "bswap16 1000 = 0xE803" "bswap16 2000 = 0xD007" by code_simp+
  have key: "get_tuple sample_inner 14 zero_tuple = Some (0, \<lparr>ip_src = 0x010A0A0A, ip_dst = 0x020A0A0A,
      sport = bswap16 1000, dport = bswap16 2000, proto = of_nat 17\<rparr>)"
    using sample_tuple by (simp add: sample_key_def sw)
  have "\<exists>m. parse_rules upd_roomy sample_vars Map.empty (Some [rule_line ''10.10.10.1'' ''10.10.10.2'' 1000 2000 17 ''drop''])
      = Some (0, m)
    \<and> (fw sample_env \<lparr>fw_egress = [0 \<mapsto> 3], rules = m\<rparr> sample_inner = Some TC_ACT_SHOT)
        = (1000 = bswap16 (of_nat 1000) \<and> 2000 = bswap16 (of_nat 2000))"
    by (rule rule_ports_swapped [OF _ _ _ _ _ _ _ _ _ _ ip sample_inner_def key])
       (simp_all add: sample_helpers upd_roomy_def word_text_def is_blank_def BPF_ANY_def BPF_NOEXIST_def
         sample_env_def TC_ACT_SHOT_def)
  then show ?thesis by (simp add: sw)
qed


end
