(* ===== verification/FlowMonitor.thy ===== *)
theory FlowMonitor
  imports SfcNode
begin

text \<open>
  \<^verbatim>\<open>src/functions/flow-monitor/flow_monitor_kern.c\<close>: a function that counts packets and bytes per
  flow and packet sizes in a histogram, then redirects the packets from one source address. The
  length of the packet, \<^verbatim>\<open>skb->len\<close>, is an argument of its own: it counts the whole packet, of
  which the program sees the linear part.
\<close>

definition HISTO_BUCKETS :: nat where "HISTO_BUCKETS = 24"

record flow_stats =
  pkts :: u64
  fbytes :: u64

record monitor_state = prog_state +
  flows :: "ip_5tuple \<rightharpoonup> flow_stats"
  szhist :: "u32 \<rightharpoonup> u64"
  egress_ifindex :: "int \<rightharpoonup> int"
  srcip :: "int \<rightharpoonup> u32"

record monitor_env = bpf_env +
  flow_elem_update :: "(ip_5tuple, flow_stats) map_upd"

definition flows_decl :: bpf_elf_map where
  "flows_decl = MAP BPF_MAP_TYPE_HASH 13 16 2048 PIN_GLOBAL_NS"

definition szhist_decl :: bpf_elf_map where
  "szhist_decl = MAP BPF_MAP_TYPE_ARRAY 4 8 HISTO_BUCKETS PIN_GLOBAL_NS"

text \<open>The two updates of the maps.\<close>

definition count_flow ::
  "'e monitor_env_scheme \<Rightarrow> ip_5tuple \<Rightarrow> u32 \<Rightarrow> (ip_5tuple \<rightharpoonup> flow_stats) \<Rightarrow> (ip_5tuple \<rightharpoonup> flow_stats)" where
  "count_flow E key len m =
     (case m key of
        Some sentry \<Rightarrow> m(key \<mapsto> sentry\<lparr>pkts := pkts sentry + 1, fbytes := fbytes sentry + ucast len\<rparr>)
      | None \<Rightarrow> snd (flow_elem_update E m key \<lparr>pkts = 1, fbytes = ucast len\<rparr> BPF_ANY))"

definition count_size :: "u32 \<Rightarrow> (u32 \<rightharpoonup> u64) \<Rightarrow> (u32 \<rightharpoonup> u64)" where
  "count_size len h =
     (let idx = len div 64 in
      case h idx of Some hentry \<Rightarrow> h(idx \<mapsto> hentry + 1) | None \<Rightarrow> h)"

definition flow_monitor ::
  "'e monitor_env_scheme \<Rightarrow> 's monitor_state_scheme \<Rightarrow> u32 \<Rightarrow> bytes \<Rightarrow> (int \<times> 's monitor_state_scheme) option" where
  "flow_monitor E s len data =
     (if sizeof_ethhdr + sizeof_iphdr > length data then Some (cb_retother E s TC_ACT_OK)
      else do {
        eth_proto \<leftarrow> ld_h_proto data 0;
        if bswap16 eth_proto \<noteq> ETH_P_IP then Some (cb_retother E s TC_ACT_OK)
        else do {
          (ret, key) \<leftarrow> get_tuple data sizeof_ethhdr zero_tuple;
          if ret < 0 then Some (cb_retother E s TC_ACT_OK)
          else let s = s\<lparr>flows := count_flow E key len (flows s)\<rparr>;
                   s = s\<lparr>szhist := count_size len (szhist s)\<rparr> in
            case egress_ifindex s 0 of
              None \<Rightarrow> Some (TC_ACT_OK, s)
            | Some ifindex \<Rightarrow>
                (case srcip s 0 of
                   None \<Rightarrow> Some (TC_ACT_OK, s)
                 | Some sip \<Rightarrow> do {
                     saddr \<leftarrow> ld_saddr data sizeof_ethhdr;
                     if sip \<noteq> saddr then Some (TC_ACT_OK, s)
                     else Some (redirect E ifindex 0, s)
                   })
        }
      })"

text \<open>A sequence of packets, each with its length.\<close>

fun monitor_all ::
  "'e monitor_env_scheme \<Rightarrow> 's monitor_state_scheme \<Rightarrow> (u32 \<times> bytes) list \<Rightarrow> 's monitor_state_scheme option" where
  "monitor_all E s [] = Some s"
| "monitor_all E s ((len, data) # ps) = do {
     (v, s) \<leftarrow> flow_monitor E s len data;
     monitor_all E s ps
   }"

section \<open>Lemmas\<close>

lemma bswap16_neq: "(bswap16 a \<noteq> b) = (a \<noteq> bswap16 b)"
  by (metis bswap16_bswap16)

lemma retother_monitor [simp]:
  "flows (snd (cb_retother E s c)) = flows s" "szhist (snd (cb_retother E s c)) = szhist s"
  by (simp_all add: cb_retother_def Let_def split: option.split)

lemma flow_monitor_counts:
  "\<exists>v s'. flow_monitor E s len p = Some (v, s')
    \<and> flows s' = (case flow_of p of None \<Rightarrow> flows s | Some key \<Rightarrow> count_flow E key len (flows s))
    \<and> szhist s' = (case flow_of p of None \<Rightarrow> szhist s | Some key \<Rightarrow> count_size len (szhist s))"
proof -
  obtain rc key where t: "get_tuple p 14 zero_tuple = Some (rc, key)"
    using get_tuple_total by blast
  have o: "\<exists>v s'. cb_retother E s TC_ACT_OK = (v, s') \<and> flows s' = flows s \<and> szhist s' = szhist s"
    using retother_monitor [of E s TC_ACT_OK] by (metis prod.collapse)
  from get_tuple_rc [OF t] o show ?thesis
    by (auto simp: flow_monitor_def flow_of_def t bswap16_neq Let_def split: option.split)
qed

text \<open>The packets of a flow in a sequence, and of a size class.\<close>

definition of_flow :: "ip_5tuple \<Rightarrow> (u32 \<times> bytes) list \<Rightarrow> (u32 \<times> bytes) list" where
  "of_flow k ps = filter (\<lambda>(len, p). flow_of p = Some k) ps"

definition of_size :: "u32 \<Rightarrow> (u32 \<times> bytes) list \<Rightarrow> (u32 \<times> bytes) list" where
  "of_size i ps = filter (\<lambda>(len, p). flow_of p \<noteq> None \<and> len div 64 = i) ps"

definition plus_flow :: "flow_stats option \<Rightarrow> (u32 \<times> bytes) list \<Rightarrow> flow_stats option" where
  "plus_flow st ps =
     (if ps = [] then st
      else let st = (case st of None \<Rightarrow> \<lparr>pkts = 0, fbytes = 0\<rparr> | Some st \<Rightarrow> st) in
        Some \<lparr>pkts = pkts st + of_nat (length ps), fbytes = fbytes st + (\<Sum>(len, p)\<leftarrow>ps. ucast len)\<rparr>)"

text \<open>The flows of a sequence, and those the map may have to hold: \<open>D\<close>, of at most as many keys
  as it has places.\<close>

definition flows_in :: "(u32 \<times> bytes) list \<Rightarrow> ip_5tuple set" where
  "flows_in ps = {k. \<exists>(len, p)\<in>set ps. flow_of p = Some k}"

lemma flows_in_simps [simp]:
  "flows_in [] = {}"
  "flows_in ((len, p) # ps) = (case flow_of p of None \<Rightarrow> flows_in ps | Some k \<Rightarrow> insert k (flows_in ps))"
  by (auto simp: flows_in_def split: option.split)

lemma finite_flows_in [simp]: "finite (flows_in ps)"
  by (induction ps) (auto split: option.split)

lemma count_flow_plus:
  assumes "map_room (flow_elem_update E) n" and "finite D" "card D \<le> n" and "dom m \<subseteq> D" "key \<in> D"
  shows "count_flow E key len m k = (if k = key then plus_flow (m k) [(len, p)] else m k)"
  using map_room.update_within [OF assms(1,4,5,2,3)]
  by (auto simp: count_flow_def plus_flow_def split: option.split)

lemma count_flow_dom:
  assumes "map_room (flow_elem_update E) n" and "finite D" "card D \<le> n" and "dom m \<subseteq> D" "key \<in> D"
  shows "dom (count_flow E key len m) \<subseteq> D"
  using map_room.update_within [OF assms(1,4,5,2,3)] assms(4,5)
  by (auto simp: count_flow_def split: option.splits if_splits)

lemma plus_flow_plus: "plus_flow (plus_flow st ps) qs = plus_flow st (ps @ qs)"
  by (auto simp: plus_flow_def Let_def add.assoc)

lemma monitor_all_counts:
  assumes "map_room (flow_elem_update E) n" and "finite D" "card D \<le> n"
    and "dom (flows s) \<subseteq> D" and "flows_in ps \<subseteq> D"
  shows "\<exists>s'. monitor_all E s ps = Some s'
    \<and> (\<forall>k. flows s' k = plus_flow (flows s k) (of_flow k ps))
    \<and> (\<forall>i. szhist s' i = map_option (\<lambda>n. n + of_nat (length (of_size i ps))) (szhist s i))"
  using assms(4,5)
proof (induction ps arbitrary: s)
  case Nil
  have "map_option (\<lambda>n. n) x = x" for x :: "u64 option" by (cases x) simp_all
  then show ?case by (simp add: of_flow_def of_size_def plus_flow_def)
next
  case (Cons a ps)
  obtain len p where a: "a = (len, p)" by (cases a)
  obtain v s1 where run: "flow_monitor E s len p = Some (v, s1)"
    and f: "flows s1 = (case flow_of p of None \<Rightarrow> flows s | Some key \<Rightarrow> count_flow E key len (flows s))"
    and h: "szhist s1 = (case flow_of p of None \<Rightarrow> szhist s | Some key \<Rightarrow> count_size len (szhist s))"
    using flow_monitor_counts by blast
  have D: "flow_of p = Some key \<Longrightarrow> key \<in> D" "flows_in ps \<subseteq> D" for key
    using Cons.prems(2) by (auto simp: a split: option.splits)
  have "dom (flows s1) \<subseteq> D"
    using count_flow_dom [OF assms(1-3) Cons.prems(1)] D(1) Cons.prems(1) unfolding f by (auto split: option.splits)
  then obtain s' where all: "monitor_all E s1 ps = Some s'"
    and f': "\<And>k. flows s' k = plus_flow (flows s1 k) (of_flow k ps)"
    and h': "\<And>i. szhist s' i = map_option (\<lambda>n. n + of_nat (length (of_size i ps))) (szhist s1 i)"
    using Cons.IH D(2) by blast
  have "flows s' k = plus_flow (flows s k) (of_flow k (a # ps))" for k
    unfolding f' f
    using count_flow_plus [OF assms(1-3) Cons.prems(1) D(1), of _ len k p]
    by (cases "flow_of p = Some k") (auto simp: a of_flow_def plus_flow_plus split: option.split)
  moreover have "szhist s' i = map_option (\<lambda>n. n + of_nat (length (of_size i (a # ps)))) (szhist s i)" for i
    unfolding h' h
    by (auto simp: a of_size_def count_size_def Let_def option.map_comp comp_def ac_simps split: option.split)
  ultimately show ?case using all run by (simp add: a)
qed

section \<open>Property\<close>

text \<open>C23. After any sequence of packets, the monitor has counted each flow's packets and their
  bytes exactly (in 64 bits), made an entry for the flows it had not seen, left the others alone,
  and counted in each histogram bucket that exists the packets of its size class. The condition is
  the size of the map: the flows already in it and those of the sequence are at most its 2048
  entries, and an update that finds room succeeds.\<close>

theorem monitor_counts_exactly:
  assumes "map_room (flow_elem_update E) 2048"
    and "finite (dom (flows s))" and "card (dom (flows s) \<union> {k. \<exists>(len, p)\<in>set ps. flow_of p = Some k}) \<le> 2048"
  shows "\<exists>s'. monitor_all E s ps = Some s'
    \<and> flows s' k = (let qs = filter (\<lambda>(len, p). flow_of p = Some k) ps in
        if qs = [] then flows s k
        else Some (let st = (case flows s k of None \<Rightarrow> \<lparr>pkts = 0, fbytes = 0\<rparr> | Some st \<Rightarrow> st) in
          \<lparr>pkts = pkts st + of_nat (length qs), fbytes = fbytes st + (\<Sum>(len, p)\<leftarrow>qs. ucast len)\<rparr>))
    \<and> szhist s' i = map_option
        (\<lambda>n. n + of_nat (length (filter (\<lambda>(len, p). flow_of p \<noteq> None \<and> len div 64 = i) ps))) (szhist s i)"
  using monitor_all_counts [OF assms(1) _ assms(3) Un_upper1, of ps] assms(2)
  unfolding flows_in_def [symmetric]
  by (auto simp: plus_flow_def of_flow_def of_size_def Let_def)

definition sample_monitor_env :: monitor_env where
  "sample_monitor_env = bpf_env.extend (bpf_env.truncate sample_env) \<lparr>flow_elem_update = upd_limited 2048\<rparr>"

definition sample_monitor :: monitor_state where
  "sample_monitor = \<lparr>prog_stats = Map.empty, flows = Map.empty, szhist = [0 \<mapsto> 0, 1 \<mapsto> 0],
     egress_ifindex = Map.empty, srcip = Map.empty\<rparr>"

theorem monitor_counts_exactly_witness:
  "\<exists>s'. monitor_all sample_monitor_env sample_monitor [(42, sample_inner), (100, sample_inner), (60, [1, 2])]
      = Some s'
    \<and> flows s' sample_key = Some \<lparr>pkts = 2, fbytes = 142\<rparr> \<and> szhist s' 1 = Some 1"
proof -
  have f: "flow_of sample_inner = Some sample_key" "flow_of [1, 2] = None"
    using sample_tuple sample_length by (simp_all add: flow_of_def sample_inner_def del: sample_length)
  have m: "map_room (flow_elem_update sample_monitor_env) 2048"
    using limited.map_room_axioms by (simp add: sample_monitor_env_def bpf_env.defs)
  have k: "{k. \<exists>(len, p)\<in>set [(42, sample_inner), (100, sample_inner), (60, [1, 2])]. flow_of p = Some k} = {sample_key}"
    by (auto simp: f)
  from monitor_counts_exactly [OF m, of sample_monitor
      "[(42, sample_inner), (100, sample_inner), (60, [1, 2])]" sample_key 1]
  show ?thesis unfolding k by (simp add: f sample_monitor_def)
qed

end
