(* ===== verification/Redirects.thy ===== *)
theory Redirects
  imports SfcNode
begin

text \<open>
  The functions that only forward: \<^verbatim>\<open>src/functions/tc-redirect/tc_bench01_redirect_kern.c\<close>,
  \<^verbatim>\<open>src/functions/xdp-redirect/xdp_redirect_map_kern.c\<close> and the user space forwarder
  \<^verbatim>\<open>src/functions/user-redirect/user-redirect.c\<close>.
\<close>

section \<open>Rewriting headers\<close>

text \<open>The MAC addresses are moved as three 16-bit words each.\<close>

definition swap_src_dst_mac :: "bytes \<Rightarrow> bytes option" where
  "swap_src_dst_mac p = do {
     dst0 \<leftarrow> ld16 p 0;
     dst1 \<leftarrow> ld16 p 2;
     dst2 \<leftarrow> ld16 p 4;
     p3 \<leftarrow> ld16 p 6;
     p \<leftarrow> st16 p 0 p3;
     p4 \<leftarrow> ld16 p 8;
     p \<leftarrow> st16 p 2 p4;
     p5 \<leftarrow> ld16 p 10;
     p \<leftarrow> st16 p 4 p5;
     p \<leftarrow> st16 p 6 dst0;
     p \<leftarrow> st16 p 8 dst1;
     st16 p 10 dst2
   }"

definition set_dst_mac :: "bytes \<Rightarrow> bytes \<Rightarrow> bytes option" where
  "set_dst_mac data mac = do {
     p0 \<leftarrow> ld16 mac 0;
     data \<leftarrow> st16 data 0 p0;
     p1 \<leftarrow> ld16 mac 2;
     data \<leftarrow> st16 data 2 p1;
     p2 \<leftarrow> ld16 mac 4;
     st16 data 4 p2
   }"

definition swap_src_dst_ip :: "bytes \<Rightarrow> nat \<Rightarrow> bytes option" where
  "swap_src_dst_ip p ip = do {
     aux \<leftarrow> ld_saddr p ip;
     daddr \<leftarrow> ld_daddr p ip;
     p \<leftarrow> st_saddr p ip daddr;
     st_daddr p ip aux
   }"

section \<open>The TC redirect\<close>

record info =
  i_srcip :: u32
  dstmac :: mac
  ops :: u8

definition SET_DST_MAC :: u8 where "SET_DST_MAC = 1"
definition SWAP_IP :: u8 where "SWAP_IP = 2"
definition SWAP_MAC :: u8 where "SWAP_MAC = 4"

record redirect_state =
  r_egress :: "int \<rightharpoonup> int"
  infomap :: "int \<rightharpoonup> info"

text \<open>The rewriting that \<^verbatim>\<open>info->ops\<close> asks for.\<close>

definition apply_ops :: "info \<Rightarrow> bytes \<Rightarrow> bytes option" where
  "apply_ops i data = do {
     data \<leftarrow> (if ops i AND SWAP_IP \<noteq> 0 then swap_src_dst_ip data sizeof_ethhdr else Some data);
     data \<leftarrow> (if ops i AND SWAP_MAC \<noteq> 0 then swap_src_dst_mac data else Some data);
     (if ops i AND SET_DST_MAC \<noteq> 0 then set_dst_mac data (enc_mac (dstmac i)) else Some data)
   }"

definition ingress_redirect ::
  "'e bpf_env_scheme \<Rightarrow> 's redirect_state_scheme \<Rightarrow> bytes \<Rightarrow> (int \<times> bytes) option" where
  "ingress_redirect E s data =
     (if sizeof_ethhdr > length data then Some (TC_ACT_OK, data)
      else do {
        eth_proto \<leftarrow> ld_h_proto data 0;
        if eth_proto = bswap16 ETH_P_ARP then Some (TC_ACT_OK, data)
        else case r_egress s 0 of
          None \<Rightarrow> Some (TC_ACT_OK, data)
        | Some ifindex \<Rightarrow>
            let ip = sizeof_ethhdr in
            if ip + sizeof_iphdr > length data then Some (TC_ACT_OK, data)
            else case infomap s 0 of
              None \<Rightarrow> Some (TC_ACT_OK, data)
            | Some info \<Rightarrow> do {
                let sip = i_srcip info;
                saddr \<leftarrow> ld_saddr data ip;
                if sip \<noteq> 0 \<and> sip \<noteq> saddr then Some (TC_ACT_OK, data)
                else do {
                  data \<leftarrow> apply_ops info data;
                  Some (redirect E ifindex 0, data)
                }
              }
      })"

section \<open>The XDP redirect\<close>

text \<open>\<open>redirect_map\<close> is the helper: the virtual port and the flags, to the verdict. The counter
  is a \<^verbatim>\<open>long\<close>.\<close>

definition xdp_redirect_map_prog ::
  "(int \<Rightarrow> u64 \<Rightarrow> int) \<Rightarrow> (u32 \<rightharpoonup> u64) \<Rightarrow> bytes \<Rightarrow> ((int \<times> (u32 \<rightharpoonup> u64)) \<times> bytes) option" where
  "xdp_redirect_map_prog redirect_map rxcnt data =
     (if sizeof_ethhdr > length data then Some ((XDP_DROP, rxcnt), data)
      else let vport = 0; key = 0;
               rxcnt = (case rxcnt key of Some v \<Rightarrow> rxcnt(key \<mapsto> v + 1) | None \<Rightarrow> rxcnt) in do {
        data \<leftarrow> swap_src_dst_mac data;
        Some ((redirect_map vport 0, rxcnt), data)
      })"

definition xdp_redirect_dummy_prog :: "bytes \<Rightarrow> int" where
  "xdp_redirect_dummy_prog data = XDP_PASS"

section \<open>The user space forwarder\<close>

text \<open>
  One turn of the loop of \<^verbatim>\<open>main\<close>: \<^verbatim>\<open>recv\<close> puts the bytes \<open>r\<close> it received at the start of the
  4096-byte buffer, \<open>None\<close> when it fails with -1; the bytes after them are those of earlier
  packets. The result is the buffer, the count and what \<^verbatim>\<open>send\<close> is given (\<^verbatim>\<open>recbytes\<close> of -1 makes
  it a length of \<open>2 ^ 64 - 1\<close>, an error of \<^verbatim>\<open>send\<close> that sends nothing).
\<close>

definition MAX_PKT_SIZE :: nat where "MAX_PKT_SIZE = 4096"

definition recv_into :: "bytes \<Rightarrow> bytes option \<Rightarrow> bytes" where
  "recv_into buf r = (case r of None \<Rightarrow> buf
     | Some bs \<Rightarrow> take MAX_PKT_SIZE bs @ drop (length (take MAX_PKT_SIZE bs)) buf)"

definition forward_turn ::
  "u32 \<Rightarrow> bytes \<times> nat \<Rightarrow> bytes option \<Rightarrow> ((bytes \<times> nat) \<times> bytes option) option" where
  "forward_turn filterip st r =
     (case st of (buf, pkt_count) \<Rightarrow>
      let packet = recv_into buf r in do {
        h_proto \<leftarrow> ld_h_proto packet 0;
        if h_proto = bswap16 ETH_P_IP then do {
          saddr \<leftarrow> ld_saddr packet sizeof_ethhdr;
          if saddr = filterip then
            Some ((packet, pkt_count + 1),
                  map_option (\<lambda>bs. take (length (take MAX_PKT_SIZE bs)) packet) r)
          else Some ((packet, pkt_count), None)
        } else Some ((packet, pkt_count), None)
      })"

fun forward_all ::
  "u32 \<Rightarrow> bytes \<times> nat \<Rightarrow> bytes option list \<Rightarrow> ((bytes \<times> nat) \<times> bytes list) option" where
  "forward_all filterip st [] = Some (st, [])"
| "forward_all filterip st (r # rs) = do {
     (st, sent) \<leftarrow> forward_turn filterip st r;
     (st, out) \<leftarrow> forward_all filterip st rs;
     Some (st, (case sent of None \<Rightarrow> out | Some bs \<Rightarrow> bs # out))
   }"

section \<open>Lemmas\<close>

lemma swap_src_dst_mac_frame: "swap_src_dst_mac (ethhdr d s p @ r) = Some (ethhdr s d p @ r)"
  by (cases d; cases s) (simp add: swap_src_dst_mac_def ethhdr_def st_obj_in enc16_dec16)

lemma set_dst_mac_frame: "set_dst_mac (ethhdr d s p @ r) (enc_mac m) = Some (ethhdr m s p @ r)"
  by (cases d; cases m) (simp add: set_dst_mac_def ethhdr_def st_obj_in enc16_dec16)

lemma frame_split:
  assumes "14 \<le> length p"
  obtains d s t r where "p = ethhdr d s t @ r"
  using ethhdr_split [of "take 14 p"] assms append_take_drop_id [of 14 p] by (metis length_take min.absorb2)

lemma swap_src_dst_ip_frame:
  assumes "length e = 14" and "length pre = 12"
  shows "swap_src_dst_ip (e @ pre @ enc32 sa @ enc32 da @ r) 14 = Some (e @ pre @ enc32 da @ enc32 sa @ r)"
  using assms by (simp add: swap_src_dst_ip_def st_obj_in)

lemma in_bounds_swap_ip [inb]: "34 \<le> length p \<Longrightarrow> in_bounds (swap_src_dst_ip p 14)"
  by (simp add: swap_src_dst_ip_def st_obj_in)

lemma redirect_in_bounds: "in_bounds (ingress_redirect E s p)"
proof -
  have mac: "in_bounds (swap_src_dst_mac q)" "in_bounds (set_dst_mac q (enc_mac m))" if "14 \<le> length q" for q m
    by (rule frame_split [OF that], simp add: swap_src_dst_mac_frame set_dst_mac_frame)+
  have len: "swap_src_dst_mac q = Some q' \<Longrightarrow> length q' = length q" if "14 \<le> length q" for q q'
    by (rule frame_split [OF that]) (auto simp: swap_src_dst_mac_frame)
  have ip: "\<exists>q'. swap_src_dst_ip q 14 = Some q' \<and> length q' = length q" if "34 \<le> length q" for q
    using that by (simp add: swap_src_dst_ip_def st_obj_in)
  have ops: "in_bounds (apply_ops i q)" if q: "34 \<le> length q" for i q
  proof -
    obtain q1 where "(if ops i AND SWAP_IP \<noteq> 0 then swap_src_dst_ip q 14 else Some q) = Some q1" "length q1 = length q"
      using ip [OF q] by (cases "ops i AND SWAP_IP = 0") auto
    moreover obtain q2 where "(if ops i AND SWAP_MAC \<noteq> 0 then swap_src_dst_mac q1 else Some q1) = Some q2"
        "length q2 = length q"
      using in_boundsD [OF mac(1) [of q1]] len [of q1] q calculation
      by (cases "ops i AND SWAP_MAC = 0") auto
    ultimately show ?thesis using mac(2) [of q2] q by (auto simp: apply_ops_def)
  qed
  show ?thesis
    by (auto simp: ingress_redirect_def Let_def intro!: inb ops split: option.split)
qed

lemma apply_ops_frame:
  assumes "length pre = 12"
  shows "apply_ops i (ethhdr d s t @ pre @ enc32 sa @ enc32 da @ r) =
    Some (ethhdr (if ops i AND SET_DST_MAC \<noteq> 0 then dstmac i else if ops i AND SWAP_MAC \<noteq> 0 then s else d)
        (if ops i AND SWAP_MAC \<noteq> 0 then d else s) t
      @ pre @ (if ops i AND SWAP_IP \<noteq> 0 then enc32 da @ enc32 sa else enc32 sa @ enc32 da) @ r)"
  using assms swap_src_dst_ip_frame [of "ethhdr d s t" pre sa da r]
  by (simp add: apply_ops_def swap_src_dst_mac_frame set_dst_mac_frame)

lemma length_recv_into:
  "length buf = 4096 \<Longrightarrow> length (recv_into buf r) = 4096"
  by (auto simp: recv_into_def MAX_PKT_SIZE_def split: option.split)

section \<open>Properties\<close>

text \<open>C24. The TC redirect: a packet other than ARP whose source address passes the filter is
  redirected, its IP addresses swapped if \<open>SWAP_IP\<close> is set, its MAC addresses if \<open>SWAP_MAC\<close>
  is, and then its destination MAC address replaced if \<open>SET_DST_MAC\<close> is; any other packet
  passes unchanged.\<close>

theorem ingress_redirect_rewrites:
  assumes pre: "length pre = 12" and s: "r_egress st 0 = Some ifindex" "infomap st 0 = Some i"
  shows "ingress_redirect E st (ethhdr d s t @ pre @ enc32 sa @ enc32 da @ r) =
    Some (if t = ETH_P_ARP \<or> i_srcip i \<noteq> 0 \<and> i_srcip i \<noteq> sa
      then (TC_ACT_OK, ethhdr d s t @ pre @ enc32 sa @ enc32 da @ r)
      else (redirect E ifindex 0,
        ethhdr (if ops i AND SET_DST_MAC \<noteq> 0 then dstmac i else if ops i AND SWAP_MAC \<noteq> 0 then s else d)
          (if ops i AND SWAP_MAC \<noteq> 0 then d else s) t
        @ pre @ (if ops i AND SWAP_IP \<noteq> 0 then enc32 da @ enc32 sa else enc32 sa @ enc32 da) @ r))"
  using assms by (simp add: ingress_redirect_def apply_ops_frame Let_def)

theorem ingress_redirect_rewrites_witness:
  "ingress_redirect sample_env \<lparr>r_egress = [0 \<mapsto> 3], infomap = [0 \<mapsto> \<lparr>i_srcip = 0, dstmac = mac_a, ops = 6\<rparr>]\<rparr>
     (ethhdr mac_c mac_b ETH_P_IP @ replicate 12 0 @ enc32 1 @ enc32 2 @ [])
   = Some (7, ethhdr mac_b mac_c ETH_P_IP @ replicate 12 0 @ enc32 2 @ enc32 1 @ [])"
  using ingress_redirect_rewrites [of "replicate 12 0"
      "\<lparr>r_egress = [0 \<mapsto> 3], infomap = [0 \<mapsto> \<lparr>i_srcip = 0, dstmac = mac_a, ops = 6\<rparr>]\<rparr>" 3
      "\<lparr>i_srcip = 0, dstmac = mac_a, ops = 6\<rparr>" sample_env mac_c mac_b ETH_P_IP 1 2 "[]"]
  by (simp add: proto_defs sample_env_def SET_DST_MAC_def SWAP_MAC_def SWAP_IP_def)

text \<open>C25. The user space forwarder, on packets that have all of their Ethernet and IPv4 headers
  and fit its buffer: it sends exactly the IPv4 packets from the filtered address, unchanged and
  in order, and counts them.\<close>

theorem forward_all_filters:
  assumes "length buf = 4096" and "\<forall>bs\<in>set ps. 34 \<le> length bs \<and> length bs \<le> 4096"
  shows "\<exists>buf'. forward_all ip (buf, n) (map Some ps) =
      Some ((buf', n + length (filter (\<lambda>bs. dec16 (take 2 (drop 12 bs)) = bswap16 ETH_P_IP
               \<and> dec32 (take 4 (drop 26 bs)) = ip) ps)),
        filter (\<lambda>bs. dec16 (take 2 (drop 12 bs)) = bswap16 ETH_P_IP \<and> dec32 (take 4 (drop 26 bs)) = ip) ps)"
  using assms
proof (induction ps arbitrary: buf n)
  case (Cons p ps)
  let ?q = "p @ drop (length p) buf"
  have p: "34 \<le> length p" "length p \<le> 4096" using Cons.prems by simp_all
  have q: "recv_into buf (Some p) = ?q" "length ?q = 4096"
    using p Cons.prems by (simp_all add: recv_into_def MAX_PKT_SIZE_def)
  have turn: "forward_turn ip (buf, n) (Some p) =
    (if dec16 (take 2 (drop 12 p)) = bswap16 ETH_P_IP \<and> dec32 (take 4 (drop 26 p)) = ip
     then Some ((?q, n + 1), Some p) else Some ((?q, n), None))"
    using p by (simp add: forward_turn_def q Let_def MAX_PKT_SIZE_def)
  show ?case
    using Cons.IH [OF q(2), of n] Cons.IH [OF q(2), of "n + 1"] Cons.prems(2)
    by (auto simp: turn)
qed simp

definition sample_buf :: bytes where
  "sample_buf = replicate 4096 0"

definition sample_other :: bytes where
  "sample_other = replicate 60 0"

theorem forward_all_filters_witness:
  "\<exists>buf'. forward_all 0x010A0A0A (sample_buf, 0) (map Some [sample_inner, sample_other])
    = Some ((buf', 1), [sample_inner])"
proof -
  have l: "length sample_buf = 4096" "length sample_other = 60"
    by (simp_all add: sample_buf_def sample_other_def)
  have i: "dec16 (take 2 (drop 12 sample_inner)) = bswap16 ETH_P_IP"
    by (simp add: sample_inner_def)
  have a: "dec32 (take 4 (drop 26 sample_inner)) = 0x010A0A0A"
    by (simp add: sample_inner_def sample_udp_def dec32_def)
  have o: "dec16 (take 2 (drop 12 sample_other)) \<noteq> bswap16 ETH_P_IP"
    by code_simp
  show ?thesis
    using forward_all_filters [OF l(1), of "[sample_inner, sample_other]" "0x010A0A0A" 0] l i a o
    by simp
qed

text \<open>A shorter packet is judged by the bytes an earlier packet left in the buffer: after a packet
  from the filtered address, a fragment of up to 12 bytes is forwarded as well.\<close>

lemma forward_stale:
  assumes "length buf = 4096" "dec16 (take 2 (drop 12 buf)) = bswap16 ETH_P_IP"
    and "dec32 (take 4 (drop 26 buf)) = ip" "length bs \<le> 12"
  shows "forward_turn ip (buf, n) (Some bs) = Some ((bs @ drop (length bs) buf, n + 1), Some bs)"
proof -
  let ?q = "bs @ drop (length bs) buf"
  have "drop 12 ?q = drop 12 buf" "drop 26 ?q = drop 26 buf"
    using assms(4) by simp_all
  then have "ld_h_proto ?q 0 = Some (bswap16 ETH_P_IP)" "ld_saddr ?q 14 = Some ip"
    using assms by simp_all
  then show ?thesis
    using assms(1,4) by (simp add: forward_turn_def recv_into_def MAX_PKT_SIZE_def Let_def)
qed

end
