(* ===== verification/KefirFirewall.thy ===== *)
theory KefirFirewall
  imports SfcNode
begin

text \<open>
  \<^verbatim>\<open>src/functions/firewall/firewall-libkefir/firewall_kern.c\<close>: a packet filter over a table of
  two rules of five matches each. \<open>extract_key\<close> reads the header fields behind at most two VLAN
  tags, \<open>check_nth_rule\<close> compares them with a rule, and the first rule that matches decides; a
  packet that no rule matches passes. The table is an array map, so a rule that was never written
  is all zero.
\<close>

section \<open>Data\<close>

record filter_key =
  ethertype :: u16
  processed_l4 :: u8
  ipv4_src :: u32
  ipv4_dst :: u32
  l4proto :: u16
  l4port_src :: u16
  l4port_dst :: u16

text \<open>The enums are kept as the numbers that the map's values hold.\<close>

definition MATCH_IPV4_SRC :: u32 where "MATCH_IPV4_SRC = 5"
definition MATCH_IPV4_DST :: u32 where "MATCH_IPV4_DST = 6"
definition MATCH_IPV4_L4PROTO :: u32 where "MATCH_IPV4_L4PROTO = 10"
definition MATCH_IPV4_L4PORT_SRC :: u32 where "MATCH_IPV4_L4PORT_SRC = 12"
definition MATCH_IPV4_L4PORT_DST :: u32 where "MATCH_IPV4_L4PORT_DST = 13"
definition OPER_EQUAL :: u32 where "OPER_EQUAL = 0"
definition ACTION_CODE_DROP :: u32 where "ACTION_CODE_DROP = 0"
definition ACTION_CODE_PASS :: u32 where "ACTION_CODE_PASS = 1"
definition MATCH_FLAGS_USE_MASK :: u64 where "MATCH_FLAGS_USE_MASK = 1"
definition RET_PASS :: int where "RET_PASS = TC_ACT_OK"
definition RET_DROP :: int where "RET_DROP = TC_ACT_SHOT"
definition ETH_P_8021AD :: u16 where "ETH_P_8021AD = 0x88A8"

lemmas match_types = MATCH_IPV4_SRC_def MATCH_IPV4_DST_def MATCH_IPV4_L4PROTO_def
  MATCH_IPV4_L4PORT_SRC_def MATCH_IPV4_L4PORT_DST_def

record rule_match =
  match_type :: u32
  comp_operator :: u32
  m_value :: "u64 \<times> u64"
  m_flags :: u64
  mask :: "u64 \<times> u64"

record filter_rule =
  action_code :: u32
  matches :: "rule_match list"

record kefir_state =
  k_rules :: "u32 \<rightharpoonup> filter_rule"

definition k_rules_decl :: bpf_elf_map where
  "k_rules_decl = MAP BPF_MAP_TYPE_ARRAY 4 248 2 PIN_GLOBAL_NS"

text \<open>What an array map holds before it is written: a rule of zeros.\<close>

definition zero_match :: rule_match where
  "zero_match = \<lparr>match_type = 0, comp_operator = 0, m_value = (0, 0), m_flags = 0, mask = (0, 0)\<rparr>"

definition zero_rule :: filter_rule where
  "zero_rule = \<lparr>action_code = 0, matches = replicate 5 zero_match\<rparr>"

definition zero_key :: filter_key where
  "zero_key = \<lparr>ethertype = 0, processed_l4 = 0, ipv4_src = 0, ipv4_dst = 0, l4proto = 0,
     l4port_src = 0, l4port_dst = 0\<rparr>"

section \<open>Extracting the key\<close>

definition process_l4 :: "bytes \<Rightarrow> nat \<Rightarrow> filter_key \<Rightarrow> (int \<times> filter_key) option" where
  "process_l4 data l4_off key =
     (if l4_off + sizeof_tcphdr > length data then Some (0, key)
      else do {
        let key = key\<lparr>processed_l4 := 1\<rparr>;
        source \<leftarrow> ld_source data l4_off;
        let key = key\<lparr>l4port_src := source\<rparr>;
        dest \<leftarrow> ld_dest data l4_off;
        Some (0, key\<lparr>l4port_dst := dest\<rparr>)
      })"

definition process_ipv4 :: "bytes \<Rightarrow> nat \<Rightarrow> filter_key \<Rightarrow> (int \<times> filter_key) option" where
  "process_ipv4 data nh_off key =
     (if nh_off + sizeof_iphdr > length data then Some (-1, key)
      else do {
        ver_ihl \<leftarrow> ld_ver_ihl data nh_off;
        let hdr = 4 * unat (ver_ihl AND 0x0F);
        if nh_off + hdr > length data then Some (-1, key)
        else do {
          saddr \<leftarrow> ld_saddr data nh_off;
          daddr \<leftarrow> ld_daddr data nh_off;
          protocol \<leftarrow> ld_protocol data nh_off;
          let key = key\<lparr>ipv4_src := saddr, ipv4_dst := daddr, l4proto := ucast protocol\<rparr>;
          (ret, key) \<leftarrow> process_l4 data (nh_off + hdr) key;
          if ret \<noteq> 0 then Some (-1, key) else Some (0, key)
        }
      })"

text \<open>One turn of the unrolled VLAN loop; \<open>None\<close> inside is the early return of -1.\<close>

definition vlan_turn :: "bytes \<Rightarrow> nat \<times> filter_key \<Rightarrow> (nat \<times> filter_key) option option" where
  "vlan_turn data st = (case st of (nh_off, key) \<Rightarrow>
     if ethertype key = ETH_P_8021Q \<or> ethertype key = ETH_P_8021AD then
       (let nh_off = nh_off + 4 in
        if nh_off > length data then Some None
        else do {
          t \<leftarrow> ld16 data (nh_off - 2);
          Some (Some (nh_off, key\<lparr>ethertype := bswap16 t\<rparr>))
        })
     else Some (Some (nh_off, key)))"

definition extract_key :: "bytes \<Rightarrow> filter_key \<Rightarrow> (int \<times> filter_key) option" where
  "extract_key data key =
     (let nh_off = sizeof_ethhdr in
      if nh_off > length data then Some (-1, key)
      else do {
        h_proto \<leftarrow> ld_h_proto data 0;
        r1 \<leftarrow> vlan_turn data (nh_off, key\<lparr>ethertype := bswap16 h_proto\<rparr>);
        case r1 of
          None \<Rightarrow> Some (-1, key)
        | Some st \<Rightarrow> do {
            r2 \<leftarrow> vlan_turn data st;
            case r2 of
              None \<Rightarrow> Some (-1, key)
            | Some (nh_off, key) \<Rightarrow>
                if ethertype key = ETH_P_IP then do {
                  (ret, key) \<leftarrow> process_ipv4 data nh_off key;
                  Some (0, key)
                }
                else Some (0, key)
          }
      })"

section \<open>Matching\<close>

text \<open>\<open>matchval\<close> is the memory of the field: its \<open>matchlen\<close> bytes, copied over two zero words.\<close>

definition check_match :: "bytes \<Rightarrow> rule_match \<Rightarrow> bool" where
  "check_match matchval m =
     (let bs = matchval @ replicate (16 - length matchval) 0;
          use_mask = m_flags m AND MATCH_FLAGS_USE_MASK \<noteq> 0;
          copy0 = dec64 (take 8 bs) AND (if use_mask then fst (mask m) else 0xffffffffffffffff);
          copy1 = dec64 (drop 8 bs) AND (if use_mask then snd (mask m) else 0xffffffffffffffff) in
      if comp_operator m = OPER_EQUAL then
        (if copy0 \<noteq> fst (m_value m) then False
         else if length matchval > 8 \<and> copy1 \<noteq> snd (m_value m) then False
         else True)
      else False)"

definition get_retval :: "u32 \<Rightarrow> int" where
  "get_retval code =
     (if code = ACTION_CODE_DROP then RET_DROP
      else if code = ACTION_CODE_PASS then RET_PASS
      else RET_PASS)"

text \<open>The body of the loop over the matches: whether the rule still matches.\<close>

definition match_turn :: "filter_key \<Rightarrow> rule_match \<Rightarrow> bool \<Rightarrow> bool" where
  "match_turn key m does_match =
     (if match_type m = MATCH_IPV4_SRC then
        does_match \<and> ethertype key = ETH_P_IP \<and> check_match (enc32 (ipv4_src key)) m
      else if match_type m = MATCH_IPV4_DST then
        does_match \<and> ethertype key = ETH_P_IP \<and> check_match (enc32 (ipv4_dst key)) m
      else if match_type m = MATCH_IPV4_L4PROTO then
        does_match \<and> ethertype key = ETH_P_IP \<and> check_match (enc16 (l4proto key)) m
      else if match_type m = MATCH_IPV4_L4PORT_SRC then
        does_match \<and> ethertype key = ETH_P_IP \<and> processed_l4 key \<noteq> 0
          \<and> check_match (enc16 (l4port_src key)) m
      else if match_type m = MATCH_IPV4_L4PORT_DST then
        does_match \<and> ethertype key = ETH_P_IP \<and> processed_l4 key \<noteq> 0
          \<and> check_match (enc16 (l4port_dst key)) m
      else does_match)"

fun match_loop :: "filter_key \<Rightarrow> rule_match list \<Rightarrow> bool \<Rightarrow> bool" where
  "match_loop key [] does_match = does_match"
| "match_loop key (m # ms) does_match =
     (let does_match = match_turn key m does_match in
      if \<not> does_match then does_match else match_loop key ms does_match)"

text \<open>\<open>None\<close> is the return value 0, \<open>Some res\<close> is 1 with the result.\<close>

definition check_nth_rule :: "'s kefir_state_scheme \<Rightarrow> filter_key \<Rightarrow> u32 \<Rightarrow> int option" where
  "check_nth_rule s key n =
     (case k_rules s n of
        None \<Rightarrow> None
      | Some rule \<Rightarrow>
          if match_loop key (matches rule) True then Some (get_retval (action_code rule)) else None)"

definition cls_main :: "'s kefir_state_scheme \<Rightarrow> bytes \<Rightarrow> int option" where
  "cls_main s data = do {
     (ret, key) \<leftarrow> extract_key data zero_key;
     if ret \<noteq> 0 then Some RET_PASS
     else case check_nth_rule s key 0 of
       Some res \<Rightarrow> Some res
     | None \<Rightarrow> (case check_nth_rule s key 1 of Some res \<Rightarrow> Some res | None \<Rightarrow> Some RET_PASS)
   }"

section \<open>Lemmas\<close>

text \<open>The specification: a match selects a field and compares it under a mask.\<close>

definition mask_of :: "rule_match \<Rightarrow> u64" where
  "mask_of m = (if m_flags m AND 1 \<noteq> 0 then fst (mask m) else -1)"

definition field_of :: "filter_key \<Rightarrow> u32 \<Rightarrow> u64 option" where
  "field_of key t =
     (if t = MATCH_IPV4_SRC then Some (ucast (ipv4_src key))
      else if t = MATCH_IPV4_DST then Some (ucast (ipv4_dst key))
      else if t = MATCH_IPV4_L4PROTO then Some (ucast (l4proto key))
      else if t = MATCH_IPV4_L4PORT_SRC then Some (ucast (l4port_src key))
      else if t = MATCH_IPV4_L4PORT_DST then Some (ucast (l4port_dst key))
      else None)"

definition needs_ports :: "u32 \<Rightarrow> bool" where
  "needs_ports t \<longleftrightarrow> t = MATCH_IPV4_L4PORT_SRC \<or> t = MATCH_IPV4_L4PORT_DST"

definition match_holds :: "filter_key \<Rightarrow> rule_match \<Rightarrow> bool" where
  "match_holds key m = (case field_of key (match_type m) of
     None \<Rightarrow> True
   | Some v \<Rightarrow> ethertype key = ETH_P_IP \<and> (needs_ports (match_type m) \<longrightarrow> processed_l4 key \<noteq> 0)
       \<and> comp_operator m = OPER_EQUAL \<and> v AND mask_of m = fst (m_value m))"

definition kefir_decision :: "filter_rule list \<Rightarrow> filter_key \<Rightarrow> int" where
  "kefir_decision rs key = (case find (\<lambda>r. list_all (match_holds key) (matches r)) rs of
     None \<Rightarrow> RET_PASS
   | Some r \<Rightarrow> if action_code r = ACTION_CODE_DROP then RET_DROP else RET_PASS)"

lemma bit_u16_less: "bit h n \<Longrightarrow> n < 32" for h :: u16
  using bit_imp_le_length [of h n] by simp

lemma dec64_short:
  "dec64 (enc32 w @ replicate 4 0) = ucast w"
  "dec64 (enc16 h @ replicate 6 0) = ucast h"
proof -
  have 1: "enc32 w @ replicate 4 0 = enc32 w @ [0, 0, 0, 0]"
    and 2: "enc16 h @ replicate 6 0 = [byte_of 0 h, byte_of 1 h, 0, 0, 0, 0, 0, 0]"
    by (simp_all add: enc16_def numeral_eq_Suc)
  have z: "dec32 [0, 0, 0, 0] = 0" by (simp add: dec32_def)
  have h: "dec32 [byte_of 0 h, byte_of 1 h, 0, 0] = ucast h"
    by (rule bit_word_eqI) (auto simp: dec32_def byte_of_def bit_simps dest: bit_imp_le_length)
  show "dec64 (enc32 w @ replicate 4 0) = ucast w"
    by (simp only: 1) (simp add: dec64_def z)
  show "dec64 (enc16 h @ replicate 6 0) = ucast h"
    by (simp only: 2) (auto simp: dec64_def z h [simplified] bit_simps intro!: bit_word_eqI bit_u16_less)
qed

lemma and_ones: "w AND 18446744073709551615 = w" for w :: u64
proof -
  have "(18446744073709551615 :: u64) = -1" by simp
  then show ?thesis by (simp only: and.right_neutral)
qed

lemma check_match_short:
  assumes "length v \<le> 8" and "dec64 (v @ replicate (8 - length v) 0) = x"
  shows "check_match v m \<longleftrightarrow> comp_operator m = OPER_EQUAL \<and> x AND mask_of m = fst (m_value m)"
proof -
  have "dec64 (take 8 (v @ replicate (16 - length v) 0)) = x"
    using assms by simp
  then show ?thesis
    using assms(1) and_ones [of x]
    by (cases "m_flags m AND 1 = 0")
      (simp_all only: check_match_def Let_def MATCH_FLAGS_USE_MASK_def mask_of_def, auto)
qed

lemma check_match_field:
  "check_match (enc32 w) m \<longleftrightarrow> comp_operator m = OPER_EQUAL \<and> ucast w AND mask_of m = fst (m_value m)"
  "check_match (enc16 h) m \<longleftrightarrow> comp_operator m = OPER_EQUAL \<and> ucast h AND mask_of m = fst (m_value m)"
  by (rule check_match_short; simp add: dec64_short)+

lemma match_types_distinct [simp]:
  "MATCH_IPV4_DST \<noteq> MATCH_IPV4_SRC" "MATCH_IPV4_L4PROTO \<noteq> MATCH_IPV4_SRC"
  "MATCH_IPV4_L4PROTO \<noteq> MATCH_IPV4_DST" "MATCH_IPV4_L4PORT_SRC \<noteq> MATCH_IPV4_SRC"
  "MATCH_IPV4_L4PORT_SRC \<noteq> MATCH_IPV4_DST" "MATCH_IPV4_L4PORT_SRC \<noteq> MATCH_IPV4_L4PROTO"
  "MATCH_IPV4_L4PORT_DST \<noteq> MATCH_IPV4_SRC" "MATCH_IPV4_L4PORT_DST \<noteq> MATCH_IPV4_DST"
  "MATCH_IPV4_L4PORT_DST \<noteq> MATCH_IPV4_L4PROTO" "MATCH_IPV4_L4PORT_DST \<noteq> MATCH_IPV4_L4PORT_SRC"
  by (simp_all add: match_types)

lemma match_turn_holds: "match_turn key m b \<longleftrightarrow> b \<and> match_holds key m"
proof -
  let ?t = "match_type m"
  consider "?t = MATCH_IPV4_SRC" | "?t = MATCH_IPV4_DST" | "?t = MATCH_IPV4_L4PROTO"
    | "?t = MATCH_IPV4_L4PORT_SRC" | "?t = MATCH_IPV4_L4PORT_DST"
    | "?t \<notin> {MATCH_IPV4_SRC, MATCH_IPV4_DST, MATCH_IPV4_L4PROTO, MATCH_IPV4_L4PORT_SRC, MATCH_IPV4_L4PORT_DST}"
    by blast
  then show ?thesis
    by cases (simp_all add: match_turn_def match_holds_def field_of_def needs_ports_def check_match_field
        match_types_distinct [symmetric], blast?)
qed

lemma match_loop_holds: "match_loop key ms b \<longleftrightarrow> b \<and> list_all (match_holds key) ms"
proof (induction ms arbitrary: b)
  case (Cons m ms)
  show ?case by (cases b; cases "match_holds key m") (simp_all add: match_turn_holds Cons.IH)
qed simp

lemma check_nth_rule_holds:
  "k_rules s n = Some r \<Longrightarrow> check_nth_rule s key n =
     (if list_all (match_holds key) (matches r)
      then Some (if action_code r = ACTION_CODE_DROP then RET_DROP else RET_PASS) else None)"
  by (simp add: check_nth_rule_def match_loop_holds get_retval_def)

lemma cls_main_key:
  assumes "k_rules s 0 = Some r0" "k_rules s 1 = Some r1" and "extract_key data zero_key = Some (0, key)"
  shows "cls_main s data = Some (kefir_decision [r0, r1] key)"
  using assms by (simp add: cls_main_def kefir_decision_def check_nth_rule_holds)

lemma process_l4_in_bounds [inb]: "(\<And>k. in_bounds (f (0, k))) \<Longrightarrow> in_bounds (process_l4 data l4 key \<bind> f)"
  by (auto simp: process_l4_def in_bounds_def Let_def)

lemma process_ipv4_in_bounds: "in_bounds (process_ipv4 data nh key)"
  by (auto simp: process_ipv4_def Let_def intro!: inb)

lemma vlan_turn_in_bounds: "in_bounds (vlan_turn data st)"
  by (auto simp: vlan_turn_def Let_def intro!: inb split: prod.split)

lemma extract_key_in_bounds: "in_bounds (extract_key data key)"
  by (auto simp: extract_key_def Let_def intro!: inb vlan_turn_in_bounds process_ipv4_in_bounds
      split: option.split)

lemma cls_main_in_bounds: "in_bounds (cls_main s data)"
  by (auto simp: cls_main_def intro!: inb extract_key_in_bounds split: option.split)

text \<open>The key of an IPv4 packet, from its header and what follows it.\<close>

definition ip_key :: "bytes \<Rightarrow> bytes \<Rightarrow> filter_key" where
  "ip_key hdr l4 =
     \<lparr>ethertype = ETH_P_IP, processed_l4 = (if 20 \<le> length l4 then 1 else 0),
      ipv4_src = dec32 (take 4 (drop 12 hdr)), ipv4_dst = dec32 (take 4 (drop 16 hdr)),
      l4proto = ucast (dec8 (take 1 (drop 9 hdr))),
      l4port_src = (if 20 \<le> length l4 then dec16 (take 2 l4) else 0),
      l4port_dst = (if 20 \<le> length l4 then dec16 (take 2 (drop 2 l4)) else 0)\<rparr>"

text \<open>A layer 2 header with VLAN tags: each a tag protocol and the tag itself.\<close>

definition tagged :: "mac \<Rightarrow> mac \<Rightarrow> (u16 \<times> u16) list \<Rightarrow> u16 \<Rightarrow> bytes" where
  "tagged d s tags t = enc_mac d @ enc_mac s @
     concat (map (\<lambda>(tpid, tci). enc16 (bswap16 tpid) @ enc16 tci) tags) @ enc16 (bswap16 t)"

lemma process_ipv4_frame:
  assumes "length pre = nh" "length hdr = 4 * unat (dec8 (take 1 hdr) AND 0x0F)" "20 \<le> length hdr"
    and "key = zero_key\<lparr>ethertype := ETH_P_IP\<rparr>"
  shows "process_ipv4 (pre @ hdr @ l4) nh key = Some (0, ip_key hdr l4)"
  using assms
  by (auto simp: process_ipv4_def process_l4_def ip_key_def zero_key_def Let_def)

lemma extract_key_frame:
  assumes tags: "length tags \<le> 2" "\<forall>(tpid, tci)\<in>set tags. tpid = ETH_P_8021Q \<or> tpid = ETH_P_8021AD"
    and hdr: "length hdr = 4 * unat (dec8 (take 1 hdr) AND 0x0F)" "20 \<le> length hdr"
  shows "extract_key (tagged d s tags ETH_P_IP @ hdr @ l4) zero_key = Some (0, ip_key hdr l4)"
proof -
  note ip = process_ipv4_frame [OF _ hdr]
  have n: "ETH_P_IP \<noteq> ETH_P_8021Q" "ETH_P_IP \<noteq> ETH_P_8021AD"
    by (simp_all add: proto_defs ETH_P_8021AD_def)
  consider "tags = []" | a x where "tags = [(a, x)]" | a x b y where "tags = [(a, x), (b, y)]"
    using tags(1) by (cases tags; cases "tl tags") (auto simp: Suc_le_eq)
  then show ?thesis
  proof cases
    case 1
    then show ?thesis
      using ip [of "tagged d s [] ETH_P_IP" 14] n
      by (simp add: extract_key_def vlan_turn_def tagged_def Let_def)
  next
    case 2
    then show ?thesis
      using ip [of "tagged d s tags ETH_P_IP" 18] n tags(2)
      by (simp add: extract_key_def vlan_turn_def tagged_def Let_def)
  next
    case 3
    then show ?thesis
      using ip [of "tagged d s tags ETH_P_IP" 22] n tags(2)
      by (simp add: extract_key_def vlan_turn_def tagged_def Let_def)
  qed
qed

text \<open>A rule that was never written matches every packet that has a key, and its action code 0 is
  drop: until the table is filled, every frame with a whole layer 2 header is dropped, ARP and
  every other protocol included.\<close>

lemma zero_match_holds [simp]: "match_holds key zero_match"
  by (simp add: zero_match_def match_holds_def field_of_def match_types)

lemma zero_matches_hold [simp]: "list_all (match_holds key) (replicate n zero_match)"
  by (induction n) simp_all

lemma zero_rule_matches: "list_all (match_holds key) (matches zero_rule)"
  by (simp add: zero_rule_def)

lemma kefir_unwritten_drops:
  assumes "k_rules s 0 = Some zero_rule" and "14 \<le> length p"
    and "dec16 (take 2 (drop 12 p)) \<notin> {bswap16 ETH_P_8021Q, bswap16 ETH_P_8021AD}"
  shows "cls_main s p = Some RET_DROP"
proof -
  have n: "bswap16 (dec16 (take 2 (drop 12 p))) \<noteq> ETH_P_8021Q" "bswap16 (dec16 (take 2 (drop 12 p))) \<noteq> ETH_P_8021AD"
    using assms(3) by (metis bswap16_bswap16 insert_iff)+
  obtain key where "extract_key p zero_key = Some (0, key)"
    using in_boundsD [OF extract_key_in_bounds [of p zero_key]] assms(2) n
    by (auto simp: extract_key_def vlan_turn_def Let_def split: if_splits Option.bind_splits)
  then show ?thesis
    by (simp add: cls_main_def check_nth_rule_holds [OF assms(1)] zero_rule_matches)
       (simp add: zero_rule_def ACTION_CODE_DROP_def)
qed

section \<open>Property\<close>

text \<open>C34. The filter decides an IPv4 packet, behind up to two VLAN tags, by its first rule all of
  whose matches hold: a match holds when the field it names equals its value under its mask, and
  a port only when the packet has the 20 bytes of a TCP header behind the IP header, whatever its
  protocol. A packet that no rule matches passes.\<close>

theorem kefir_first_match:
  assumes "k_rules s 0 = Some r0" "k_rules s 1 = Some r1"
    and "length tags \<le> 2" "\<forall>(tpid, tci)\<in>set tags. tpid = ETH_P_8021Q \<or> tpid = ETH_P_8021AD"
    and "length hdr = 4 * unat (dec8 (take 1 hdr) AND 0x0F)" "20 \<le> length hdr"
  shows "cls_main s (tagged d sa tags ETH_P_IP @ hdr @ l4) =
    Some (case find (\<lambda>r. list_all (match_holds (ip_key hdr l4)) (matches r)) [r0, r1] of
        None \<Rightarrow> TC_ACT_OK
      | Some r \<Rightarrow> if action_code r = 0 then TC_ACT_SHOT else TC_ACT_OK)"
  using cls_main_key [OF assms(1,2) extract_key_frame [OF assms(3-6)], of d sa l4]
  by (simp only: kefir_decision_def RET_PASS_def RET_DROP_def ACTION_CODE_DROP_def)

text \<open>A rule that should drop the datagrams to port 2000, and one that drops what comes from
  10.10.10.0/24: the datagram has only the 8 bytes of a UDP header, so the first does not see
  its port and the second drops it.\<close>

definition port_rule :: filter_rule where
  "port_rule = \<lparr>action_code = 1, matches = \<lparr>match_type = 13, comp_operator = 0, m_value = (0xD007, 0),
     m_flags = 0, mask = (0, 0)\<rparr> # replicate 4 zero_match\<rparr>"

definition net_rule :: filter_rule where
  "net_rule = \<lparr>action_code = 0, matches = \<lparr>match_type = 5, comp_operator = 0, m_value = (0x0A0A0A, 0),
     m_flags = 1, mask = (0xFFFFFF, 0)\<rparr> # replicate 4 zero_match\<rparr>"

theorem kefir_first_match_witness:
  "cls_main \<lparr>k_rules = [0 \<mapsto> port_rule, 1 \<mapsto> net_rule]\<rparr>
     (tagged mac_a mac_b [(ETH_P_8021Q, 5)] ETH_P_IP @ take 20 sample_udp @ drop 20 sample_udp) = Some TC_ACT_SHOT"
proof -
  let ?s = "\<lparr>k_rules = [0 \<mapsto> port_rule, 1 \<mapsto> net_rule]\<rparr>"
  let ?k = "ip_key (take 20 sample_udp) (drop 20 sample_udp)"
  have k: "processed_l4 ?k = 0" "ipv4_src ?k = 0x010A0A0A" "ethertype ?k = ETH_P_IP"
    by (simp_all add: ip_key_def sample_udp_def dec32_def)
  have h: "length (take 20 sample_udp) = 4 * unat (dec8 (take 1 (take 20 sample_udp)) AND 0x0F)"
    "20 \<le> length (take 20 sample_udp)"
    by (simp_all add: sample_udp_def dec8_def)
  have 0: "\<not> list_all (match_holds ?k) (matches port_rule)"
    by (simp add: port_rule_def match_holds_def field_of_def needs_ports_def match_types k)
  have 1: "list_all (match_holds ?k) (matches net_rule)"
    by (simp add: net_rule_def) (simp add: match_holds_def field_of_def needs_ports_def mask_of_def
        match_types k OPER_EQUAL_def)
  have "action_code net_rule = 0" by (simp add: net_rule_def)
  then show ?thesis
    using kefir_first_match [OF _ _ _ _ h, of ?s port_rule net_rule "[(ETH_P_8021Q, 5)]" mac_a mac_b "drop 20 sample_udp"] 0 1
    by simp
qed

end
