(* ===== verification/Verdicts.thy ===== *)
theory Verdicts
  imports ServiceChain EncryptionTunnel L4lb Firewall FlowMonitor Redirects KefirFirewall
begin

text \<open>
  The verdicts of the packet programs, all of them together: what each program returns is a
  verdict of the hook it is attached to. \<open>gives V f r\<close> says that a run \<open>r\<close> which ends has its
  verdict, selected by \<open>f\<close>, in \<open>V\<close>; the rules follow the structure of a program.
\<close>

definition xdp_verdicts :: "int set" where
  "xdp_verdicts = {XDP_DROP, XDP_PASS, XDP_TX}"

definition tc_verdicts :: "int set" where
  "tc_verdicts = {TC_ACT_UNSPEC, TC_ACT_OK, TC_ACT_SHOT}"

text \<open>A TC program may also return what \<^verbatim>\<open>bpf_redirect\<close> returned.\<close>

definition tc_or_redirect :: "(int \<Rightarrow> u64 \<Rightarrow> int) \<Rightarrow> int set" where
  "tc_or_redirect R = tc_verdicts \<union> {v. \<exists>i. v = R i 0}"

named_theorems giv \<open>introduction rules for \<open>gives\<close>\<close>

definition gives :: "'v set \<Rightarrow> ('a \<Rightarrow> 'v) \<Rightarrow> 'a option \<Rightarrow> bool" where
  "gives V f r = (\<forall>x. r = Some x \<longrightarrow> f x \<in> V)"

lemma gives_Some [giv]: "f x \<in> V \<Longrightarrow> gives V f (Some x)"
  by (simp add: gives_def)

lemma gives_bind [giv]: "(\<And>x. gives V f (g x)) \<Longrightarrow> gives V f (r \<bind> g)"
  by (cases r) (simp_all add: gives_def)

lemma gives_if [giv]: "(b \<Longrightarrow> gives V f r) \<Longrightarrow> (\<not> b \<Longrightarrow> gives V f r') \<Longrightarrow> gives V f (if b then r else r')"
  by simp

lemma gives_case_option [giv]:
  "(\<And>x. gives V f (h x)) \<Longrightarrow> gives V f r \<Longrightarrow> gives V f (case y of None \<Rightarrow> r | Some x \<Rightarrow> h x)"
  by (cases y) simp_all

lemma gives_case_prod [giv]: "(\<And>a b. gives V f (h a b)) \<Longrightarrow> gives V f (case y of (a, b) \<Rightarrow> h a b)"
  by (cases y) simp

lemma gives_Let [giv]: "(\<And>x. gives V f (h x)) \<Longrightarrow> gives V f (let x = y in h x)"
  by simp

lemma gives_total: "gives V f r \<Longrightarrow> in_bounds r \<Longrightarrow> \<exists>x. r = Some x \<and> f x \<in> V"
  by (auto simp: gives_def in_bounds_def)

abbreviation run_verdict :: "(int \<times> 's) \<times> bytes \<Rightarrow> int" where
  "run_verdict r \<equiv> fst (fst r)"

lemmas verdict_sets = xdp_verdicts_def tc_verdicts_def tc_or_redirect_def verdict_defs

lemma decap_nsh_gives: "gives xdp_verdicts run_verdict (decap_nsh E s p)"
  unfolding decap_nsh_def decap_nsh_body_def
  by (intro giv) (simp_all add: verdict_sets)

lemma encap_nsh_gives: "gives tc_verdicts run_verdict (encap_nsh E s p)"
  unfolding encap_nsh_def encap_leave_def encap_push_def
  by (intro giv) (simp_all add: verdict_sets)

lemma sfc_forwarding_gives: "gives tc_verdicts run_verdict (sfc_forwarding E s p)"
  unfolding sfc_forwarding_def
  by (intro giv) (simp_all add: verdict_sets)

lemma classify_gives:
  "gives xdp_verdicts run_verdict (classify_tc XDP E s p)"
  "gives tc_verdicts run_verdict (classify_tc TC E s p)"
  unfolding classify_tc_def classify_push_def classify_fill_def
  by (intro giv; simp add: verdict_sets)+

lemma decap_ipip_gives: "gives xdp_verdicts fst (decap_ipip E p)"
  unfolding decap_ipip_def ping_reply_def
  by (intro giv) (simp_all add: verdict_sets)

lemma fw_gives: "gives (tc_or_redirect (redirect E)) (\<lambda>v. v) (fw E s p)"
  unfolding fw_def fw_redirect_def
  by (intro giv) (auto simp: verdict_sets split: option.split)

lemma loadbal_gives: "gives (tc_or_redirect (redirect E)) (\<lambda>v. v) (loadbal E s j p)"
  unfolding loadbal_def process_packet_def
  by (intro giv) (auto simp: verdict_sets)

lemma flow_monitor_gives: "gives (tc_or_redirect (redirect E)) fst (flow_monitor E s n p)"
  unfolding flow_monitor_def
  by (intro giv) (auto simp: verdict_sets)

lemma ingress_redirect_gives: "gives (tc_or_redirect (redirect E)) fst (ingress_redirect E s p)"
  unfolding ingress_redirect_def
  by (intro giv) (auto simp: verdict_sets)

lemma check_nth_rule_gives: "check_nth_rule s key n = Some v \<Longrightarrow> v \<in> tc_verdicts"
  by (auto simp: check_nth_rule_def get_retval_def RET_PASS_def RET_DROP_def verdict_sets
      split: option.splits if_splits)

lemma cls_main_gives: "gives tc_verdicts (\<lambda>v. v) (cls_main s p)"
proof -
  have "RET_PASS \<in> tc_verdicts" by (simp add: RET_PASS_def verdict_sets)
  then show ?thesis
    using check_nth_rule_gives
    by (auto simp: cls_main_def gives_def split: option.splits if_splits Option.bind_splits)
qed

lemma l4_payload_gives: "l4_payload p off pr = Some (Inl v) \<Longrightarrow> v \<in> tc_verdicts"
  by (auto simp: l4_payload_def Let_def verdict_sets split: if_splits Option.bind_splits)

lemma cha_gives: "gives (tc_or_redirect (redirect E)) fst (cha E s p)"
proof -
  have crypt: "gives (tc_or_redirect (redirect E)) fst (encap_crypt E s q off len)" for q off len
    unfolding encap_crypt_def by (intro giv) (auto simp: verdict_sets)
  have l4: "gives (tc_or_redirect (redirect E)) fst (l4_payload q off pr \<bind> (\<lambda>r. case r of
      Inl verdict \<Rightarrow> Some (verdict, q) | Inr nf \<Rightarrow> encap_crypt E s q nf len))" for q off pr len
    using crypt l4_payload_gives [of q off pr]
    by (cases "l4_payload q off pr") (auto simp: tc_or_redirect_def gives_def split: sum.split)
  have ip: "gives (tc_or_redirect (redirect E)) fst (parse_ip E s q off)" for q off
    unfolding parse_ip_def by (intro giv l4) (auto simp: verdict_sets)
  show ?thesis
    unfolding cha_def by (intro giv ip) (auto simp: verdict_sets)
qed

lemma xdp_redirect_in_bounds: "in_bounds (xdp_redirect_map_prog R m p)"
proof (cases "14 \<le> length p")
  case True
  then obtain d s t r where "p = ethhdr d s t @ r" by (rule frame_split)
  then show ?thesis by (simp add: xdp_redirect_map_prog_def swap_src_dst_mac_frame)
qed (simp add: xdp_redirect_map_prog_def)

lemma xdp_redirect_gives: "gives {v. v = XDP_DROP \<or> v = R 0 0} run_verdict (xdp_redirect_map_prog R m p)"
  unfolding xdp_redirect_map_prog_def Let_def by (intro giv) auto

lemma stages_bounds: "in_bounds (decap_nsh E s p)" "in_bounds (encap_nsh E s p)" "in_bounds (sfc_forwarding E s p)"
  using decap_nsh_total [of E s p] encap_nsh_total [of E s p] sfc_forwarding_total [of E s p]
  by (auto simp: in_bounds_def)

lemma flow_monitor_in_bounds: "in_bounds (flow_monitor E s n p)"
  using flow_monitor_counts [of E s n p] by (auto simp: in_bounds_def)

section \<open>The interface of a hook\<close>

text \<open>
  What a hook relies on when it calls a program: the program ends on every packet, with a verdict
  from a set the hook knows. It follows that a sequence of packets is handled to its end.
\<close>

fun handle_all :: "(bytes \<Rightarrow> 'r option) \<Rightarrow> bytes list \<Rightarrow> 'r list option" where
  "handle_all prog [] = Some []"
| "handle_all prog (p # ps) = do {
     r \<leftarrow> prog p;
     rs \<leftarrow> handle_all prog ps;
     Some (r # rs)
   }"

locale packet_program =
  fixes prog :: "bytes \<Rightarrow> 'r option" and verdict :: "'r \<Rightarrow> int" and V :: "int set"
  assumes ends: "\<exists>r. prog p = Some r \<and> verdict r \<in> V"
begin

lemma verdict_in: "prog p = Some r \<Longrightarrow> verdict r \<in> V"
  using ends [of p] by auto

lemma handle_all_ends: "\<exists>rs. handle_all prog ps = Some rs \<and> length rs = length ps \<and> (\<forall>r\<in>set rs. verdict r \<in> V)"
proof (induction ps)
  case (Cons p ps)
  then show ?case using ends [of p] by auto
qed simp

lemma weaker: "V \<subseteq> W \<Longrightarrow> packet_program prog verdict W"
  using ends by unfold_locales blast

end

lemma packet_programI: "(\<And>p. gives V f (prog p)) \<Longrightarrow> (\<And>p. in_bounds (prog p)) \<Longrightarrow> packet_program prog f V"
  by unfold_locales (rule gives_total)

interpretation decap: packet_program "decap_nsh E s" run_verdict xdp_verdicts for E s
  by (rule packet_programI [OF decap_nsh_gives stages_bounds(1)])

interpretation encap: packet_program "encap_nsh E s" run_verdict tc_verdicts for E s
  by (rule packet_programI [OF encap_nsh_gives stages_bounds(2)])

interpretation fwd: packet_program "sfc_forwarding E s" run_verdict tc_verdicts for E s
  by (rule packet_programI [OF sfc_forwarding_gives stages_bounds(3)])

interpretation xdp_classify: packet_program "classify_tc XDP E s" run_verdict xdp_verdicts for E s
  by (rule packet_programI [OF classify_gives(1) classify_tc_in_bounds])

interpretation tc_classify: packet_program "classify_tc TC E s" run_verdict tc_verdicts for E s
  by (rule packet_programI [OF classify_gives(2) classify_tc_in_bounds])

interpretation ipip: packet_program "decap_ipip E" fst xdp_verdicts for E
  by (rule packet_programI [OF decap_ipip_gives decap_ipip_in_bounds])

interpretation xdp_redirect: packet_program "xdp_redirect_map_prog R m" run_verdict "{v. v = XDP_DROP \<or> v = R 0 0}" for R m
  by (rule packet_programI [OF xdp_redirect_gives xdp_redirect_in_bounds])

interpretation kefir: packet_program "cls_main k" "\<lambda>v. v" tc_verdicts for k
  by (rule packet_programI [OF cls_main_gives cls_main_in_bounds])

interpretation firewall: packet_program "fw E s" "\<lambda>v. v" "tc_or_redirect (redirect E)" for E s
  by (rule packet_programI [OF fw_gives fw_in_bounds])

interpretation balancer: packet_program "loadbal E s j" "\<lambda>v. v" "tc_or_redirect (redirect E)" for E s j
  by (rule packet_programI [OF loadbal_gives loadbal_in_bounds])

interpretation encrypt: packet_program "cha E s" fst "tc_or_redirect (redirect E)" for E s
  by (rule packet_programI [OF cha_gives cha_in_bounds])

interpretation monitor: packet_program "flow_monitor E s n" fst "tc_or_redirect (redirect E)" for E s n
  by (rule packet_programI [OF flow_monitor_gives flow_monitor_in_bounds])

interpretation tc_redirect: packet_program "ingress_redirect E s" fst "tc_or_redirect (redirect E)" for E s
  by (rule packet_programI [OF ingress_redirect_gives redirect_in_bounds])

section \<open>Property\<close>

text \<open>C1. Every packet program ends on every packet, whatever its maps, the kernel helpers and the
  uninitialised memory hold, with a verdict that its hook knows: the XDP programs with drop, pass,
  transmit or the result of the map redirect, the TC programs with unspec, ok, shot or the result
  of a redirect.\<close>

theorem verdicts_typed:
  "(\<exists>r. decap_nsh E s p = Some r \<and> fst (fst r) \<in> {XDP_DROP, XDP_PASS, XDP_TX})
    \<and> (\<exists>r. classify_tc XDP E' c p = Some r \<and> fst (fst r) \<in> {XDP_DROP, XDP_PASS, XDP_TX})
    \<and> (\<exists>r. decap_ipip E' p = Some r \<and> fst r \<in> {XDP_DROP, XDP_PASS, XDP_TX})
    \<and> (\<exists>r. xdp_redirect_map_prog R rxcnt p = Some r \<and> fst (fst r) \<in> {XDP_DROP, R 0 0})
    \<and> (\<exists>r. encap_nsh E s p = Some r \<and> fst (fst r) \<in> {TC_ACT_UNSPEC, TC_ACT_OK, TC_ACT_SHOT})
    \<and> (\<exists>r. sfc_forwarding E s p = Some r \<and> fst (fst r) \<in> {TC_ACT_UNSPEC, TC_ACT_OK, TC_ACT_SHOT})
    \<and> (\<exists>r. classify_tc TC E' c p = Some r \<and> fst (fst r) \<in> {TC_ACT_UNSPEC, TC_ACT_OK, TC_ACT_SHOT})
    \<and> (\<exists>v. cls_main k p = Some v \<and> v \<in> {TC_ACT_UNSPEC, TC_ACT_OK, TC_ACT_SHOT})
    \<and> (\<exists>v. fw E' f p = Some v \<and> v \<in> tc_or_redirect (redirect E'))
    \<and> (\<exists>v. loadbal E' l junk p = Some v \<and> v \<in> tc_or_redirect (redirect E'))
    \<and> (\<exists>r. cha E' h p = Some r \<and> fst r \<in> tc_or_redirect (redirect E'))
    \<and> (\<exists>r. flow_monitor M m len p = Some r \<and> fst r \<in> tc_or_redirect (redirect M))
    \<and> (\<exists>r. ingress_redirect E' i p = Some r \<and> fst r \<in> tc_or_redirect (redirect E'))"
proof -
  have x: "{XDP_DROP, R 0 0} = {v. v = XDP_DROP \<or> v = R 0 0}" by auto
  show ?thesis
    unfolding xdp_verdicts_def [symmetric] tc_verdicts_def [symmetric] x
    by (intro conjI decap.ends xdp_classify.ends ipip.ends xdp_redirect.ends encap.ends fwd.ends
        tc_classify.ends kefir.ends firewall.ends balancer.ends encrypt.ends monitor.ends tc_redirect.ends)
qed

end
