(* ===== verification/Loader.thy ===== *)
theory Loader
  imports CString Firewall
begin

text \<open>
  User space: \<^verbatim>\<open>src/utils/sys_helpers.c\<close> and \<^verbatim>\<open>load_helpers.c\<close>, which run \<^verbatim>\<open>tc\<close> and \<^verbatim>\<open>ip\<close>
  commands, and the \<^verbatim>\<open>main\<close> functions of the encryption, load balancing and firewall functions,
  which attach the packet program and fill its maps. A command is its text; the state of the
  host is the list of the commands run so far, and the environment says what each returns. What
  the programs print is left out.
\<close>

section \<open>Running commands\<close>

definition CMD_MAX :: nat where "CMD_MAX = 2048"
definition IF_NAMESIZE :: nat where "IF_NAMESIZE = 16"

record host =
  cmds :: "string list"

text \<open>
  The system: the status \<^verbatim>\<open>system()\<close> returns for a command after those run before, the first
  line a \<^verbatim>\<open>popen()\<close>ed command prints, the index of an interface name (0 for none), the
  descriptor of a pinned map (negative for none), and whether a file exists.
\<close>

record sys_env =
  sys_system :: "string list \<Rightarrow> string \<Rightarrow> int"
  popen_line :: "string \<Rightarrow> string option"
  if_nametoindex :: "string \<Rightarrow> int"
  obj_get :: "string \<Rightarrow> int"
  stat_ok :: "string \<Rightarrow> bool"

text \<open>The wait status: the exit code is in bits 8 to 15.\<close>

definition WEXITSTATUS :: "int \<Rightarrow> int" where
  "WEXITSTATUS status = (status div 256) mod 256"

text \<open>\<^verbatim>\<open>vsprintf\<close> into a buffer of \<^verbatim>\<open>CMD_MAX\<close> bytes: a longer command is written past it.\<close>

definition runcmd :: "'e sys_env_scheme \<Rightarrow> string \<Rightarrow> 's host_scheme \<Rightarrow> (int \<times> 's host_scheme) option" where
  "runcmd E cmd s =
     (if length cmd \<ge> CMD_MAX then None
      else Some (sys_system E (cmds s) cmd, s\<lparr>cmds := cmds s @ [cmd]\<rparr>))"

definition is_alnum :: "char \<Rightarrow> bool" where
  "is_alnum c \<longleftrightarrow> c \<in> set ''ABCDEFGHIJKLMNOPQRSTUVWXYZabcdefghijklmnopqrstuvwxyz0123456789''"

text \<open>The output is the caller's buffer of \<^verbatim>\<open>IF_NAMESIZE\<close> characters; \<^verbatim>\<open>strncpy\<close> of exactly
  \<^verbatim>\<open>len\<close> characters writes no NUL.\<close>

definition validate_ifname :: "string \<Rightarrow> string \<Rightarrow> bool \<times> string" where
  "validate_ifname input output =
     (if length input \<ge> IF_NAMESIZE then (False, output)
      else if \<not> list_all is_alnum input then (False, output)
      else (True, input @ drop (length input) output))"

definition file_exists :: "'e sys_env_scheme \<Rightarrow> string \<Rightarrow> bool" where
  "file_exists E filename = stat_ok E filename"

text \<open>The text in a buffer: up to its first NUL.\<close>

definition c_text :: "string \<Rightarrow> string" where
  "c_text buf = takeWhile (\<lambda>c. c \<noteq> CHR 0x00) buf"

text \<open>What the parent of a process sees of the value its \<^verbatim>\<open>main\<close> returns.\<close>

definition exit_status :: "int \<Rightarrow> int" where
  "exit_status code = code mod 256"

section \<open>tc and ip\<close>

datatype tc_dir = INGRESS | EGRESS

primrec tc_dir2s :: "tc_dir \<Rightarrow> string" where
  "tc_dir2s INGRESS = ''ingress''"
| "tc_dir2s EGRESS = ''egress''"

definition tc_cmd :: string where "tc_cmd = ''tc''"

definition clsact_cmd :: "string \<Rightarrow> string" where
  "clsact_cmd dev = tc_cmd @ '' qdisc add dev '' @ dev @ '' clsact > /dev/null''"

definition attach_cmd :: "string \<Rightarrow> string \<Rightarrow> int \<Rightarrow> int \<Rightarrow> string \<Rightarrow> tc_dir \<Rightarrow> string" where
  "attach_cmd dev bpf_obj prio handle sec dir =
     tc_cmd @ '' filter add dev '' @ dev @ '' '' @ tc_dir2s dir @ '' pref '' @ show_int prio @
     '' handle '' @ show_int handle @ '' bpf da obj '' @ bpf_obj @ '' sec '' @ sec"

definition remove_cmd :: "string \<Rightarrow> tc_dir \<Rightarrow> string" where
  "remove_cmd dev dir = tc_cmd @ '' filter delete dev '' @ dev @ '' '' @ tc_dir2s dir"

definition tc_create_clsact :: "'e sys_env_scheme \<Rightarrow> string \<Rightarrow> 's host_scheme \<Rightarrow> (int \<times> 's host_scheme) option" where
  "tc_create_clsact E dev s = do {
     (ret, s) \<leftarrow> runcmd E (clsact_cmd dev) s;
     Some (WEXITSTATUS ret, s)
   }"

definition tc_attach_bpf ::
  "'e sys_env_scheme \<Rightarrow> string \<Rightarrow> string \<Rightarrow> int \<Rightarrow> int \<Rightarrow> string \<Rightarrow> tc_dir \<Rightarrow> 's host_scheme
   \<Rightarrow> (int \<times> 's host_scheme) option" where
  "tc_attach_bpf E dev bpf_obj prio handle sec dir s =
     runcmd E (attach_cmd dev bpf_obj prio handle sec dir) s"

definition tc_list_filter ::
  "'e sys_env_scheme \<Rightarrow> string \<Rightarrow> tc_dir \<Rightarrow> 's host_scheme \<Rightarrow> (int \<times> 's host_scheme) option" where
  "tc_list_filter E dev dir s = runcmd E (tc_cmd @ '' filter show dev '' @ dev @ '' '' @ tc_dir2s dir) s"

definition tc_remove_filter ::
  "'e sys_env_scheme \<Rightarrow> string \<Rightarrow> tc_dir \<Rightarrow> 's host_scheme \<Rightarrow> (int \<times> 's host_scheme) option" where
  "tc_remove_filter E dev dir s = runcmd E (remove_cmd dev dir) s"

definition atoi :: "string \<Rightarrow> int" where
  "atoi s =
     (let s = dropWhile is_blank s;
          neg = (s \<noteq> [] \<and> hd s = CHR ''-'');
          s = (if s \<noteq> [] \<and> (hd s = CHR ''-'' \<or> hd s = CHR ''+'') then tl s else s);
          n = int (dec_value (takeWhile is_dec s)) in if neg then - n else n)"

text \<open>\<^verbatim>\<open>snprintf\<close> cuts the command at 511 characters.\<close>

definition tc_get_prog_id :: "'e sys_env_scheme \<Rightarrow> string \<Rightarrow> string \<Rightarrow> int" where
  "tc_get_prog_id E dev secname =
     (let cmd = take 511 (''/sbin/tc filter show dev '' @ dev @ '' egress 2> /dev/null | grep '' @ secname @
                '' | grep -o -e '' @ [CHR 0x27] @ ''id [0-9]*'' @ [CHR 0x27] @ '' | awk '' @ [CHR 0x27] @
                ''{print $2}'' @ [CHR 0x27]) in
      case popen_line E cmd of None \<Rightarrow> -1 | Some output \<Rightarrow> atoi (take 127 output))"

definition xdp_add_cmd :: "string \<Rightarrow> string \<Rightarrow> string \<Rightarrow> string" where
  "xdp_add_cmd dev obj section = ''ip link set dev '' @ dev @ '' xdp obj '' @ obj @ '' sec '' @ section"

definition xdp_remove_cmd :: "string \<Rightarrow> string" where
  "xdp_remove_cmd dev = ''ip link set dev '' @ dev @ '' xdp off''"

definition xdp_add ::
  "'e sys_env_scheme \<Rightarrow> string \<Rightarrow> string \<Rightarrow> string \<Rightarrow> 's host_scheme \<Rightarrow> (int \<times> 's host_scheme) option" where
  "xdp_add E dev obj section s = runcmd E (xdp_add_cmd dev obj section) s"

definition xdp_remove :: "'e sys_env_scheme \<Rightarrow> string \<Rightarrow> 's host_scheme \<Rightarrow> (int \<times> 's host_scheme) option" where
  "xdp_remove E dev s = runcmd E (xdp_remove_cmd dev) s"

section \<open>The mains of the functions\<close>

text \<open>
  The three programs start alike: they check the number of arguments (one more than
  \<open>nargs\<close>), look up the two interfaces, create the qdisc and attach the program. \<open>Inl\<close> is the
  exit code of an early end, \<open>Inr\<close> the index of the egress interface.
\<close>

definition start_function ::
  "'e sys_env_scheme \<Rightarrow> nat \<Rightarrow> string \<Rightarrow> string list \<Rightarrow> 's host_scheme \<Rightarrow> ((int + int) \<times> 's host_scheme) option" where
  "start_function E nargs sec argv s =
     (let bpf_obj = take 255 (argv ! 0 @ ''_kern.o'') in
      if length argv \<noteq> nargs + 1 then Some (Inl 0, s)
      else let ingress = argv ! 1; egress = argv ! 2 in
      if if_nametoindex E ingress = 0 then Some (Inl 1, s)
      else if if_nametoindex E egress = 0 then Some (Inl 1, s)
      else do {
        (ret, s) \<leftarrow> tc_create_clsact E ingress s;
        if ret \<noteq> 0 \<and> ret \<noteq> 2 then Some (Inl 1, s)
        else do {
          (ret, s) \<leftarrow> tc_attach_bpf E ingress bpf_obj 1 1 sec INGRESS s;
          if ret \<noteq> 0 then do {
            (r, s) \<leftarrow> tc_remove_filter E ingress INGRESS s;
            Some (Inl ret, s)
          } else Some (Inr (if_nametoindex E egress), s)
        }
      })"

record func_state = host +
  f_egress :: "int \<rightharpoonup> int"

text \<open>Updating the pinned egress map through its descriptor.\<close>

definition set_egress ::
  "(int \<Rightarrow> (int, int) map_upd) \<Rightarrow> int \<Rightarrow> int \<Rightarrow> 's func_state_scheme \<Rightarrow> 's func_state_scheme" where
  "set_egress upd fd egress_ifindex s =
     (if egress_ifindex \<noteq> -1 then s\<lparr>f_egress := snd (upd fd (f_egress s) 0 egress_ifindex BPF_ANY)\<rparr> else s)"

definition function_main ::
  "'e sys_env_scheme \<Rightarrow> (int \<Rightarrow> (int, int) map_upd) \<Rightarrow> string \<Rightarrow> string \<Rightarrow> string list
   \<Rightarrow> 's func_state_scheme \<Rightarrow> (int \<times> 's func_state_scheme) option" where
  "function_main E upd sec mapfile argv s = do {
     (r, s) \<leftarrow> start_function E 2 sec argv s;
     case r of
       Inl code \<Rightarrow> Some (code, s)
     | Inr egress_ifindex \<Rightarrow> Some (0, set_egress upd (obj_get E mapfile) egress_ifindex s)
   }"

definition chacha_main ::
  "'e sys_env_scheme \<Rightarrow> (int \<Rightarrow> (int, int) map_upd) \<Rightarrow> string list \<Rightarrow> 's func_state_scheme
   \<Rightarrow> (int \<times> 's func_state_scheme) option" where
  "chacha_main E upd = function_main E upd ''chacha'' ''/sys/fs/bpf/tc/globals/chacha_egress''"

definition l4lb_main ::
  "'e sys_env_scheme \<Rightarrow> (int \<Rightarrow> (int, int) map_upd) \<Rightarrow> string list \<Rightarrow> 's func_state_scheme
   \<Rightarrow> (int \<times> 's func_state_scheme) option" where
  "l4lb_main E upd = function_main E upd ''l4lb'' ''/sys/fs/bpf/tc/globals/l4lb_egress''"

record fw_user_state = func_state +
  f_rules :: "ip_5tuple \<rightharpoonup> fw_action"

text \<open>The firewall reads its rules in between; \<open>files\<close> gives the pieces \<^verbatim>\<open>fgets\<close> returns for a
  file that can be opened, and \<open>junk\<close> is what the variables of \<open>parse_rules\<close> hold at first.\<close>

definition firewall_main ::
  "'e sys_env_scheme \<Rightarrow> (int \<Rightarrow> (int, int) map_upd) \<Rightarrow> (int \<Rightarrow> (ip_5tuple, fw_action) map_upd)
   \<Rightarrow> (string \<Rightarrow> string list option) \<Rightarrow> rule_vars \<Rightarrow> string list
   \<Rightarrow> 's fw_user_state_scheme \<Rightarrow> (int \<times> 's fw_user_state_scheme) option" where
  "firewall_main E upd rupd files junk argv s = do {
     (r, s) \<leftarrow> start_function E 3 ''firewall'' argv s;
     case r of
       Inl code \<Rightarrow> Some (code, s)
     | Inr egress_ifindex \<Rightarrow> do {
         let rules_fd = obj_get E ''/sys/fs/bpf/tc/globals/rules'';
         (ret, m) \<leftarrow> parse_rules (rupd rules_fd) junk (f_rules s) (files (argv ! 3));
         let s = s\<lparr>f_rules := m\<rparr>;
         if ret \<noteq> 0 then Some (1, s)
         else Some (0, set_egress upd (obj_get E ''/sys/fs/bpf/tc/globals/fw_egress'') egress_ifindex s)
       }
   }"

section \<open>Lemmas\<close>

lemma runcmd_in: "length cmd < CMD_MAX \<Longrightarrow>
    runcmd E cmd s = Some (sys_system E (cmds s) cmd, s\<lparr>cmds := cmds s @ [cmd]\<rparr>)"
  by (simp add: runcmd_def)

lemma runcmd_Some: "runcmd E cmd s = Some (ret, s') \<Longrightarrow>
    ret = sys_system E (cmds s) cmd \<and> s' = s\<lparr>cmds := cmds s @ [cmd]\<rparr>"
  by (auto simp: runcmd_def split: if_splits)

lemma c_text_zero: "CHR 0x00 \<notin> set s \<Longrightarrow> c_text (s @ replicate n CHR 0x00) = s"
  by (cases n) (auto simp: c_text_def takeWhile_tail takeWhile_eq_all_conv)

lemma is_alnum_not_nul: "is_alnum c \<Longrightarrow> c \<noteq> CHR 0x00"
  by (auto simp: is_alnum_def)

text \<open>The start of a function, command by command.\<close>

lemma start_function_ok:
  assumes "start_function E n sec argv s = Some (Inr i, s')"
  shows "length argv = n + 1 \<and> i = if_nametoindex E (argv ! 2) \<and> i \<noteq> 0
    \<and> s' = s\<lparr>cmds := cmds s @ [clsact_cmd (argv ! 1),
         attach_cmd (argv ! 1) (take 255 (argv ! 0 @ ''_kern.o'')) 1 1 sec INGRESS]\<rparr>
    \<and> sys_system E (cmds s @ [clsact_cmd (argv ! 1)])
        (attach_cmd (argv ! 1) (take 255 (argv ! 0 @ ''_kern.o'')) 1 1 sec INGRESS) = 0"
  using assms
  by (auto simp: start_function_def tc_create_clsact_def tc_attach_bpf_def Let_def
      dest!: runcmd_Some split: if_splits Option.bind_splits)

lemma start_function_attach_fails:
  assumes "start_function E n sec argv s = Some (Inl code, s')" and "length argv = n + 1"
    and "if_nametoindex E (argv ! 1) \<noteq> 0" "if_nametoindex E (argv ! 2) \<noteq> 0"
    and "WEXITSTATUS (sys_system E (cmds s) (clsact_cmd (argv ! 1))) \<in> {0, 2}"
  shows "code = sys_system E (cmds s @ [clsact_cmd (argv ! 1)])
        (attach_cmd (argv ! 1) (take 255 (argv ! 0 @ ''_kern.o'')) 1 1 sec INGRESS) \<and> code \<noteq> 0
    \<and> last (cmds s') = remove_cmd (argv ! 1) INGRESS"
  using assms
  by (auto simp: start_function_def tc_create_clsact_def tc_attach_bpf_def tc_remove_filter_def Let_def
      dest!: runcmd_Some split: if_splits Option.bind_splits)

section \<open>Properties\<close>

text \<open>C26. When the \<open>main\<close> of a function, given exactly two interface names, returns 0, both
  interfaces exist, exactly two commands were run, the one that creates the qdisc and the one that
  attaches the program to the ingress hook, the latter with status 0, and then the egress map was
  tried: when the update through the descriptor of its pinned file succeeds, the map has the index of
  the second interface under key 0 and is otherwise as before; when it fails (the map is not there),
  the map is as before, and \<open>main\<close> returns 0 all the same.\<close>

theorem function_main_installs:
  assumes "function_main E upd sec mapfile argv s = Some (0, s')" and "length argv = 3"
    and upd: "map_update (upd (obj_get E mapfile))"
  shows "if_nametoindex E (argv ! 1) \<noteq> 0 \<and> if_nametoindex E (argv ! 2) \<noteq> 0
    \<and> cmds s' = cmds s @ [clsact_cmd (argv ! 1),
         attach_cmd (argv ! 1) (take 255 (argv ! 0 @ ''_kern.o'')) 1 1 sec INGRESS]
    \<and> sys_system E (cmds s @ [clsact_cmd (argv ! 1)])
        (attach_cmd (argv ! 1) (take 255 (argv ! 0 @ ''_kern.o'')) 1 1 sec INGRESS) = 0
    \<and> (let i = if_nametoindex E (argv ! 2) in
        f_egress s' =
          (if i \<noteq> -1 \<and> fst (upd (obj_get E mapfile) (f_egress s) 0 i BPF_ANY) = 0 then (f_egress s)(0 \<mapsto> i)
           else f_egress s))"
proof -
  obtain r s1 where r: "start_function E 2 sec argv s = Some (r, s1)"
    using assms(1) by (auto simp: function_main_def split: Option.bind_splits)
  have "if_nametoindex E (argv ! 1) \<noteq> 0"
    using r assms by (auto simp: start_function_def function_main_def Let_def split: if_splits)
  moreover obtain i where i: "r = Inr i"
  proof (cases r)
    case (Inl code)
    with r assms show thesis
      by (auto simp: start_function_def function_main_def Let_def
          dest!: runcmd_Some split: if_splits Option.bind_splits)
  qed
  ultimately show ?thesis
    using start_function_ok [of E 2 sec argv s i s1] r assms(1,2)
      map_update.update_ok [OF upd, of "f_egress s" 0 "if_nametoindex E (argv ! 2)" BPF_ANY]
      map_update.update_fail [OF upd, of "f_egress s" 0 "if_nametoindex E (argv ! 2)" BPF_ANY]
    by (auto simp: function_main_def set_egress_def Let_def)
qed

definition sample_sys :: "int \<Rightarrow> sys_env" where
  "sample_sys status = \<lparr>sys_system = (\<lambda>h c. if h = [] then 0 else status), popen_line = (\<lambda>c. None),
     if_nametoindex = (\<lambda>n. if n = ''eth0'' then 2 else 3), obj_get = (\<lambda>f. 5), stat_ok = (\<lambda>f. True)\<rparr>"

definition sample_argv :: "string list" where
  "sample_argv = [''./chacha'', ''eth0'', ''eth1'']"

definition sample_host :: func_state where
  "sample_host = \<lparr>cmds = [], f_egress = Map.empty\<rparr>"

lemma sample_clsact: "runcmd E (clsact_cmd ''eth0'') s
    = Some (sys_system E (cmds s) (clsact_cmd ''eth0''), s\<lparr>cmds := cmds s @ [clsact_cmd ''eth0'']\<rparr>)"
  by (rule runcmd_in) (simp add: clsact_cmd_def tc_cmd_def CMD_MAX_def)

lemma show_one: "show_int 1 = ''1''"
  by (simp add: show_int_def show_nat.simps dec_char_def)

lemma sample_attach: "length (attach_cmd ''eth0'' (take 255 (''./chacha'' @ ''_kern.o'')) 1 1 ''chacha'' INGRESS) < CMD_MAX"
  "length (remove_cmd ''eth0'' INGRESS) < CMD_MAX"
  by (simp_all add: attach_cmd_def remove_cmd_def tc_cmd_def CMD_MAX_def show_one)

lemma sample_run: "\<exists>s'. chacha_main (sample_sys 0) upd sample_argv sample_host = Some (0, s')"
  using sample_attach
  by (simp add: chacha_main_def function_main_def start_function_def tc_create_clsact_def tc_attach_bpf_def
      sample_argv_def sample_sys_def sample_host_def sample_clsact runcmd_in Let_def WEXITSTATUS_def)

text \<open>Once with a map, once with one that refuses the key.\<close>

theorem function_main_installs_witness:
  "(\<exists>s'. chacha_main (sample_sys 0) (\<lambda>fd. upd_roomy) sample_argv sample_host = Some (0, s')
      \<and> f_egress s' = [0 \<mapsto> 3] \<and> length (cmds s') = 2)
    \<and> (\<exists>s'. chacha_main (sample_sys 0) (\<lambda>fd. upd_full) sample_argv sample_host = Some (0, s')
      \<and> f_egress s' = Map.empty \<and> length (cmds s') = 2)"
proof
  obtain s' where r: "chacha_main (sample_sys 0) (\<lambda>fd. upd_roomy) sample_argv sample_host = Some (0, s')"
    using sample_run by blast
  then show "\<exists>s'. chacha_main (sample_sys 0) (\<lambda>fd. upd_roomy) sample_argv sample_host = Some (0, s')
      \<and> f_egress s' = [0 \<mapsto> 3] \<and> length (cmds s') = 2"
    using function_main_installs [OF r [unfolded chacha_main_def] _ roomy.map_update_axioms]
    by (simp add: sample_argv_def sample_host_def sample_sys_def upd_roomy_def)
next
  obtain s' where r: "chacha_main (sample_sys 0) (\<lambda>fd. upd_full) sample_argv sample_host = Some (0, s')"
    using sample_run by blast
  then show "\<exists>s'. chacha_main (sample_sys 0) (\<lambda>fd. upd_full) sample_argv sample_host = Some (0, s')
      \<and> f_egress s' = Map.empty \<and> length (cmds s') = 2"
    using function_main_installs [OF r [unfolded chacha_main_def] _ full.map_update_axioms]
    by (simp add: sample_argv_def sample_host_def sample_sys_def upd_full_def BPF_ANY_def BPF_NOEXIST_def)
qed

text \<open>C27. The exit status does not tell that attaching failed: when \<^verbatim>\<open>tc\<close> exits with a code
  \<open>n\<close> (status \<open>256 * n\<close>), the main function removes the filters and returns the status as
  it is, of which the parent sees the lowest byte, zero.\<close>

theorem attach_failure_exits_zero:
  assumes "length argv = 3" "if_nametoindex E (argv ! 1) \<noteq> 0" "if_nametoindex E (argv ! 2) \<noteq> 0"
    and "WEXITSTATUS (sys_system E (cmds s) (clsact_cmd (argv ! 1))) \<in> {0, 2}"
    and "sys_system E (cmds s @ [clsact_cmd (argv ! 1)])
        (attach_cmd (argv ! 1) (take 255 (argv ! 0 @ ''_kern.o'')) 1 1 sec INGRESS) = 256 * n" "n \<noteq> 0"
    and run: "function_main E upd sec mapfile argv s = Some (code, s')"
  shows "code = 256 * n \<and> exit_status code = 0 \<and> last (cmds s') = remove_cmd (argv ! 1) INGRESS
    \<and> f_egress s' = f_egress s"
proof -
  obtain r s1 where r: "start_function E 2 sec argv s = Some (r, s1)"
    using run by (auto simp: function_main_def split: Option.bind_splits)
  obtain c where c: "r = Inl c"
    using start_function_ok [of E 2 sec argv s _ s1] r assms(5,6) by (cases r) auto
  have "length argv = 2 + 1" using assms(1) by simp
  from start_function_attach_fails [OF r [unfolded c] this assms(2-4)] assms(5)
  have "c = 256 * n" "last (cmds s1) = remove_cmd (argv ! 1) INGRESS" by auto
  moreover have "f_egress s1 = f_egress s"
    using r by (auto simp: start_function_def tc_create_clsact_def tc_attach_bpf_def tc_remove_filter_def
        Let_def dest!: runcmd_Some split: if_splits Option.bind_splits)
  moreover have "(256 * n) mod 256 = 0" by simp
  ultimately show ?thesis using run by (auto simp: function_main_def r c exit_status_def)
qed

theorem attach_failure_exits_zero_witness:
  "\<exists>s'. chacha_main (sample_sys 256) (\<lambda>fd. upd_roomy) sample_argv sample_host = Some (256, s')
    \<and> exit_status 256 = 0 \<and> f_egress s' = Map.empty"
proof -
  obtain s' where r: "chacha_main (sample_sys 256) (\<lambda>fd. upd_roomy) sample_argv sample_host = Some (256, s')"
    using sample_attach
    by (simp add: chacha_main_def function_main_def start_function_def tc_create_clsact_def tc_attach_bpf_def
      tc_remove_filter_def sample_argv_def sample_sys_def sample_host_def sample_clsact runcmd_in Let_def
      WEXITSTATUS_def)
  have "exit_status 256 = 0 \<and> f_egress s' = f_egress sample_host"
    using attach_failure_exits_zero [OF _ _ _ _ _ _ r [unfolded chacha_main_def], of 1]
    by (simp add: sample_argv_def sample_sys_def sample_host_def WEXITSTATUS_def)
  with r show ?thesis by (simp add: sample_host_def)
qed

end
