(* ===== verification/Agent.thy ===== *)
theory Agent
  imports Loader
begin

text \<open>
  \<^verbatim>\<open>src/utils/cb_agent_helpers.c\<close>, the C half of the node's agent: it loads the three stages,
  keeps the descriptors of their pinned maps, stores the MAC addresses of the interfaces and
  adds forwarding and proxy rules. The state holds the maps the descriptors stand for.
\<close>

section \<open>State\<close>

record agent_state = host +
  fd_nsh_data :: int
  fd_fwd_table :: int
  fd_src_mac :: int
  m_nsh_data :: "ip_5tuple \<rightharpoonup> nshhdr_md1"
  m_fwd_table :: "u32 \<rightharpoonup> fwd_entry"
  m_src_mac :: "u32 \<rightharpoonup> mac"

text \<open>
  The system, with what \<^verbatim>\<open>ioctl(SIOCGIFHWADDR)\<close> returns for an interface, what the variable for its
  result holds before, and the map updates through a descriptor.
\<close>

record agent_env = sys_env +
  hwaddr :: "string \<Rightarrow> mac option"
  junk_mac :: mac
  upd_nsh_data :: "int \<Rightarrow> (ip_5tuple, nshhdr_md1) map_upd"
  upd_fwd_table :: "int \<Rightarrow> (u32, fwd_entry) map_upd"
  upd_src_mac :: "int \<Rightarrow> (u32, mac) map_upd"

definition nsh_data_file :: string where "nsh_data_file = ''/sys/fs/bpf/tc/globals/nsh_data''"
definition fwd_table_file :: string where "fwd_table_file = ''/sys/fs/bpf/tc/globals/fwd_table''"
definition src_mac_file :: string where "src_mac_file = ''/sys/fs/bpf/tc/globals/src_mac''"

section \<open>Operations\<close>

definition get_map_fds :: "'e agent_env_scheme \<Rightarrow> 's agent_state_scheme \<Rightarrow> int \<times> 's agent_state_scheme" where
  "get_map_fds E s =
     (let s = s\<lparr>fd_nsh_data := obj_get E nsh_data_file, fd_fwd_table := obj_get E fwd_table_file,
                fd_src_mac := obj_get E src_mac_file\<rparr> in
      if fd_nsh_data s = 0 \<or> fd_fwd_table s = 0 \<or> fd_src_mac s = 0 then (-1, s) else (0, s))"

text \<open>\<^verbatim>\<open>strncpy\<close> takes at most 15 characters of the name, and the kernel ends it there. The result
  of \<^verbatim>\<open>ioctl\<close> is not looked at: when it fails, the address is what the variable held.\<close>

definition hwaddr_of :: "'e agent_env_scheme \<Rightarrow> string \<Rightarrow> mac" where
  "hwaddr_of E iface = (case hwaddr E (take 15 iface) of Some m \<Rightarrow> m | None \<Rightarrow> junk_mac E)"

definition config_src_mac_map ::
  "'e agent_env_scheme \<Rightarrow> string \<Rightarrow> srcmac_idx \<Rightarrow> 's agent_state_scheme \<Rightarrow> int \<times> 's agent_state_scheme" where
  "config_src_mac_map E iface idx s =
     (let mac = hwaddr_of E iface;
          (ret, m) = upd_src_mac E (fd_src_mac s) (m_src_mac s) (srcmac_key idx) mac BPF_ANY in
      (ret, s\<lparr>m_src_mac := m\<rparr>))"

definition load_ingress_stages ::
  "'e agent_env_scheme \<Rightarrow> string \<Rightarrow> string \<Rightarrow> 's agent_state_scheme \<Rightarrow> (int \<times> 's agent_state_scheme) option" where
  "load_ingress_stages E iface stages_obj s = do {
     (ret, s) \<leftarrow> xdp_add E iface stages_obj ''xdp/decap'' s;
     if ret \<noteq> 0 then do {
       (r, s) \<leftarrow> xdp_remove E iface s;
       Some (ret, s)
     }
     else let (ret, s) = get_map_fds E s in
     if ret \<noteq> 0 then Some (ret, s)
     else let (ret, s) = config_src_mac_map E iface INGRESS_MAC s in
     if ret \<noteq> 0 then Some (ret, s)
     else Some (0, s)
   }"

definition load_egress_stages ::
  "'e agent_env_scheme \<Rightarrow> string \<Rightarrow> string \<Rightarrow> 's agent_state_scheme \<Rightarrow> (int \<times> 's agent_state_scheme) option" where
  "load_egress_stages E iface stages_obj s = do {
     (ret, s) \<leftarrow> tc_create_clsact E iface s;
     if ret \<noteq> 0 \<and> ret \<noteq> 2 then Some (ret, s)
     else do {
       (ret, s) \<leftarrow> tc_attach_bpf E iface stages_obj 1 1 ''action/encap'' EGRESS s;
       if ret \<noteq> 0 then do {
         (r, s) \<leftarrow> tc_remove_filter E iface EGRESS s;
         Some (ret, s)
       }
       else do {
         (ret, s) \<leftarrow> tc_attach_bpf E iface stages_obj 2 1 ''action/forward'' EGRESS s;
         if ret \<noteq> 0 then do {
           (r, s) \<leftarrow> tc_remove_filter E iface EGRESS s;
           Some (ret, s)
         }
         else let (ret, s) = get_map_fds E s in
         if ret \<noteq> 0 then Some (ret, s)
         else let (ret, s) = config_src_mac_map E iface EGRESS_MAC s in
         if ret \<noteq> 0 then Some (ret, s)
         else Some (0, s)
       }
     }
   }"

definition add_fwd_rule ::
  "'e agent_env_scheme \<Rightarrow> u32 \<Rightarrow> fwd_entry \<Rightarrow> 's agent_state_scheme \<Rightarrow> int \<times> 's agent_state_scheme" where
  "add_fwd_rule E key val s =
     (let key = bswap32 key;
          (ret, m) = upd_fwd_table E (fd_fwd_table s) (m_fwd_table s) key val BPF_ANY in
      (ret, s\<lparr>m_fwd_table := m\<rparr>))"

text \<open>
  \<open>val\<close> is a \<^verbatim>\<open>struct nshhdr\<close> of 8 bytes, but the values of the map have 24: the kernel reads
  the 16 bytes behind it on the stack too. They differ from call to call and are an argument.
\<close>

type_synonym stack16 = "u32 \<times> u32 \<times> u32 \<times> u32"

definition enc_nshhdr :: "nshhdr \<Rightarrow> bytes" where
  "enc_nshhdr h = enc16 (basic_info h) @ [md_type h] @ [next_proto h] @ enc32 (serv_path h)"

text \<open>The key is turned from host to network order, field by field.\<close>

definition net_key :: "ip_5tuple \<Rightarrow> ip_5tuple" where
  "net_key key = key\<lparr>ip_src := bswap32 (ip_src key), ip_dst := bswap32 (ip_dst key),
     sport := bswap16 (sport key), dport := bswap16 (dport key)\<rparr>"

definition add_proxy_rule ::
  "'e agent_env_scheme \<Rightarrow> stack16 \<Rightarrow> ip_5tuple \<Rightarrow> u32 \<Rightarrow> 's agent_state_scheme \<Rightarrow> int \<times> 's agent_state_scheme" where
  "add_proxy_rule E stack key sph s =
     (let key = net_key key;
          val = \<lparr>basic_info = bswap16 (0 OR NSH_TTL_DEFAULT OR NSH_BASE_LENGHT_MD_TYPE_2),
                 md_type = NSH_MD_TYPE_2, next_proto = NSH_NEXT_PROTO_ETHER, serv_path = bswap32 sph\<rparr>;
          read = dec_nsh (enc_nshhdr val @ enc_ctx stack);
          (ret, m) = upd_nsh_data E (fd_nsh_data s) (m_nsh_data s) key read BPF_ANY in
      (ret, s\<lparr>m_nsh_data := m\<rparr>))"

section \<open>Lemmas\<close>

text \<open>The frame of each operation: what it leaves alone.\<close>

lemma get_map_fds_frame [simp]:
  "cmds (snd (get_map_fds E s)) = cmds s" "m_nsh_data (snd (get_map_fds E s)) = m_nsh_data s"
  "m_fwd_table (snd (get_map_fds E s)) = m_fwd_table s" "m_src_mac (snd (get_map_fds E s)) = m_src_mac s"
  "fd_src_mac (snd (get_map_fds E s)) = obj_get E src_mac_file"
  by (simp_all add: get_map_fds_def Let_def)

lemma get_map_fds_rc:
  "fst (get_map_fds E s) = (if obj_get E nsh_data_file = 0 \<or> obj_get E fwd_table_file = 0
     \<or> obj_get E src_mac_file = 0 then -1 else 0)"
  by (simp add: get_map_fds_def Let_def)

lemma config_src_mac_map_frame:
  assumes "map_update (upd_src_mac E (fd_src_mac s))" and "config_src_mac_map E iface idx s = (0, s')"
  shows "s' = s\<lparr>m_src_mac := (m_src_mac s)(srcmac_key idx \<mapsto> hwaddr_of E iface)\<rparr>"
  using assms(2) map_update.update_ok [OF assms(1), of "m_src_mac s" "srcmac_key idx" "hwaddr_of E iface" BPF_ANY]
  by (auto simp: config_src_mac_map_def split: prod.splits)

lemma dec_nsh_proxy:
  "dec_nsh (enc_nshhdr h @ enc_ctx c) =
     \<lparr>basic_info = basic_info h, md_type = md_type h, next_proto = next_proto h,
      serv_path = serv_path h, nsh_context = c\<rparr>"
  by (simp add: dec_nsh_def enc_nshhdr_def nth_append drop_Cons')

section \<open>Properties\<close>

text \<open>Loading the egress stages, when it returns 0: exactly three commands were run, the
  qdisc, then encap at preference 1, then forward at preference 2, each attached with status 0,
  and the egress MAC address of the interface was stored under key 1.\<close>

lemma load_egress_stages_order:
  assumes run: "load_egress_stages E iface obj s = Some (0, s')"
    and upd: "map_update (upd_src_mac E (obj_get E src_mac_file))"
  shows "cmds s' = cmds s @ [clsact_cmd iface, attach_cmd iface obj 1 1 ''action/encap'' EGRESS,
        attach_cmd iface obj 2 1 ''action/forward'' EGRESS]
    \<and> m_src_mac s' = (m_src_mac s)(1 \<mapsto> hwaddr_of E iface)
    \<and> m_nsh_data s' = m_nsh_data s \<and> m_fwd_table s' = m_fwd_table s"
proof -
  let ?s1 = "s\<lparr>cmds := cmds s @ [clsact_cmd iface]\<rparr>"
  let ?s3 = "s\<lparr>cmds := cmds s @ [clsact_cmd iface, attach_cmd iface obj 1 1 ''action/encap'' EGRESS,
      attach_cmd iface obj 2 1 ''action/forward'' EGRESS]\<rparr>"
  have "fst (get_map_fds E ?s3) = 0 \<and> config_src_mac_map E iface EGRESS_MAC (snd (get_map_fds E ?s3)) = (0, s')"
    using run
    by (auto simp: load_egress_stages_def tc_create_clsact_def tc_attach_bpf_def tc_remove_filter_def Let_def
        dest!: runcmd_Some split: if_splits Option.bind_splits prod.splits)
  then have "config_src_mac_map E iface EGRESS_MAC (snd (get_map_fds E ?s3)) = (0, s')" by blast
  from config_src_mac_map_frame [OF _ this] upd show ?thesis
    by simp
qed

definition sample_agent_env :: agent_env where
  "sample_agent_env = sys_env.extend (sample_sys 0) \<lparr>hwaddr = (\<lambda>n. Some mac_b), junk_mac = mac_a,
     upd_nsh_data = (\<lambda>fd. upd_roomy), upd_fwd_table = (\<lambda>fd. upd_roomy),
     upd_src_mac = (\<lambda>fd. upd_roomy)\<rparr>"

definition sample_agent :: agent_state where
  "sample_agent = \<lparr>cmds = [], fd_nsh_data = 0, fd_fwd_table = 0, fd_src_mac = 0,
     m_nsh_data = Map.empty, m_fwd_table = Map.empty, m_src_mac = Map.empty\<rparr>"

lemma sample_agent_env_simps [simp]:
  "sys_system sample_agent_env = (\<lambda>h c. 0)" "obj_get sample_agent_env = (\<lambda>f. 5)"
  "hwaddr sample_agent_env = (\<lambda>n. Some mac_b)"
  "upd_nsh_data sample_agent_env = (\<lambda>fd. upd_roomy)" "upd_fwd_table sample_agent_env = (\<lambda>fd. upd_roomy)"
  "upd_src_mac sample_agent_env = (\<lambda>fd. upd_roomy)"
  by (simp_all add: sample_agent_env_def sys_env.defs sample_sys_def)

lemma sample_stage_cmds:
  "length (attach_cmd ''eth0'' ''sfc.o'' 1 1 ''action/encap'' EGRESS) < CMD_MAX"
  "length (attach_cmd ''eth0'' ''sfc.o'' 2 1 ''action/forward'' EGRESS) < CMD_MAX"
proof -
  have "show_int 2 = ''2''" by (simp add: show_int_def show_nat.simps dec_char_def)
  then show "length (attach_cmd ''eth0'' ''sfc.o'' 1 1 ''action/encap'' EGRESS) < CMD_MAX"
    "length (attach_cmd ''eth0'' ''sfc.o'' 2 1 ''action/forward'' EGRESS) < CMD_MAX"
    by (simp_all add: attach_cmd_def tc_cmd_def CMD_MAX_def show_one)
qed

lemma sample_load: "\<exists>s'. load_egress_stages sample_agent_env ''eth0'' ''sfc.o'' sample_agent = Some (0, s')"
  using sample_stage_cmds
  by (simp add: load_egress_stages_def tc_create_clsact_def tc_attach_bpf_def sample_clsact runcmd_in
      WEXITSTATUS_def get_map_fds_def config_src_mac_map_def upd_roomy_def Let_def BPF_ANY_def BPF_NOEXIST_def)

lemma load_egress_stages_sample:
  "\<exists>s'. load_egress_stages sample_agent_env ''eth0'' ''sfc.o'' sample_agent = Some (0, s')
    \<and> length (cmds s') = 3 \<and> m_src_mac s' = [1 \<mapsto> mac_b]"
proof -
  obtain s' where r: "load_egress_stages sample_agent_env ''eth0'' ''sfc.o'' sample_agent = Some (0, s')"
    using sample_load by blast
  have "map_update (upd_src_mac sample_agent_env (obj_get sample_agent_env src_mac_file))"
    by (simp add: sample_helpers)
  from load_egress_stages_order [OF r this] r show ?thesis
    by (simp add: sample_agent_def hwaddr_of_def)
qed

text \<open>The agent's rules drive the egress hook: after a proxy rule for a flow with service path
  header \<open>sph\<close> and a forwarding rule for \<open>sph - 1\<close>, both given in host order, the decision of
  the egress hook on the flow's packets is the forwarding rule's, with an NSH that carries
  \<open>sph - 1\<close>.\<close>

lemma agent_rules_drive_egress:
  assumes upd: "map_update (upd_nsh_data E (fd_nsh_data s))" "map_update (upd_fwd_table E (fd_fwd_table s))"
    and proxy: "add_proxy_rule E stack t sph s = (0, s1)"
    and fwd: "add_fwd_rule E (sph - 1) val s1 = (0, s2)"
    and idx: "sph AND 0xFF \<noteq> 0"
  shows "\<exists>h'. decide (m_nsh_data s2 (net_key t)) (\<lambda>k. m_fwd_table s2 (bswap32 k))
      = (if flags val AND 1 \<noteq> 0 then Leave else Next_hop (address val) h')
    \<and> sph_of h' = sph - 1 \<and> next_proto h' = NSH_NEXT_PROTO_ETHER"
proof -
  let ?h = "\<lparr>basic_info = bswap16 (NSH_TTL_DEFAULT OR NSH_BASE_LENGHT_MD_TYPE_2), md_type = NSH_MD_TYPE_2,
      next_proto = NSH_NEXT_PROTO_ETHER, serv_path = bswap32 sph, nsh_context = stack\<rparr>"
  have s1: "s1 = s\<lparr>m_nsh_data := (m_nsh_data s)(net_key t \<mapsto> ?h)\<rparr>"
    using proxy map_update.update_ok [OF upd(1), of "m_nsh_data s" "net_key t" ?h BPF_ANY]
    by (auto simp: add_proxy_rule_def Let_def dec_nsh_proxy split: prod.splits)
  have s2: "s2 = s1\<lparr>m_fwd_table := (m_fwd_table s1)(bswap32 (sph - 1) \<mapsto> val)\<rparr>"
    using fwd map_update.update_ok [OF upd(2), of "m_fwd_table s1" "bswap32 (sph - 1)" val BPF_ANY]
    by (auto simp: add_fwd_rule_def s1 Let_def split: prod.splits)
  have "sph_of ?h = sph" "si ?h \<noteq> 0" using idx by (simp_all add: sph_of_def si_def)
  then show ?thesis by (auto simp: s1 s2 intro!: exI [of _ "next_nsh ?h"])
qed

lemma agent_rules_sample:
  "\<exists>s1 s2 h'. add_proxy_rule sample_agent_env (1, 2, 3, 4) zero_tuple 0x102 sample_agent = (0, s1)
    \<and> add_fwd_rule sample_agent_env 0x101 \<lparr>flags = 0, address = mac_c\<rparr> s1 = (0, s2)
    \<and> decide (m_nsh_data s2 (net_key zero_tuple)) (\<lambda>k. m_fwd_table s2 (bswap32 k)) = Next_hop mac_c h'
    \<and> sph_of h' = 0x101"
proof -
  obtain s1 where r1: "add_proxy_rule sample_agent_env (1, 2, 3, 4) zero_tuple 0x102 sample_agent = (0, s1)"
    by (simp add: add_proxy_rule_def upd_roomy_def Let_def BPF_ANY_def BPF_NOEXIST_def)
  obtain s2 where r2: "add_fwd_rule sample_agent_env (0x102 - 1) \<lparr>flags = 0, address = mac_c\<rparr> s1 = (0, s2)"
    by (simp add: add_fwd_rule_def upd_roomy_def Let_def BPF_ANY_def BPF_NOEXIST_def)
  have u: "map_update (upd_nsh_data sample_agent_env (fd_nsh_data sample_agent))"
    "map_update (upd_fwd_table sample_agent_env (fd_fwd_table sample_agent))"
    by (simp_all add: sample_helpers)
  have "(0x102 :: u32) AND 0xFF \<noteq> 0" by simp
  from agent_rules_drive_egress [OF u r1 r2 this] r1 r2 show ?thesis by auto
qed

end
