(* ===== verification/NodeRun.thy ===== *)
theory NodeRun
  imports Verdicts Agent
begin

text \<open>
  A node over time: frames that arrive at its ingress interface, packets that its service function
  sends to the egress hook, and rules that its agent adds, in any order and any number, with kernel
  helpers that may fail at every step. The programs share the pinned maps; their statistics are
  private and may hold anything.
\<close>

section \<open>Steps\<close>

datatype node_event =
    Frame_in bytes
  | Packet_out bytes
  | Add_proxy ip_5tuple u32
  | Add_fwd u32 fwd_entry

text \<open>The documented behaviour of the kernel, failures included, for one call of a program.\<close>

definition kernel :: "stage_env \<Rightarrow> bool" where
  "kernel E \<longleftrightarrow> map_update (nsh_update E) \<and> skb_room (skb_adjust_room E) \<and> xdp_head (xdp_adjust_head E)"

definition agent_kernel :: "agent_env \<Rightarrow> bool" where
  "agent_kernel AE \<longleftrightarrow> (\<forall>fd. map_update (upd_nsh_data AE fd))"

text \<open>\<open>node_step s e r s'\<close>: the event \<open>e\<close> takes the node from \<open>s\<close> to \<open>s'\<close>, and the frame \<open>r\<close>, if
  any, is passed on.\<close>

inductive node_step :: "stage_state \<Rightarrow> node_event \<Rightarrow> bytes option \<Rightarrow> stage_state \<Rightarrow> bool" where
  frame_in: "kernel E \<Longrightarrow> decap_nsh E (s\<lparr>prog_stats := ds\<rparr>) f = Some ((v, s'), g) \<Longrightarrow>
     node_step s (Frame_in f) (if v = XDP_PASS then Some g else None) s'"
| packet_out: "kernel E \<Longrightarrow> tc_egress E fs (s\<lparr>prog_stats := es\<rparr>) p = Some ((v, fs', s'), q) \<Longrightarrow>
     node_step s (Packet_out p) (if v = TC_ACT_OK then Some q else None) s'"
| add_proxy: "agent_kernel AE \<Longrightarrow> m_nsh_data (a :: agent_state) = nsh_data s \<Longrightarrow> add_proxy_rule AE stack key sph a = (rc, a') \<Longrightarrow>
     node_step s (Add_proxy key sph) None (s\<lparr>nsh_data := m_nsh_data a'\<rparr>)"
| add_fwd: "agent_kernel AE \<Longrightarrow> m_fwd_table (a :: agent_state) = fwd_table s \<Longrightarrow> add_fwd_rule AE key val a = (rc, a') \<Longrightarrow>
     node_step s (Add_fwd key val) None (s\<lparr>fwd_table := m_fwd_table a'\<rparr>)"

inductive_cases packet_outE: "node_step s (Packet_out p) r s'"

text \<open>The runs of a node, with their events and what was passed on, latest first.\<close>

inductive node_run :: "stage_state \<Rightarrow> (node_event \<times> bytes option) list \<Rightarrow> stage_state \<Rightarrow> bool" for s0 where
  start: "node_run s0 [] s0"
| step: "node_run s0 tr s \<Longrightarrow> node_step s e r s' \<Longrightarrow> node_run s0 ((e, r) # tr) s'"

section \<open>What a step does to the maps\<close>

text \<open>The fields of the state that a program returns.\<close>

definition keeps_field :: "('s \<Rightarrow> 'f) \<Rightarrow> 's \<Rightarrow> 's run \<Rightarrow> bool" where
  "keeps_field sel s r \<longleftrightarrow> gives {sel s} (\<lambda>x. sel (snd (fst x))) r"

lemma encap_nsh_keeps:
  "keeps_field nsh_data s (encap_nsh E s p)" "keeps_field fwd_table s (encap_nsh E s p)"
  "keeps_field src_mac s (encap_nsh E s p)"
  unfolding keeps_field_def encap_nsh_def encap_leave_def encap_push_def Let_def
  by (intro giv; simp)+

lemma sfc_forwarding_keeps:
  "keeps_field nsh_data s (sfc_forwarding E s p)" "keeps_field fwd_table s (sfc_forwarding E s p)"
  "keeps_field src_mac s (sfc_forwarding E s p)"
  unfolding keeps_field_def sfc_forwarding_def Let_def
  by (intro giv; simp)+

lemma keeps_fieldD: "keeps_field sel s r \<Longrightarrow> r = Some ((v, s'), q) \<Longrightarrow> sel s' = sel s"
  by (auto simp: keeps_field_def gives_def)

lemma tc_egress_keeps:
  assumes "tc_egress E fs s p = Some ((v, fs', s'), q)"
  shows "nsh_data s' = nsh_data s \<and> fwd_table s' = fwd_table s \<and> src_mac s' = src_mac s"
proof -
  obtain v1 s1 q1 where 1: "encap_nsh E s p = Some ((v1, s1), q1)"
    using encap_nsh_total [of E s p] by (metis surj_pair)
  note k1 = encap_nsh_keeps [THEN keeps_fieldD, OF 1]
  show ?thesis
  proof (cases "v1 = TC_ACT_UNSPEC")
    case True
    obtain v2 s2 q2 where 2: "sfc_forwarding E (s1\<lparr>prog_stats := fs\<rparr>) q1 = Some ((v2, s2), q2)"
      using sfc_forwarding_total [of E "s1\<lparr>prog_stats := fs\<rparr>" q1] by (metis surj_pair)
    note k2 = sfc_forwarding_keeps [THEN keeps_fieldD, OF 2]
    show ?thesis using assms 1 2 True k1 k2 by (auto simp: tc_egress_def)
  next
    case False
    then show ?thesis using assms 1 k1 by (auto simp: tc_egress_def)
  qed
qed

text \<open>What \<open>decap_nsh\<close> may add to the NSH map: a header that announces an Ethernet frame.\<close>

definition ether_nsh :: "(ip_5tuple \<rightharpoonup> nshhdr_md1) \<Rightarrow> bool" where
  "ether_nsh m \<longleftrightarrow> (\<forall>k h. m k = Some h \<longrightarrow> next_proto h = NSH_NEXT_PROTO_ETHER)"

lemma ether_nsh_update:
  "map_update upd \<Longrightarrow> ether_nsh m \<Longrightarrow> next_proto h = NSH_NEXT_PROTO_ETHER \<Longrightarrow> ether_nsh (snd (upd m k h f))"
  by (rule map_update.update_cases [of upd m k h f]) (auto simp: ether_nsh_def)

lemma nth_dec8: "n < length bs \<Longrightarrow> dec8 (take 1 (drop n bs)) = bs ! n"
  by (simp add: dec8_def hd_drop_conv_nth)

lemma gives_bind_eq: "(\<And>x. r = Some x \<Longrightarrow> gives V f (g x)) \<Longrightarrow> gives V f (r \<bind> g)"
  by (cases r) (simp_all add: gives_def)

lemma decap_body_ether:
  assumes upd: "map_update (nsh_update E)" and e: "ether_nsh (nsh_data s)"
  shows "gives {s'. ether_nsh (nsh_data s') \<and> src_mac s' = src_mac s} (\<lambda>x. snd (fst x)) (decap_nsh_body E s data off hp)"
proof -
  have np: "next_proto (dec_nsh (take 24 (drop off data))) = dec8 (take 1 (drop (off + 3) data))" if "off + 24 \<le> length data"
    using that by (simp add: dec_nsh_def nth_dec8 [simplified])
  have u: "ether_nsh (snd (nsh_update E (nsh_data s) k h BPF_ANY))" if "next_proto h = NSH_NEXT_PROTO_ETHER" for k h
    using ether_nsh_update [OF upd e that] .
  show ?thesis
    unfolding decap_nsh_body_def Let_def
    by (intro gives_bind_eq gives_if gives_case_prod gives_Some) (use e np in \<open>auto intro!: u\<close>)
qed

lemma decap_nsh_ether:
  assumes upd: "map_update (nsh_update E)" and e: "ether_nsh (nsh_data s)"
  shows "gives {s'. ether_nsh (nsh_data s') \<and> src_mac s' = src_mac s} (\<lambda>x. snd (fst x)) (decap_nsh E s data)"
  using decap_body_ether [OF upd, of "cb_mark_init E s"] e
  unfolding decap_nsh_def Let_def by (intro giv) auto

section \<open>The invariant\<close>

text \<open>Of the maps of a node that starts with the state \<open>s0\<close>.\<close>

definition node_inv :: "stage_state \<Rightarrow> stage_state \<Rightarrow> bool" where
  "node_inv s0 s \<longleftrightarrow> ether_nsh (nsh_data s) \<and> src_mac s = src_mac s0"

lemma add_proxy_rule_ether:
  assumes k: "agent_kernel AE" and e: "ether_nsh (m_nsh_data a)" and run: "add_proxy_rule AE stack key sph a = (rc, a')"
  shows "ether_nsh (m_nsh_data a')"
proof -
  let ?v = "dec_nsh (enc_nshhdr \<lparr>basic_info = bswap16 (0 OR NSH_TTL_DEFAULT OR NSH_BASE_LENGHT_MD_TYPE_2),
    md_type = NSH_MD_TYPE_2, next_proto = NSH_NEXT_PROTO_ETHER, serv_path = bswap32 sph\<rparr> @ enc_ctx stack)"
  from k have u: "map_update (upd_nsh_data AE (fd_nsh_data a))"
    by (simp add: agent_kernel_def)
  have "next_proto ?v = NSH_NEXT_PROTO_ETHER" by (simp add: dec_nsh_proxy)
  note * = ether_nsh_update [OF u e this, of "net_key key" BPF_ANY]
  show ?thesis
  proof (cases "upd_nsh_data AE (fd_nsh_data a) (m_nsh_data a) (net_key key) ?v BPF_ANY")
    case (Pair c m)
    with * run show ?thesis by (auto simp: add_proxy_rule_def Let_def)
  qed
qed

lemma node_step_inv: "node_step s e r s' \<Longrightarrow> node_inv s0 s \<Longrightarrow> node_inv s0 s'"
proof (induction rule: node_step.induct)
  case frame_in
  note d = decap_nsh_ether [THEN gives_def [THEN iffD1], rule_format, OF _ _ frame_in.hyps(2)]
  show ?case using frame_in.hyps(1) frame_in.prems d by (simp add: kernel_def node_inv_def)
next
  case packet_out
  then show ?case using tc_egress_keeps [OF packet_out.hyps(2)] by (simp add: node_inv_def)
next
  case add_proxy
  then show ?case using add_proxy_rule_ether [OF add_proxy.hyps(1) _ add_proxy.hyps(3)] by (simp add: node_inv_def)
qed (simp add: node_inv_def)

lemma node_run_inv: "node_run s0 tr s \<Longrightarrow> nsh_data s0 = Map.empty \<Longrightarrow> node_inv s0 s"
  by (induction rule: node_run.induct) (auto simp: node_inv_def ether_nsh_def dest: node_step_inv [unfolded node_inv_def ether_nsh_def])

section \<open>What the egress hook passes on\<close>

lemma encap_push_gives: "gives {TC_ACT_UNSPEC, TC_ACT_SHOT} run_verdict (encap_push E s p h sph)"
  unfolding encap_push_def Let_def by (intro giv) simp_all

text \<open>A frame that leaves the chain keeps its EtherType.\<close>

lemma encap_leave_proto:
  assumes "encap_leave E s p = Some (r, q)" and "\<not> length p < 34" and "dec16 (take 2 (drop 12 p)) = bswap16 ETH_P_IP"
  shows "dec16 (take 2 (drop 12 q)) = bswap16 ETH_P_IP \<and> length q = length p"
proof -
  obtain d sa body where p: "p = ethhdr d sa ETH_P_IP @ body" by (rule ipv4_frame_split [of p]) (use assms in auto)
  show ?thesis using assms(1) by (auto simp: p encap_leave_frame eth_fields split: option.splits)
qed

lemma encap_nsh_ok_proto:
  assumes run: "encap_nsh E s p = Some ((TC_ACT_OK, s'), q)"
  shows "ld16 q 12 = ld16 p 12"
proof -
  have no: "encap_push E s1 p h sph \<noteq> Some ((TC_ACT_OK, s'), q)" for s1 h sph
    using encap_push_gives [of E s1 p h sph] by (auto simp: gives_def verdict_defs)
  show ?thesis
    using run no encap_leave_proto [of E "cb_mark_init E s" p "(TC_ACT_OK, s')" q]
    by (auto simp: encap_nsh_def Let_def cb_retother_def verdict_defs
        split: if_splits option.splits Option.bind_splits)
qed

lemma egress_passes_nsh:
  assumes room: "skb_room (skb_adjust_room E)" and run: "tc_egress E fs s p = Some ((TC_ACT_OK, r), g)"
    and ip: "ld16 p 12 = Some (bswap16 ETH_P_IP)" and out: "ld16 g 12 = Some (bswap16 ETH_P_NSH)"
  obtains d m h key where "g = ethhdr d m ETH_P_NSH @ enc_nsh (next_nsh h) @ p" "src_mac s 1 = Some m"
    "nsh_data s key = Some h" "si h \<noteq> 0" "get_tuple p 14 zero_tuple = Some (0, key)" "\<exists>a sa body. p = ethhdr a sa ETH_P_IP @ body"
proof -
  obtain v1 s1 q1 where 1: "encap_nsh E s p = Some ((v1, s1), q1)"
    using encap_nsh_total [of E s p] by (metis surj_pair)
  have "v1 = TC_ACT_UNSPEC"
  proof (rule ccontr)
    assume n: "v1 \<noteq> TC_ACT_UNSPEC"
    then have "encap_nsh E s p = Some ((TC_ACT_OK, s1), g)" using run 1 by (simp add: tc_egress_def)
    from encap_nsh_ok_proto [OF this] ip out show False by (simp add: proto_defs bswap16_def word_eval)
  qed
  with 1 have e: "encap_nsh E s p = Some ((TC_ACT_UNSPEC, s1), q1)" by simp
  obtain d sa body key h where p: "p = ethhdr d sa ETH_P_IP @ body" and k: "get_tuple p 14 zero_tuple = Some (0, key)"
    and h: "nsh_data s key = Some h" "si h \<noteq> 0" and q1: "q1 = ethhdr d sa ETH_P_NSH @ enc_nsh (next_nsh h) @ p"
    by (rule encap_nsh_unspec [OF room e])
  note k1 = encap_nsh_keeps [THEN keeps_fieldD, OF e]
  have "\<exists>a m. src_mac s 1 = Some m \<and> g = ethhdr a m ETH_P_NSH @ enc_nsh (next_nsh h) @ p"
    using run k1 e
    by (auto simp: tc_egress_def q1 forwarding_frame Let_def cb_retok_def cb_retother_def verdict_defs
        split: option.splits if_splits)
  then show thesis using that h k p by blast
qed

section \<open>Property\<close>

text \<open>C40. In every run of a node from an empty NSH map, whatever frames arrived, whatever the
  service function sent, whatever rules the agent added and whichever kernel helpers failed: every
  NSH frame that the egress hook passed on for an IPv4 packet is well formed, that is, it is the packet,
  unchanged, behind an NSH that announces an Ethernet frame and an outer header from the egress MAC
  address; and any node in working order whose ingress MAC address it carries takes it: the packet
  is passed up as it was, and its NSH remembered under its flow.\<close>

theorem emitted_frames_accepted:
  assumes run: "node_run s0 tr s" and empty: "nsh_data s0 = Map.empty"
    and sent: "(Packet_out p, Some g) \<in> set tr"
    and ip: "ld16 p 12 = Some (bswap16 ETH_P_IP)" and out: "ld16 g 12 = Some (bswap16 ETH_P_NSH)"
  shows "\<exists>d m h key. g = ethhdr d m ETH_P_NSH @ enc_nsh h @ p \<and> src_mac s0 1 = Some m
    \<and> next_proto h = NSH_NEXT_PROTO_ETHER \<and> get_tuple p 14 zero_tuple = Some (0, key)
    \<and> (\<forall>me (E :: stage_env) (st :: stage_state). node_at d me E st \<longrightarrow>
        (\<exists>st'. decap_nsh E st g = Some ((XDP_PASS, st'), p) \<and> nsh_data st' key = Some h))"
  using run sent
proof (induction rule: node_run.induct)
  case (step tr s e r s')
  show ?case
  proof (cases "(Packet_out p, Some g) = (e, r)")
    case False
    then show ?thesis using step by auto
  next
    case True
    with step.hyps(2) obtain E :: stage_env and fs fs' es s2 where room: "skb_room (skb_adjust_room E)"
      and e: "tc_egress E fs (s\<lparr>prog_stats := es\<rparr>) p = Some ((TC_ACT_OK, fs', s2), g)"
      by (auto simp: kernel_def elim!: packet_outE split: if_splits)
    from node_run_inv [OF step.hyps(1) empty] have inv: "node_inv s0 s" .
    obtain d m h key where g: "g = ethhdr d m ETH_P_NSH @ enc_nsh (next_nsh h) @ p" and m: "src_mac s 1 = Some m"
      and h: "nsh_data s key = Some h" and k: "get_tuple p 14 zero_tuple = Some (0, key)"
      and p: "\<exists>a sa body. p = ethhdr a sa ETH_P_IP @ body"
      by (rule egress_passes_nsh [OF room e ip out]) simp
    from h inv have np: "next_proto (next_nsh h) = NSH_NEXT_PROTO_ETHER" by (auto simp: node_inv_def ether_nsh_def)
    have "\<exists>st'. decap_nsh E' st g = Some ((XDP_PASS, st'), p) \<and> nsh_data st' key = Some (next_nsh h)"
      if n: "node_at d me E' st" for me and E' :: stage_env and st :: stage_state
    proof -
      from n have "helpers_work E'" "unicast d" "src_mac st 0 = Some d" by (simp_all add: node_at_def)
      from decap_works [OF this np _ k, of _ _ _ m] p show ?thesis unfolding g by metis
    qed
    moreover from m inv have "src_mac s0 1 = Some m" by (simp add: node_inv_def)
    ultimately show ?thesis using g np k by blast
  qed
qed simp

lemma sample_two_steps:
  "\<exists>s g. node_run sample_state [(Packet_out sample_inner, Some g), (Frame_in sample_frame, Some sample_inner)] s
    \<and> (\<exists>h. g = ethhdr mac_c mac_b ETH_P_NSH @ enc_nsh h @ sample_inner)"
proof -
  have k: "kernel sample_env" by (simp add: kernel_def sample_helpers)
  obtain s1 where d: "decap_nsh sample_env sample_state sample_frame = Some ((XDP_PASS, s1), sample_inner)"
    and s1: "src_mac s1 = [0 \<mapsto> mac_a, 1 \<mapsto> mac_b]" "nsh_data s1 = [sample_key \<mapsto> sample_nsh]"
      "fwd_table s1 = [0x01010000 \<mapsto> \<lparr>flags = 0, address = mac_c\<rparr>]"
    by (rule retok_obtain [of sample_env "(cb_mark_init sample_env sample_state)\<lparr>nsh_data := [sample_key \<mapsto> sample_nsh]\<rparr>" XDP_PASS])
       (use sample_decap in auto)
  have d': "decap_nsh sample_env (sample_state\<lparr>prog_stats := prog_stats sample_state\<rparr>) sample_frame
      = Some ((XDP_PASS, s1), sample_inner)"
    using d by simp
  have 1: "node_step sample_state (Frame_in sample_frame) (Some sample_inner) s1"
    using frame_in [OF k d'] by simp
  have b: "bswap32 (sph_of sample_nsh - 1) = 0x01010000"
    using sample_next by (simp add: sphkey)
  obtain fs s2 where e: "tc_egress sample_env Map.empty (s1\<lparr>prog_stats := Map.empty\<rparr>) sample_inner
      = Some ((TC_ACT_OK, fs, s2), ethhdr mac_c mac_b ETH_P_NSH @ enc_nsh (next_nsh sample_nsh) @ sample_inner)"
    using egress_works [OF sample_env_works _ sample_inner_def sample_tuple, of "s1\<lparr>prog_stats := Map.empty\<rparr>" mac_b Map.empty]
    by (auto simp: s1 sample_more b)
  have 2: "node_step s1 (Packet_out sample_inner) (Some (ethhdr mac_c mac_b ETH_P_NSH @ enc_nsh (next_nsh sample_nsh) @ sample_inner)) s2"
    using packet_out [OF k e] by simp
  from node_run.step [OF node_run.step [OF node_run.start 1] 2] show ?thesis by blast
qed

theorem emitted_frames_accepted_witness:
  "\<exists>tr s g st'. node_run sample_state tr s \<and> (Packet_out sample_inner, Some g) \<in> set tr
    \<and> decap_nsh sample_env sample_last g = Some ((XDP_PASS, st'), sample_inner)"
proof -
  obtain s g h where run: "node_run sample_state [(Packet_out sample_inner, Some g), (Frame_in sample_frame, Some sample_inner)] s"
    and g: "g = ethhdr mac_c mac_b ETH_P_NSH @ enc_nsh h @ sample_inner"
    using sample_two_steps by blast
  have ip: "ld16 sample_inner 12 = Some (bswap16 ETH_P_IP)" unfolding sample_inner_def by (rule eth_fields)
  have out: "ld16 g 12 = Some (bswap16 ETH_P_NSH)" unfolding g by (rule eth_fields)
  have node: "node_at mac_c mac_b sample_env sample_last"
    using sample_rules [of "(0, 0, 0, 0)"] by (simp add: sample_nodes_def)
  have sent: "(Packet_out sample_inner, Some g) \<in> set [(Packet_out sample_inner, Some g), (Frame_in sample_frame, Some sample_inner)]"
    by simp
  obtain d m h' where g': "g = ethhdr d m ETH_P_NSH @ enc_nsh h' @ sample_inner"
    and acc: "\<And>me (E :: stage_env) (st :: stage_state). node_at d me E st \<Longrightarrow>
      \<exists>st'. decap_nsh E st g = Some ((XDP_PASS, st'), sample_inner)"
    using emitted_frames_accepted [OF run sample_state_simps(2) sent ip out] by metis
  have "ld_h_dest g 0 = Some d" "ld_h_dest g 0 = Some mac_c"
    using eth_fields(1) [of d m ETH_P_NSH "enc_nsh h' @ sample_inner"]
      eth_fields(1) [of mac_c mac_b ETH_P_NSH "enc_nsh h @ sample_inner"] by (simp_all only: g [symmetric] g' [symmetric])
  then have "d = mac_c" by simp
  then show ?thesis using acc node run sent by blast
qed

end
