(* ===== verification/ControlPlane.thy ===== *)
theory ControlPlane
  imports CString Headers
begin

text \<open>
  The manager of the control plane, Go code under \<^verbatim>\<open>src/control/cbox\<close>: \<^verbatim>\<open>definitions.go\<close> (the
  chains configuration and the rules), \<^verbatim>\<open>messages.go\<close> (what manager and agents send each other)
  and \<^verbatim>\<open>manager.go\<close> (the rules of every node, computed from the configuration). A panic of the
  Go code, above all a nil pointer, is \<open>None\<close>; a map is a partial function, and where the code
  ranges over one, the order is an argument.
\<close>

section \<open>Configuration\<close>

type_synonym CBAddress = mac

definition zero_mac :: CBAddress where "zero_mac = Mac 0 0 0 0 0 0"

text \<open>\<^verbatim>\<open>copy\<close> copies as many bytes as both slices have; the others stay 0.\<close>

definition MakeCBAddress :: "bytes \<Rightarrow> CBAddress" where
  "MakeCBAddress addr = dec_mac (take 6 (addr @ replicate 6 0))"

record cb_instance =
  inst_tag :: string
  inst_type :: string
  inst_remote :: bool
  inst_id :: string
  inst_address :: CBAddress

record Ip_5tuplestr =
  str_ipsrc :: string
  str_ipdst :: string
  str_sport :: u16
  str_dport :: u16
  str_proto :: u8

record cb_chain =
  chain_id :: u32
  chain_nodes :: "string list"
  chain_flows :: "Ip_5tuplestr list"

record cb_config =
  cfg_chains :: "cb_chain list"
  cfg_functions :: "cb_instance list"
  name2idx :: "string \<rightharpoonup> nat"

text \<open>The loop over the functions: the last one with a name wins.\<close>

fun index_names :: "nat \<Rightarrow> cb_instance list \<Rightarrow> (string \<rightharpoonup> nat) \<Rightarrow> string \<rightharpoonup> nat" where
  "index_names i [] m = m"
| "index_names i (f # fs) m = index_names (Suc i) fs (m(inst_tag f \<mapsto> i))"

text \<open>\<open>NewCBConfig\<close> on the chains and functions that the JSON text holds.\<close>

definition NewCBConfig :: "cb_chain list \<Rightarrow> cb_instance list \<Rightarrow> cb_config" where
  "NewCBConfig cs functions =
     \<lparr>cfg_chains = cs, cfg_functions = functions, name2idx = index_names 0 functions Map.empty\<rparr>"

text \<open>An element of a slice; an index out of range is a panic.\<close>

definition elem_at :: "'a list \<Rightarrow> nat \<Rightarrow> 'a option" where
  "elem_at xs i = (if i < length xs then Some (xs ! i) else None)"

text \<open>The result is a pointer; \<open>None\<close> is nil.\<close>

definition GetNodeByName :: "cb_config \<Rightarrow> string \<Rightarrow> cb_instance option" where
  "GetNodeByName cfg name = (case name2idx cfg name of Some idx \<Rightarrow> elem_at (cfg_functions cfg) idx | None \<Rightarrow> None)"

section \<open>Rules\<close>

record Fwd_entry =
  Flags :: u8
  Address :: CBAddress

record Fwd_rule =
  fr_key :: u32
  fr_val :: Fwd_entry

record Ip_5tuple =
  Ipsrc :: u32
  Ipdst :: u32
  Sport :: u16
  Dport :: u16
  Proto :: u8

record Proxy_rule =
  pr_key :: Ip_5tuple
  pr_val :: u32

record CBRulesConfig =
  Fwd :: "Fwd_rule list"
  Proxy :: "Proxy_rule list"

text \<open>
  \<^verbatim>\<open>net.ParseIP\<close>: the first dot or colon decides; an IPv4 address is returned in its 16-byte
  form. \<open>V6\<close> is its parser of IPv6 texts.
\<close>

definition v4_in_v6 :: bytes where
  "v4_in_v6 = replicate 10 0 @ [0xFF, 0xFF]"

definition ParseIP :: "(string \<Rightarrow> bytes option) \<Rightarrow> string \<Rightarrow> bytes option" where
  "ParseIP V6 s = (case find (\<lambda>c. c = CHR ''.'' \<or> c = CHR '':'') s of
     None \<Rightarrow> None
   | Some c \<Rightarrow> if c = CHR ''.'' then map_option (\<lambda>w. v4_in_v6 @ enc32 w) (inet_pton s) else V6 s)"

text \<open>\<^verbatim>\<open>binary.BigEndian.Uint32\<close> panics on fewer than four bytes.\<close>

definition ip2int :: "bytes \<Rightarrow> u32 option" where
  "ip2int ip =
     (let b = (if length ip = 16 then take 4 (drop 12 ip) else ip) in
      if length b < 4 then None else Some (bswap32 (dec32 (take 4 b))))"

text \<open>An error of \<open>Parse\<close> makes its caller panic, so both are \<open>None\<close>.\<close>

definition Parse :: "(string \<Rightarrow> bytes option) \<Rightarrow> Ip_5tuplestr \<Rightarrow> Ip_5tuple option" where
  "Parse V6 t = do {
     ipsrc \<leftarrow> ParseIP V6 (str_ipsrc t);
     src \<leftarrow> ip2int ipsrc;
     ipdst \<leftarrow> ParseIP V6 (str_ipdst t);
     dst \<leftarrow> ip2int ipdst;
     Some \<lparr>Ipsrc = src, Ipdst = dst, Sport = str_sport t, Dport = str_dport t, Proto = str_proto t\<rparr>
   }"

section \<open>Messages\<close>

datatype msg_type = None_msg | Hello | Install

text \<open>The JSON body, as the value it stands for.\<close>

datatype msg_body = Hello_body string CBAddress | Install_body CBRulesConfig

record CBMsg =
  msg_type :: msg_type
  msg_data :: msg_body

datatype msg_obj = Obj_Hello string CBAddress | Obj_Install CBRulesConfig

definition MakeCBMsg_Hello :: "string \<Rightarrow> CBAddress \<Rightarrow> CBMsg" where
  "MakeCBMsg_Hello name addr = \<lparr>msg_type = Hello, msg_data = Hello_body name addr\<rparr>"

definition MakeCBMsg_Install :: "Fwd_rule list \<Rightarrow> Proxy_rule list \<Rightarrow> CBMsg" where
  "MakeCBMsg_Install fwd pxy = \<lparr>msg_type = Install, msg_data = Install_body \<lparr>Fwd = fwd, Proxy = pxy\<rparr>\<rparr>"

text \<open>A body of the other kind has none of the expected fields: they keep their zero values.\<close>

definition ParseCBMsg :: "CBMsg \<Rightarrow> msg_obj option" where
  "ParseCBMsg msg = (case msg_type msg of
     Hello \<Rightarrow> Some (case msg_data msg of
         Hello_body n a \<Rightarrow> Obj_Hello n a | Install_body r \<Rightarrow> Obj_Hello [] zero_mac)
   | Install \<Rightarrow> Some (case msg_data msg of
         Install_body r \<Rightarrow> Obj_Install r | Hello_body n a \<Rightarrow> Obj_Install \<lparr>Fwd = [], Proxy = []\<rparr>)
   | None_msg \<Rightarrow> None)"

section \<open>The manager\<close>

text \<open>A connection is a number.\<close>

record cBClient =
  conn :: nat
  addr :: CBAddress

record CBManager =
  connectedAgents :: "string \<rightharpoonup> cBClient"

text \<open>What the manager runs on: the parser of IPv6 texts, which connections can be written to,
  and the order in which the runtime visits the names of a map (names without an entry are skipped).\<close>

record manager_env =
  parse_v6 :: "string \<Rightarrow> bytes option"
  writable :: "nat \<Rightarrow> bool"
  range_order :: "string list"

text \<open>\<open>decoded\<close> is the first message on the connection; when it cannot be read, the zero message is
  looked at instead.\<close>

definition HandleConnection :: "nat \<Rightarrow> CBMsg option \<Rightarrow> CBManager \<Rightarrow> CBManager" where
  "HandleConnection c decoded M =
     (case (case decoded of Some msg \<Rightarrow> ParseCBMsg msg | None \<Rightarrow> None) of
        Some (Obj_Hello n a) \<Rightarrow> M\<lparr>connectedAgents := (connectedAgents M)(n \<mapsto> \<lparr>conn = c, addr = a\<rparr>)\<rparr>
      | _ \<Rightarrow> M)"

text \<open>\<^verbatim>\<open>m[k] = append(m[k], x)\<close>, where a missing entry is an empty slice.\<close>

definition append_to :: "('k \<rightharpoonup> 'a list) \<Rightarrow> 'k \<Rightarrow> 'a \<Rightarrow> 'k \<rightharpoonup> 'a list" where
  "append_to m k x = m(k \<mapsto> (case m k of Some l \<Rightarrow> l | None \<Rightarrow> []) @ [x])"

record rule_tables =
  frules :: "string \<rightharpoonup> Fwd_rule list"
  prules :: "string \<rightharpoonup> Proxy_rule list"

text \<open>The loop over the flows of a chain.\<close>

fun add_proxies :: "(string \<Rightarrow> bytes option) \<Rightarrow> string \<Rightarrow> u32 \<Rightarrow> Ip_5tuplestr list \<Rightarrow> rule_tables \<Rightarrow> rule_tables option" where
  "add_proxies V6 node sph [] R = Some R"
| "add_proxies V6 node sph (flow # fs) R = do {
     t \<leftarrow> Parse V6 flow;
     add_proxies V6 node sph fs (R\<lparr>prules := append_to (prules R) node \<lparr>pr_key = t, pr_val = sph + 1\<rparr>\<rparr>)
   }"

definition node_sph :: "cb_chain \<Rightarrow> nat \<Rightarrow> u32" where
  "node_sph chain i = push_bit 8 (chain_id chain) OR (254 - of_nat i)"

definition is_last :: "cb_chain \<Rightarrow> nat \<Rightarrow> bool" where
  "is_last chain i \<longleftrightarrow> i + 1 = length (chain_nodes chain)"

text \<open>The first half of the loop body: the forwarding rule of the node at position \<open>i\<close>.\<close>

definition fwd_part :: "CBManager \<Rightarrow> cb_config \<Rightarrow> cb_chain \<Rightarrow> nat \<Rightarrow> rule_tables \<Rightarrow> rule_tables option" where
  "fwd_part M cfg chain i R = do {
     node \<leftarrow> elem_at (chain_nodes chain) i;
     let sph = node_sph chain i;
     let cur = GetNodeByName cfg node;
     if is_last chain i then
       Some (R\<lparr>frules := append_to (frules R) node
         \<lparr>fr_key = sph, fr_val = \<lparr>Flags = 1, Address = zero_mac\<rparr>\<rparr>\<rparr>)
     else do {
       next_name \<leftarrow> elem_at (chain_nodes chain) (i + 1);
       nxt \<leftarrow> GetNodeByName cfg next_name;
       let address_next = (case connectedAgents M (inst_tag nxt) of Some cl \<Rightarrow> addr cl | None \<Rightarrow> zero_mac);
       cur \<leftarrow> cur;
       if inst_remote cur \<or> inst_remote nxt then
         Some (R\<lparr>frules := append_to (frules R) node
           \<lparr>fr_key = sph, fr_val = \<lparr>Flags = 0, Address = address_next\<rparr>\<rparr>\<rparr>)
       else Some R
     }
   }"

text \<open>The second half: the proxy rules, one per flow. The conditions are evaluated in the code's
  order, since each may meet a nil pointer.\<close>

definition proxy_part :: "manager_env \<Rightarrow> cb_config \<Rightarrow> cb_chain \<Rightarrow> nat \<Rightarrow> rule_tables \<Rightarrow> rule_tables option" where
  "proxy_part E cfg chain i R =
     (if i > 0 then do {
        node \<leftarrow> elem_at (chain_nodes chain) i;
        prev_name \<leftarrow> elem_at (chain_nodes chain) (i - 1);
        prev \<leftarrow> GetNodeByName cfg prev_name;
        if inst_remote prev then Some R
        else do {
          cur \<leftarrow> GetNodeByName cfg node;
          if inst_remote cur then Some R
          else do {
            ends \<leftarrow> (if is_last chain i then Some True
                     else do {
                       next_name \<leftarrow> elem_at (chain_nodes chain) (i + 1);
                       nxt \<leftarrow> GetNodeByName cfg next_name;
                       Some (inst_remote nxt)
                     });
            if ends then add_proxies (parse_v6 E) node (node_sph chain i) (chain_flows chain) R else Some R
          }
        }
      }
      else Some R)"

fun node_loop :: "manager_env \<Rightarrow> CBManager \<Rightarrow> cb_config \<Rightarrow> cb_chain \<Rightarrow> nat \<Rightarrow> nat \<Rightarrow> rule_tables \<Rightarrow> rule_tables option" where
  "node_loop E M cfg chain i 0 R = Some R"
| "node_loop E M cfg chain i (Suc n) R = do {
     R \<leftarrow> fwd_part M cfg chain i R;
     R \<leftarrow> proxy_part E cfg chain i R;
     node_loop E M cfg chain (Suc i) n R
   }"

fun chain_loop :: "manager_env \<Rightarrow> CBManager \<Rightarrow> cb_config \<Rightarrow> cb_chain list \<Rightarrow> rule_tables \<Rightarrow> rule_tables option" where
  "chain_loop E M cfg [] R = Some R"
| "chain_loop E M cfg (chain # cs) R = do {
     R \<leftarrow> node_loop E M cfg chain 0 (length (chain_nodes chain)) R;
     chain_loop E M cfg cs R
   }"

text \<open>The last loop: a node gets a configuration if it has a forwarding rule.\<close>

definition node_cfgs :: "rule_tables \<Rightarrow> string \<rightharpoonup> CBRulesConfig" where
  "node_cfgs R = (\<lambda>node. case frules R node of
     None \<Rightarrow> None
   | Some frule \<Rightarrow> Some \<lparr>Fwd = frule, Proxy = (case prules R node of Some prule \<Rightarrow> prule | None \<Rightarrow> [])\<rparr>)"

text \<open>The result: an error or nil, and the messages sent so far, each with its connection. The
  connection of an unknown node is nil, and writing to it a panic.\<close>

fun batchInstallRules ::
  "manager_env \<Rightarrow> CBManager \<Rightarrow> (string \<times> CBRulesConfig) list \<Rightarrow> (string option \<times> (nat \<times> CBMsg) list) option" where
  "batchInstallRules E M [] = Some (None, [])"
| "batchInstallRules E M ((node, rules) # rest) = do {
     cl \<leftarrow> connectedAgents M node;
     let data = MakeCBMsg_Install (Fwd rules) (Proxy rules);
     if writable E (conn cl) then do {
       (err, sent) \<leftarrow> batchInstallRules E M rest;
       Some (err, (conn cl, data) # sent)
     }
     else Some (Some ''Failed during rule installation!'', [])
   }"

definition range_map :: "string list \<Rightarrow> (string \<rightharpoonup> 'a) \<Rightarrow> (string \<times> 'a) list" where
  "range_map names m = List.map_filter (\<lambda>n. map_option (Pair n) (m n)) names"

definition no_rules :: rule_tables where
  "no_rules = \<lparr>frules = Map.empty, prules = Map.empty\<rparr>"

definition InstallConfiguration ::
  "manager_env \<Rightarrow> CBManager \<Rightarrow> cb_config \<Rightarrow> (string option \<times> (nat \<times> CBMsg) list) option" where
  "InstallConfiguration E M cfg =
     (if \<not> list_all (\<lambda>node. connectedAgents M (inst_tag node) \<noteq> None) (cfg_functions cfg)
      then Some (Some ''No connection to node'', [])
      else do {
        R \<leftarrow> chain_loop E M cfg (cfg_chains cfg) no_rules;
        batchInstallRules E M (range_map (range_order E) (node_cfgs R))
      })"

text \<open>
  \<^verbatim>\<open>cb_manager\<close> on its arguments: the connections that were accepted and read before the rules are
  computed, in the order in which they entered the table, each with its first message. The exit code
  (\<open>None\<close>: the program goes on serving), the error that is printed, and what was sent. An unreadable
  file is a panic.
\<close>

definition NewCBManager :: CBManager where
  "NewCBManager = \<lparr>connectedAgents = Map.empty\<rparr>"

definition serve :: "(nat \<times> CBMsg option) list \<Rightarrow> CBManager \<Rightarrow> CBManager" where
  "serve conns M = fold (\<lambda>(c, decoded). HandleConnection c decoded) conns M"

definition manager_main ::
  "manager_env \<Rightarrow> string list \<Rightarrow> (string \<Rightarrow> (cb_chain list \<times> cb_instance list) option) \<Rightarrow> (nat \<times> CBMsg option) list
   \<Rightarrow> (int option \<times> string option \<times> (nat \<times> CBMsg) list) option" where
  "manager_main E args ReadFile conns =
     (if length args \<noteq> 2 then Some (Some 1, None, [])
      else do {
        (cs, fs) \<leftarrow> ReadFile (args ! 1);
        let cfg = NewCBConfig cs fs;
        let cbm = serve conns NewCBManager;
        (err, sent) \<leftarrow> InstallConfiguration E cbm cfg;
        Some (None, err, sent)
      })"

section \<open>The keys of the rules\<close>

lemma unat_path_index:
  fixes x p :: u32
  assumes "unat x < 256"
  shows "unat (push_bit 8 p OR x) = 256 * (unat p mod 2 ^ 24) + unat x"
proof -
  have t: "take_bit 8 x = x" using assms
    by (simp add: word_unat_eq_iff unsigned_take_bit_eq take_bit_nat_eq_self)
  have "push_bit 8 p AND take_bit 8 x = 0"
    by (rule bit_word_eqI) (auto simp: bit_simps)
  then have d: "push_bit 8 p AND x = 0" by (simp only: t)
  have "unat (push_bit 8 p) = (256 * unat p) mod (256 * 2 ^ 24)"
    by (simp add: push_bit_eq_mult unat_word_ariths mult.commute)
  then have u: "unat (push_bit 8 p) = 256 * (unat p mod 2 ^ 24)"
    by (simp only: mult_mod_right)
  have "unat p mod 2 ^ 24 < 2 ^ 24" by simp
  then have "256 * (unat p mod 2 ^ 24) + unat x < 2 ^ 32" using assms by simp
  then have "unat (push_bit 8 p + x) = 256 * (unat p mod 2 ^ 24) + unat x"
    by (subst unat_add_small) (simp_all only: u)
  then show ?thesis by (simp only: disjunctive_add_eq_or [OF d])
qed

lemma unat_node_sph:
  assumes "i \<le> 254"
  shows "unat (node_sph c i) = 256 * (unat (chain_id c) mod 2 ^ 24) + (254 - i)"
proof -
  have "(254 :: u32) - of_nat i = of_nat (254 - i)" using assms by (simp add: of_nat_diff)
  then have u: "unat ((254 :: u32) - of_nat i) = 254 - i"
    by (simp only: unat_of_nat) simp
  show ?thesis unfolding node_sph_def
    by (subst unat_path_index) (simp_all add: u)
qed

lemma node_sph_eq:
  assumes "i \<le> 254" "j \<le> 254" and "unat (chain_id c) < 2 ^ 24" "unat (chain_id c') < 2 ^ 24"
  shows "node_sph c i = node_sph c' j \<longleftrightarrow> chain_id c = chain_id c' \<and> i = j"
proof
  assume "node_sph c i = node_sph c' j"
  then have e: "256 * unat (chain_id c) + (254 - i) = 256 * unat (chain_id c') + (254 - j)"
    using unat_node_sph [OF assms(1), of c] unat_node_sph [OF assms(2), of c'] assms(3,4) by simp
  have "(256 * n + (254 - k)) div 256 = n" "(256 * n + (254 - k)) mod 256 = 254 - k" for n k :: nat
    by (simp_all add: div_mult_self2)
  with e have "unat (chain_id c) = unat (chain_id c')" "254 - i = 254 - j" by metis+
  then show "chain_id c = chain_id c' \<and> i = j" using assms(1,2) by (simp add: word_unat_eq_iff)
qed (simp add: node_sph_def)

section \<open>The rules of a node\<close>

text \<open>The specification: what the rules of the node at position \<open>i\<close> of a chain are. Two local
  neighbours have a direct link.\<close>

definition remote_at :: "cb_config \<Rightarrow> cb_chain \<Rightarrow> nat \<Rightarrow> bool" where
  "remote_at cfg c i = (case GetNodeByName cfg (chain_nodes c ! i) of Some n \<Rightarrow> inst_remote n | None \<Rightarrow> False)"

definition direct :: "cb_config \<Rightarrow> cb_chain \<Rightarrow> nat \<Rightarrow> bool" where
  "direct cfg c i \<longleftrightarrow> \<not> remote_at cfg c i \<and> \<not> remote_at cfg c (i + 1)"

definition addr_at :: "CBManager \<Rightarrow> cb_config \<Rightarrow> cb_chain \<Rightarrow> nat \<Rightarrow> mac" where
  "addr_at M cfg c i = (case GetNodeByName cfg (chain_nodes c ! i) of
     Some n \<Rightarrow> (case connectedAgents M (inst_tag n) of Some cl \<Rightarrow> addr cl | None \<Rightarrow> zero_mac)
   | None \<Rightarrow> zero_mac)"

definition fwd_rule_at :: "CBManager \<Rightarrow> cb_config \<Rightarrow> cb_chain \<Rightarrow> nat \<Rightarrow> Fwd_rule option" where
  "fwd_rule_at M cfg c i =
     (if is_last c i then Some \<lparr>fr_key = node_sph c i, fr_val = \<lparr>Flags = 1, Address = zero_mac\<rparr>\<rparr>
      else if direct cfg c i then None
      else Some \<lparr>fr_key = node_sph c i, fr_val = \<lparr>Flags = 0, Address = addr_at M cfg c (i + 1)\<rparr>\<rparr>)"

definition proxied :: "cb_config \<Rightarrow> cb_chain \<Rightarrow> nat \<Rightarrow> bool" where
  "proxied cfg c i \<longleftrightarrow> 0 < i \<and> direct cfg c (i - 1) \<and> (is_last c i \<or> \<not> direct cfg c i)"

definition proxy_rules_at :: "manager_env \<Rightarrow> cb_config \<Rightarrow> cb_chain \<Rightarrow> nat \<Rightarrow> Proxy_rule set" where
  "proxy_rules_at E cfg c i = (if proxied cfg c i
     then {\<lparr>pr_key = t, pr_val = node_sph c i + 1\<rparr> | t flow. flow \<in> set (chain_flows c) \<and> Parse (parse_v6 E) flow = Some t}
     else {})"

definition elems :: "('k \<rightharpoonup> 'a list) \<Rightarrow> 'k \<Rightarrow> 'a set" where
  "elems m k = (case m k of Some l \<Rightarrow> set l | None \<Rightarrow> {})"

lemma elems_append_to: "elems (append_to m k x) k' = (if k' = k then insert x (elems m k) else elems m k')"
  by (auto simp: elems_def append_to_def split: option.split)

lemma append_to_dom [simp]: "dom (append_to m k x) = insert k (dom m)"
  by (auto simp: append_to_def)

lemma elem_at_Some [simp]: "elem_at xs i = Some x \<longleftrightarrow> i < length xs \<and> x = xs ! i"
  by (auto simp: elem_at_def)

lemma fwd_part_Some:
  assumes "fwd_part M cfg c i R = Some R'"
  shows "R' = (case fwd_rule_at M cfg c i of None \<Rightarrow> R
    | Some r \<Rightarrow> R\<lparr>frules := append_to (frules R) (chain_nodes c ! i) r\<rparr>)"
  using assms
  by (auto simp: fwd_part_def fwd_rule_at_def direct_def remote_at_def addr_at_def Let_def
      split: if_splits Option.bind_splits)

lemma add_proxies_Some:
  "add_proxies V6 node sph flows R = Some R' \<Longrightarrow> frules R' = frules R
    \<and> elems (prules R') n = elems (prules R) n \<union> (if n = node then
        {\<lparr>pr_key = t, pr_val = sph + 1\<rparr> | t flow. flow \<in> set flows \<and> Parse V6 flow = Some t} else {})
    \<and> (dom (prules R') \<subseteq> insert node (dom (prules R)))
    \<and> (\<forall>flow\<in>set flows. Parse V6 flow \<noteq> None)"
proof (induction flows arbitrary: R)
  case (Cons flow fs)
  then obtain t where t: "Parse V6 flow = Some t"
    and rest: "add_proxies V6 node sph fs (R\<lparr>prules := append_to (prules R) node \<lparr>pr_key = t, pr_val = sph + 1\<rparr>\<rparr>) = Some R'"
    by (auto split: Option.bind_splits)
  from Cons.IH [OF rest] t show ?case by (auto simp: elems_append_to)
qed auto

lemma proxy_part_Some:
  assumes "proxy_part E cfg c i R = Some R'"
  shows "frules R' = frules R
    \<and> elems (prules R') n = elems (prules R) n \<union> (if n = chain_nodes c ! i then proxy_rules_at E cfg c i else {})
    \<and> dom (prules R') \<subseteq> dom (prules R) \<union> (if proxied cfg c i then {chain_nodes c ! i} else {})"
proof -
  have *: "R' = R \<and> \<not> proxied cfg c i \<or> proxied cfg c i \<and>
    add_proxies (parse_v6 E) (chain_nodes c ! i) (node_sph c i) (chain_flows c) R = Some R'"
    using assms
    by (auto simp: proxy_part_def proxied_def direct_def remote_at_def Let_def
        split: if_splits Option.bind_splits)
  then show ?thesis
    using add_proxies_Some [of "parse_v6 E" "chain_nodes c ! i" "node_sph c i" "chain_flows c" R R' n]
    by (auto simp: proxy_rules_at_def)
qed
text \<open>What a node gets at the positions \<open>i\<close> to \<open>i + n\<close> of a chain, and at all positions of the chains
  \<open>cs\<close>.\<close>

definition at_range :: "cb_chain \<Rightarrow> string \<Rightarrow> (nat \<Rightarrow> 'a set) \<Rightarrow> nat \<Rightarrow> nat \<Rightarrow> 'a set" where
  "at_range c node f i n = {r. \<exists>j\<in>{i..<i + n}. chain_nodes c ! j = node \<and> r \<in> f j}"

definition at_positions :: "cb_chain list \<Rightarrow> string \<Rightarrow> (cb_chain \<Rightarrow> nat \<Rightarrow> 'a set) \<Rightarrow> 'a set" where
  "at_positions cs node f = (\<Union>c\<in>set cs. at_range c node (f c) 0 (length (chain_nodes c)))"

lemma at_range_0 [simp]: "at_range c node f i 0 = {}"
  by (simp add: at_range_def)

lemma at_range_Suc:
  "at_range c node f i (Suc n) = (if node = chain_nodes c ! i then f i else {}) \<union> at_range c node f (Suc i) n"
proof -
  have "{i..<i + Suc n} = insert i {Suc i..<Suc i + n}" by auto
  then show ?thesis by (auto simp: at_range_def)
qed

lemma node_loop_rules:
  assumes "node_loop E M cfg c i n R = Some R'"
  shows "elems (frules R') node = elems (frules R) node
        \<union> at_range c node (\<lambda>j. set_option (fwd_rule_at M cfg c j)) i n
    \<and> elems (prules R') node = elems (prules R) node \<union> at_range c node (proxy_rules_at E cfg c) i n
    \<and> (dom (prules R) \<subseteq> dom (frules R) \<longrightarrow> dom (prules R') \<subseteq> dom (frules R'))"
  using assms
proof (induction n arbitrary: i R)
  case (Suc n)
  let ?k = "chain_nodes c ! i"
  obtain R1 R2 where 1: "fwd_part M cfg c i R = Some R1" and 2: "proxy_part E cfg c i R1 = Some R2"
    and 3: "node_loop E M cfg c (Suc i) n R2 = Some R'"
    using Suc.prems by (auto split: Option.bind_splits)
  have f: "elems (frules R1) node = elems (frules R) node
      \<union> (if node = ?k then set_option (fwd_rule_at M cfg c i) else {})"
    "prules R1 = prules R" "dom (frules R) \<subseteq> dom (frules R1)"
    "fwd_rule_at M cfg c i \<noteq> None \<Longrightarrow> ?k \<in> dom (frules R1)"
    using fwd_part_Some [OF 1] by (auto simp: elems_append_to split: option.splits)
  have px: "proxied cfg c i \<Longrightarrow> fwd_rule_at M cfg c i \<noteq> None"
    by (auto simp: proxied_def fwd_rule_at_def)
  note p = proxy_part_Some [OF 2, of node]
  have d: "dom (prules R) \<subseteq> dom (frules R) \<Longrightarrow> dom (prules R2) \<subseteq> dom (frules R2)"
    using p f(2,3) f(4) [OF px] by (cases "proxied cfg c i") (simp_all only: if_True if_False, blast+)
  show ?case
    unfolding at_range_Suc using Suc.IH [OF 3] p f(1,2) d by (simp only: Un_assoc) blast
qed simp

lemma chain_loop_rules:
  assumes "chain_loop E M cfg cs R = Some R'"
  shows "elems (frules R') node = elems (frules R) node
      \<union> at_positions cs node (\<lambda>c i. set_option (fwd_rule_at M cfg c i))
    \<and> elems (prules R') node = elems (prules R) node \<union> at_positions cs node (proxy_rules_at E cfg)
    \<and> (dom (prules R) \<subseteq> dom (frules R) \<longrightarrow> dom (prules R') \<subseteq> dom (frules R'))"
  using assms
proof (induction cs arbitrary: R)
  case (Cons c cs)
  obtain R1 where 1: "node_loop E M cfg c 0 (length (chain_nodes c)) R = Some R1"
    and 2: "chain_loop E M cfg cs R1 = Some R'"
    using Cons.prems by (auto split: Option.bind_splits)
  have c: "at_positions (c # cs) node f = at_range c node (f c) 0 (length (chain_nodes c)) \<union> at_positions cs node f"
    for f :: "cb_chain \<Rightarrow> nat \<Rightarrow> 'b set"
    by (simp add: at_positions_def)
  from node_loop_rules [OF 1, of node] Cons.IH [OF 2] show ?case
    unfolding c by (simp only: Un_assoc) blast
qed (simp add: at_positions_def)

text \<open>The messages that are sent when there is no error.\<close>

lemma batchInstallRules_sent:
  assumes "batchInstallRules E M rs = Some (None, sent)"
  shows "sent = map (\<lambda>(node, r). (conn (the (connectedAgents M node)), MakeCBMsg_Install (Fwd r) (Proxy r))) rs"
    and "\<forall>x\<in>set rs. connectedAgents M (fst x) \<noteq> None"
  using assms
  by (induction E M rs arbitrary: sent rule: batchInstallRules.induct)
     (force simp: Let_def split: Option.bind_splits if_splits)+

end
