(* ===== verification/ControlAgent.thy ===== *)
theory ControlAgent
  imports ControlPlane Agent
begin

text \<open>
  The agent of a node, Go code: \<^verbatim>\<open>src/control/cbox/agent.go\<close> and \<^verbatim>\<open>src/control/cb_agent.go\<close>. It
  loads the stages with the C functions of \<open>Agent\<close>, tells the manager its name and address, and
  installs the rules that the manager sends. A panic is \<open>None\<close>, as is a command of the C code
  that does not fit its buffer.
\<close>

section \<open>State\<close>

text \<open>\<^verbatim>\<open>net.Interface\<close>: the name and the hardware address.\<close>

record net_iface =
  if_name :: string
  HardwareAddr :: bytes

record CBAgent =
  agent_name :: string
  ingress_iface :: "net_iface option"
  egress_iface :: "net_iface option"
  agent_conn :: "nat option"

text \<open>\<open>dial server n\<close> is the connection that the attempt after \<open>n\<close> failed ones gets.\<close>

record control_env = agent_env +
  InterfaceByName :: "string \<Rightarrow> net_iface option"
  dial :: "string \<Rightarrow> nat \<Rightarrow> nat option"

section \<open>Starting\<close>

definition installStages ::
  "'e control_env_scheme \<Rightarrow> CBAgent \<Rightarrow> string \<Rightarrow> 's agent_state_scheme \<Rightarrow> (string option \<times> 's agent_state_scheme) option" where
  "installStages E cba obj_path s =
     (let egress_part = (\<lambda>s. case egress_iface cba of
            None \<Rightarrow> Some (None, s)
          | Some i \<Rightarrow> do {
              (ret, s) \<leftarrow> load_egress_stages E (if_name i) obj_path s;
              if ret \<noteq> 0 then Some (Some ''Failed to load egress stages'', s) else Some (None, s)
            }) in
      case ingress_iface cba of
        None \<Rightarrow> egress_part s
      | Some i \<Rightarrow> do {
          (ret, s) \<leftarrow> load_ingress_stages E (if_name i) obj_path s;
          if ret \<noteq> 0 then Some (Some ''Failed to load ingress stages'', s) else egress_part s
        })"

text \<open>An interface by its name; no name means no interface.\<close>

definition open_iface :: "'e control_env_scheme \<Rightarrow> string \<Rightarrow> string + net_iface option" where
  "open_iface E ifname =
     (if ifname = [] then Inr None
      else case InterfaceByName E ifname of None \<Rightarrow> Inl ''no such network interface'' | Some i \<Rightarrow> Inr (Some i))"

definition NewCBAgent ::
  "'e control_env_scheme \<Rightarrow> string \<Rightarrow> string \<Rightarrow> string \<Rightarrow> string \<Rightarrow> 's agent_state_scheme
   \<Rightarrow> ((string + CBAgent) \<times> 's agent_state_scheme) option" where
  "NewCBAgent E name ingress_ifname egress_ifname objpath s =
     (case open_iface E ingress_ifname of
        Inl err \<Rightarrow> Some (Inl err, s)
      | Inr ingress \<Rightarrow>
          (case (if egress_ifname \<noteq> [] \<and> ingress_ifname = egress_ifname then Inr ingress
                 else open_iface E egress_ifname) of
             Inl err \<Rightarrow> Some (Inl err, s)
           | Inr egress \<Rightarrow>
               (let cba = \<lparr>agent_name = name, ingress_iface = ingress, egress_iface = egress, agent_conn = None\<rparr> in
                do {
                  (err, s) \<leftarrow> installStages E cba objpath s;
                  Some (case err of Some e \<Rightarrow> Inl e | None \<Rightarrow> Inr cba, s)
                })))"

section \<open>Connecting\<close>

text \<open>The loop of \<open>ManagerConnect\<close> after \<open>ntries\<close> failed attempts; also how many there were in the
  end.\<close>

function connect_loop :: "(nat \<Rightarrow> nat option) \<Rightarrow> nat \<Rightarrow> (string + nat) \<times> nat" where
  "connect_loop attempt ntries =
     (case attempt ntries of
        Some c \<Rightarrow> (Inr c, ntries)
      | None \<Rightarrow> (let ntries = ntries + 1 in
          if ntries \<ge> 10 then (Inl ''Failed to connect to controller'', ntries)
          else connect_loop attempt ntries))"
  by pat_completeness auto

termination
  by (relation "measure (\<lambda>(attempt, n). 10 - n)") auto

declare connect_loop.simps [simp del]

text \<open>An error of sending the Hello is printed and otherwise ignored.\<close>

definition ManagerConnect ::
  "'e control_env_scheme \<Rightarrow> string \<Rightarrow> CBAgent \<Rightarrow> (string option \<times> CBAgent) \<times> (nat \<times> CBMsg) list" where
  "ManagerConnect E server cba =
     (case fst (connect_loop (dial E server) 0) of
        Inl err \<Rightarrow> ((Some err, cba), [])
      | Inr c \<Rightarrow>
          (let cba = cba\<lparr>agent_conn := Some c\<rparr>;
               addrBytes = (case ingress_iface cba of Some i \<Rightarrow> HardwareAddr i | None \<Rightarrow> replicate 6 0);
               hello = MakeCBMsg_Hello (agent_name cba) (MakeCBAddress addrBytes) in
           ((None, cba), [(c, hello)])))"

section \<open>Listening\<close>

datatype decode_result = Decoded CBMsg | EOF | Bad_data

text \<open>
  The loop of \<open>ManagerListen\<close> on what the decoder returns, one element per call: the error it ends
  with, if the list is long enough, and the Install messages that were handed to a goroutine.
\<close>

fun listen_loop :: "decode_result list \<Rightarrow> string option \<times> CBRulesConfig list" where
  "listen_loop [] = (None, [])"
| "listen_loop (EOF # ds) = (Some ''Agent received EOF'', [])"
| "listen_loop (Bad_data # ds) = (Some ''Failed to decode message'', [])"
| "listen_loop (Decoded msg # ds) =
     (case ParseCBMsg msg of
        Some (Obj_Install mi) \<Rightarrow> (let (err, started) = listen_loop ds in (err, mi # started))
      | _ \<Rightarrow> (Some ''Unrecognized message format.'', []))"

text \<open>Without a connection already the \<^verbatim>\<open>defer cba.conn.Close()\<close> is a nil interface.\<close>

definition ManagerListen :: "CBAgent \<Rightarrow> decode_result list \<Rightarrow> (string option \<times> CBRulesConfig list) option" where
  "ManagerListen cba ds = (case agent_conn cba of None \<Rightarrow> None | Some c \<Rightarrow> Some (listen_loop ds))"

section \<open>Installing rules\<close>

text \<open>The Go structs are read as the C structs through a pointer; the fields are at the same
  offsets.\<close>

definition as_fwd_entry :: "Fwd_entry \<Rightarrow> fwd_entry" where
  "as_fwd_entry v = \<lparr>flags = Flags v, address = Address v\<rparr>"

definition as_ip_5tuple :: "Ip_5tuple \<Rightarrow> ip_5tuple" where
  "as_ip_5tuple k = \<lparr>ip_src = Ipsrc k, ip_dst = Ipdst k, sport = Sport k, dport = Dport k, proto = Proto k\<rparr>"

text \<open>The results of the C functions are ignored. \<open>stack n\<close> is what lies on the stack in the call of
  \<open>add_proxy_rule\<close> after \<open>n\<close> others.\<close>

fun install_fwd :: "'e agent_env_scheme \<Rightarrow> Fwd_rule list \<Rightarrow> 's agent_state_scheme \<Rightarrow> 's agent_state_scheme" where
  "install_fwd E [] s = s"
| "install_fwd E (rule # rs) s = install_fwd E rs (snd (add_fwd_rule E (fr_key rule) (as_fwd_entry (fr_val rule)) s))"

fun install_proxy :: "'e agent_env_scheme \<Rightarrow> (nat \<Rightarrow> stack16) \<Rightarrow> Proxy_rule list \<Rightarrow> 's agent_state_scheme \<Rightarrow> 's agent_state_scheme" where
  "install_proxy E stack [] s = s"
| "install_proxy E stack (rule # rs) s = install_proxy E (stack \<circ> Suc) rs
     (snd (add_proxy_rule E (stack 0) (as_ip_5tuple (pr_key rule)) (pr_val rule) s))"

definition handleInstall ::
  "'e agent_env_scheme \<Rightarrow> (nat \<Rightarrow> stack16) \<Rightarrow> CBRulesConfig \<Rightarrow> 's agent_state_scheme \<Rightarrow> 's agent_state_scheme" where
  "handleInstall E stack mi s = install_proxy E stack (Proxy mi) (install_fwd E (Fwd mi) s)"

section \<open>The program\<close>

text \<open>\<^verbatim>\<open>cb_agent\<close> on its arguments: the exit code, the state, what was sent, and the Install messages
  whose handlers were started. \<open>Some 0\<close> never occurs; \<open>None\<close> as exit code means still running.\<close>

definition agent_main ::
  "'e control_env_scheme \<Rightarrow> string list \<Rightarrow> decode_result list \<Rightarrow> 's agent_state_scheme
   \<Rightarrow> (int option \<times> 's agent_state_scheme \<times> (nat \<times> CBMsg) list \<times> CBRulesConfig list) option" where
  "agent_main E args ds s =
     (if length args < 5 then Some (Some 1, s, [], [])
      else let name = args ! 1; iiface = args ! 2; eiface = args ! 3; objpath = args ! 4;
               server_address = (if length args = 6 then args ! 5 else '':9000'');
               iiface = (if iiface = ''-'' then [] else iiface);
               eiface = (if eiface = ''-'' then [] else eiface) in do {
        (r, s) \<leftarrow> NewCBAgent E name iiface eiface objpath s;
        case r of
          Inl err \<Rightarrow> Some (Some 1, s, [], [])
        | Inr cba \<Rightarrow>
            (let ((err, cba), sent) = ManagerConnect E server_address cba in
             if err \<noteq> None then Some (Some 1, s, sent, [])
             else do {
               (err, started) \<leftarrow> ManagerListen cba ds;
               Some (if err \<noteq> None then Some 1 else None, s, sent, started)
             })
      })"

section \<open>What the operations do\<close>

lemma load_ingress_ok:
  assumes run: "load_ingress_stages E iface obj s = Some (0, s')"
    and upd: "map_update (upd_src_mac E (obj_get E src_mac_file))"
  shows "cmds s' = cmds s @ [xdp_add_cmd iface obj ''xdp/decap'']
    \<and> m_src_mac s' = (m_src_mac s)(0 \<mapsto> hwaddr_of E iface)
    \<and> m_nsh_data s' = m_nsh_data s \<and> m_fwd_table s' = m_fwd_table s"
proof -
  let ?s1 = "s\<lparr>cmds := cmds s @ [xdp_add_cmd iface obj ''xdp/decap'']\<rparr>"
  have "config_src_mac_map E iface INGRESS_MAC (snd (get_map_fds E ?s1)) = (0, s')"
    using run
    by (auto simp: load_ingress_stages_def xdp_add_def xdp_remove_def Let_def
        dest!: runcmd_Some split: if_splits Option.bind_splits prod.splits)
  from config_src_mac_map_frame [OF _ this] upd show ?thesis by simp
qed

text \<open>What is run and stored for the interfaces an agent has.\<close>

definition ingress_cmds :: "string \<Rightarrow> net_iface option \<Rightarrow> string list" where
  "ingress_cmds obj i = (case i of None \<Rightarrow> [] | Some i \<Rightarrow> [xdp_add_cmd (if_name i) obj ''xdp/decap''])"

definition egress_cmds :: "string \<Rightarrow> net_iface option \<Rightarrow> string list" where
  "egress_cmds obj i = (case i of None \<Rightarrow> [] | Some i \<Rightarrow>
     [clsact_cmd (if_name i), attach_cmd (if_name i) obj 1 1 ''action/encap'' EGRESS,
      attach_cmd (if_name i) obj 2 1 ''action/forward'' EGRESS])"

definition with_mac :: "'e agent_env_scheme \<Rightarrow> srcmac_idx \<Rightarrow> net_iface option \<Rightarrow> (u32 \<rightharpoonup> mac) \<Rightarrow> u32 \<rightharpoonup> mac" where
  "with_mac E idx i m = (case i of None \<Rightarrow> m | Some i \<Rightarrow> m(srcmac_key idx \<mapsto> hwaddr_of E (if_name i)))"

lemma installStages_ok:
  assumes run: "installStages E cba obj s = Some (None, s')"
    and upd: "map_update (upd_src_mac E (obj_get E src_mac_file))"
  shows "cmds s' = cmds s @ ingress_cmds obj (ingress_iface cba) @ egress_cmds obj (egress_iface cba)
    \<and> m_src_mac s' = with_mac E EGRESS_MAC (egress_iface cba) (with_mac E INGRESS_MAC (ingress_iface cba) (m_src_mac s))
    \<and> m_nsh_data s' = m_nsh_data s \<and> m_fwd_table s' = m_fwd_table s"
proof -
  note ok = load_ingress_ok [OF _ upd] load_egress_stages_order [OF _ upd]
  show ?thesis
    using run
    by (cases "ingress_iface cba"; cases "egress_iface cba")
       (auto simp: installStages_def ingress_cmds_def egress_cmds_def with_mac_def
         dest!: ok split: if_splits Option.bind_splits)
qed

text \<open>The interfaces are those of the given names.\<close>

definition iface_named :: "'e control_env_scheme \<Rightarrow> string \<Rightarrow> net_iface option \<Rightarrow> bool" where
  "iface_named E n i \<longleftrightarrow> (if n = [] then i = None else \<exists>x. i = Some x \<and> InterfaceByName E n = Some x)"

lemma open_iface_ok: "open_iface E n = Inr i \<longleftrightarrow> iface_named E n i"
  by (auto simp: open_iface_def iface_named_def split: option.splits)

lemma NewCBAgent_ok:
  assumes run: "NewCBAgent E name iif eif obj s = Some (Inr cba, s')"
  shows "iface_named E iif (ingress_iface cba) \<and> iface_named E eif (egress_iface cba)
    \<and> agent_name cba = name \<and> installStages E cba obj s = Some (None, s')"
  using run
  by (auto simp: NewCBAgent_def Let_def open_iface_ok [symmetric]
      split: sum.splits if_splits Option.bind_splits option.splits)

lemma connect_loop_result:
  "n < 10 \<Longrightarrow> (case connect_loop attempt n of
     (Inr c, k) \<Rightarrow> n \<le> k \<and> k < 10 \<and> attempt k = Some c \<and> (\<forall>j. n \<le> j \<and> j < k \<longrightarrow> attempt j = None)
   | (Inl e, k) \<Rightarrow> k = 10 \<and> (\<forall>j. n \<le> j \<and> j < 10 \<longrightarrow> attempt j = None))"
proof (induction attempt n rule: connect_loop.induct)
  case (1 attempt n)
  show ?case
  proof (cases "attempt n")
    case None
    show ?thesis
    proof (cases "n = 9")
      case True
      then show ?thesis using None by (subst connect_loop.simps) (auto simp: less_Suc_eq_le le_Suc_eq numeral_eq_Suc)
    next
      case False
      with 1 None have IH: "case connect_loop attempt (Suc n) of
         (Inr c, k) \<Rightarrow> Suc n \<le> k \<and> k < 10 \<and> attempt k = Some c \<and> (\<forall>j. Suc n \<le> j \<and> j < k \<longrightarrow> attempt j = None)
       | (Inl e, k) \<Rightarrow> k = 10 \<and> (\<forall>j. Suc n \<le> j \<and> j < 10 \<longrightarrow> attempt j = None)" by auto
      have j: "n \<le> j \<longleftrightarrow> j = n \<or> Suc n \<le> j" for j by auto
      have "connect_loop attempt n = connect_loop attempt (Suc n)"
        using None False 1 by (subst connect_loop.simps) (auto simp: Let_def)
      with IH None show ?thesis unfolding j by (auto split: prod.splits sum.splits)
    qed
  next
    case (Some c)
    then show ?thesis using 1 by (subst connect_loop.simps) auto
  qed
qed

section \<open>The maps after an Install message\<close>

definition updates_work :: "'e agent_env_scheme \<Rightarrow> bool" where
  "updates_work E \<longleftrightarrow> (\<forall>fd. map_update (upd_nsh_data E fd) \<and> map_update (upd_fwd_table E fd)
     \<and> (\<forall>m k v. fst (upd_nsh_data E fd m k v BPF_ANY) = 0) \<and> (\<forall>m k v. fst (upd_fwd_table E fd m k v BPF_ANY) = 0))"

text \<open>The NSH that a proxy rule stores.\<close>

definition proxy_nsh :: "stack16 \<Rightarrow> u32 \<Rightarrow> nshhdr_md1" where
  "proxy_nsh stack sph = \<lparr>basic_info = bswap16 (NSH_TTL_DEFAULT OR NSH_BASE_LENGHT_MD_TYPE_2),
     md_type = NSH_MD_TYPE_2, next_proto = NSH_NEXT_PROTO_ETHER, serv_path = bswap32 sph, nsh_context = stack\<rparr>"

lemma proxy_nsh_fields: "sph_of (proxy_nsh c sph) = sph \<and> next_proto (proxy_nsh c sph) = NSH_NEXT_PROTO_ETHER"
  by (simp add: proxy_nsh_def sph_of_def)

lemma add_proxy_rule_works: "updates_work E \<Longrightarrow>
  add_proxy_rule E stack key sph s = (0, s\<lparr>m_nsh_data := (m_nsh_data s)(net_key key \<mapsto> proxy_nsh stack sph)\<rparr>)"
  using map_update.update_ok [of "upd_nsh_data E (fd_nsh_data s)" "m_nsh_data s" "net_key key" "proxy_nsh stack sph" BPF_ANY]
  by (auto simp: add_proxy_rule_def proxy_nsh_def updates_work_def dec_nsh_proxy Let_def prod_eq_iff split: prod.split)

lemma add_fwd_rule_works: "updates_work E \<Longrightarrow>
  add_fwd_rule E key val s = (0, s\<lparr>m_fwd_table := (m_fwd_table s)(bswap32 key \<mapsto> val)\<rparr>)"
  using map_update.update_ok [of "upd_fwd_table E (fd_fwd_table s)" "m_fwd_table s" "bswap32 key" val BPF_ANY]
  by (auto simp: add_fwd_rule_def updates_work_def Let_def prod_eq_iff split: prod.split)

end
