(* ===== verification/Interleave.thy ===== *)
theory Interleave
  imports Main "HOL-Library.Multiset"
begin

text \<open>
  Threads that run concurrently, each a list of atomic steps. A run of them is an element of
  \<open>interleavings\<close>. The locale \<open>commuting_steps\<close> is what the handlers of the control plane rely on:
  steps that agree with each other commute. It follows that all runs end in the same state.
\<close>

fun interleavings :: "'a list list \<Rightarrow> 'a list set" where
  "interleavings [] = {[]}"
| "interleavings (xs # xss) = (\<Union>ys \<in> interleavings xss. shuffles xs ys)"

lemma mset_interleavings: "ys \<in> interleavings xss \<Longrightarrow> mset ys = mset (concat xss)"
  by (induction xss arbitrary: ys) (auto simp: mset_shuffles)

lemma set_interleavings: "ys \<in> interleavings xss \<Longrightarrow> set ys = set (concat xss)"
  using mset_interleavings mset_eq_setD by blast

text \<open>One thread after the other is a run, and so is the reverse order.\<close>

lemma append_in_shuffles: "xs @ ys \<in> shuffles xs ys \<and> ys @ xs \<in> shuffles xs ys"
proof (induction xs ys rule: shuffles.induct)
  case (3 x xs y ys)
  then show ?case by (auto simp: Cons_in_shuffles_iff)
qed simp_all

lemma concat_in_interleavings: "concat xss \<in> interleavings xss"
proof (induction xss)
  case (Cons xs xss)
  then show ?case using append_in_shuffles [of xs "concat xss"] by auto
qed simp

lemma fold_concat: "fold f (concat xss) s = fold (fold f) xss s"
  by (induction xss arbitrary: s) simp_all

locale commuting_steps =
  fixes step :: "'a \<Rightarrow> 's \<Rightarrow> 's" and agree :: "'a \<Rightarrow> 'a \<Rightarrow> bool"
  assumes commute: "agree x y \<Longrightarrow> step x (step y s) = step y (step x s)"
begin

lemma order_irrelevant:
  assumes "mset xs = mset ys" and "\<And>x y. x \<in> set xs \<Longrightarrow> y \<in> set xs \<Longrightarrow> agree x y"
  shows "fold step xs s = fold step ys s"
proof -
  have "step x \<circ> step y = step y \<circ> step x" if "x \<in> set xs" "y \<in> set xs" for x y
    using commute [OF assms(2) [OF that]] by (simp add: fun_eq_iff)
  from fold_multiset_equiv [OF this assms(1)] show ?thesis by simp
qed

lemma confluent:
  assumes "run \<in> interleavings xss" and "\<And>x y. x \<in> set (concat xss) \<Longrightarrow> y \<in> set (concat xss) \<Longrightarrow> agree x y"
  shows "fold step run s = fold (fold step) xss s"
proof -
  have "fold step run s = fold step (concat xss) s"
    by (rule order_irrelevant [OF mset_interleavings [OF assms(1)]]) (use assms set_interleavings in blast)
  then show ?thesis by (simp add: fold_concat)
qed

end

end
