(* ===== verification/Handlers.thy ===== *)
theory Handlers
  imports ControlAgent Interleave
begin

text \<open>
  The handlers that the Go programs start in goroutines: one of \<open>handleInstall\<close> for every Install
  message (\<^verbatim>\<open>src/control/cbox/agent.go\<close>), one of \<open>HandleConnection\<close> for every agent
  (\<^verbatim>\<open>src/control/cbox/manager.go\<close>). An atomic step of the former is the call of a C function, which
  ends in one update of a map by the kernel. Every call finds other bytes on its stack, and of these
  \<open>add_proxy_rule\<close> stores sixteen as the context words of an NSH.
\<close>

section \<open>Steps\<close>

datatype install_step = Fwd_step Fwd_rule | Proxy_step Proxy_rule

fun run_step :: "'e agent_env_scheme \<Rightarrow> stack16 \<Rightarrow> install_step \<Rightarrow> 's agent_state_scheme \<Rightarrow> 's agent_state_scheme" where
  "run_step E stack (Fwd_step rule) s = snd (add_fwd_rule E (fr_key rule) (as_fwd_entry (fr_val rule)) s)"
| "run_step E stack (Proxy_step rule) s = snd (add_proxy_rule E stack (as_ip_5tuple (pr_key rule)) (pr_val rule) s)"

text \<open>A sequence of steps; \<open>stack n\<close> is what the one after \<open>n\<close> others finds on its stack.\<close>

fun run_steps ::
  "'e agent_env_scheme \<Rightarrow> (nat \<Rightarrow> stack16) \<Rightarrow> install_step list \<Rightarrow> 's agent_state_scheme \<Rightarrow> 's agent_state_scheme" where
  "run_steps E stack [] s = s"
| "run_steps E stack (x # xs) s = run_steps E (stack \<circ> Suc) xs (run_step E (stack 0) x s)"

text \<open>The steps of the handler of a message, in its order.\<close>

definition handler_steps :: "CBRulesConfig \<Rightarrow> install_step list" where
  "handler_steps mi = map Fwd_step (Fwd mi) @ map Proxy_step (Proxy mi)"

text \<open>For comparison: the handlers one after the other; \<open>stacks n\<close> are the stacks in the handler after
  \<open>n\<close> others.\<close>

fun handle_in_order ::
  "'e agent_env_scheme \<Rightarrow> (nat \<Rightarrow> nat \<Rightarrow> stack16) \<Rightarrow> CBRulesConfig list \<Rightarrow> 's agent_state_scheme \<Rightarrow> 's agent_state_scheme" where
  "handle_in_order E stacks [] s = s"
| "handle_in_order E stacks (mi # mis) s = handle_in_order E (stacks \<circ> Suc) mis (handleInstall E (stacks 0) mi s)"

text \<open>Two rules are consistent if they do not say different things about the same key.\<close>

fun consistent :: "install_step \<Rightarrow> install_step \<Rightarrow> bool" where
  "consistent (Fwd_step r) (Fwd_step r') \<longleftrightarrow> (fr_key r = fr_key r' \<longrightarrow> fr_val r = fr_val r')"
| "consistent (Proxy_step r) (Proxy_step r') \<longleftrightarrow> (pr_key r = pr_key r' \<longrightarrow> pr_val r = pr_val r')"
| "consistent _ _ \<longleftrightarrow> True"

definition all_consistent :: "install_step list \<Rightarrow> bool" where
  "all_consistent xs \<longleftrightarrow> (\<forall>x\<in>set xs. \<forall>y\<in>set xs. consistent x y)"

section \<open>States up to the bytes of the stack\<close>

definition forget_ctx :: "nshhdr_md1 \<Rightarrow> nshhdr_md1" where
  "forget_ctx h = h\<lparr>nsh_context := (0, 0, 0, 0)\<rparr>"

definition settled :: "'s agent_state_scheme \<Rightarrow> 's agent_state_scheme" where
  "settled s = s\<lparr>m_nsh_data := map_option forget_ctx \<circ> m_nsh_data s\<rparr>"

lemma settled_fields [simp]:
  "m_nsh_data (settled s) k = map_option forget_ctx (m_nsh_data s k)"
  "m_fwd_table (settled s) = m_fwd_table s" "m_src_mac (settled s) = m_src_mac s"
  by (simp_all add: settled_def)

lemma forget_proxy: "forget_ctx (proxy_nsh c sph) = proxy_nsh (0, 0, 0, 0) sph"
  by (simp add: forget_ctx_def proxy_nsh_def)

lemma net_key_eq_iff [simp]: "net_key (as_ip_5tuple k) = net_key (as_ip_5tuple k') \<longleftrightarrow> k = k'"
  by (cases k; cases k') (auto simp: net_key_def as_ip_5tuple_def)

lemma run_step_works:
  "updates_work E \<Longrightarrow> run_step E c (Fwd_step r) s = s\<lparr>m_fwd_table := (m_fwd_table s)(bswap32 (fr_key r) \<mapsto> as_fwd_entry (fr_val r))\<rparr>"
  "updates_work E \<Longrightarrow> run_step E c (Proxy_step p) s =
    s\<lparr>m_nsh_data := (m_nsh_data s)(net_key (as_ip_5tuple (pr_key p)) \<mapsto> proxy_nsh c (pr_val p))\<rparr>"
  by (simp_all add: add_fwd_rule_works add_proxy_rule_works)

text \<open>Up to them, a step does not depend on its stack.\<close>

abbreviation clean_step :: "'e agent_env_scheme \<Rightarrow> install_step \<Rightarrow> 's agent_state_scheme \<Rightarrow> 's agent_state_scheme" where
  "clean_step E \<equiv> run_step E (0, 0, 0, 0)"

lemma settled_step: "updates_work E \<Longrightarrow> settled (run_step E c x s) = clean_step E x (settled s)"
proof (cases x)
  case (Proxy_step p)
  assume u: "updates_work E"
  have "map_option forget_ctx \<circ> (m_nsh_data s)(k \<mapsto> proxy_nsh c v)
      = (map_option forget_ctx \<circ> m_nsh_data s)(k \<mapsto> proxy_nsh (0, 0, 0, 0) v)" for k v
    by (simp add: fun_eq_iff forget_proxy)
  then show ?thesis by (simp add: Proxy_step run_step_works [OF u] settled_def del: run_step.simps)
qed (simp add: run_step_works settled_def del: run_step.simps)

lemma settled_steps: "updates_work E \<Longrightarrow> settled (run_steps E stack xs s) = fold (clean_step E) xs (settled s)"
  by (induction xs arbitrary: stack s) (simp_all add: settled_step del: run_step.simps)

lemma install_steps:
  "install_fwd E rs s = run_steps E stack (map Fwd_step rs) s"
  "install_proxy E stack ps s = run_steps E stack (map Proxy_step ps) s"
  by (induction rs arbitrary: s stack, simp_all) (induction ps arbitrary: s stack, simp_all)

lemma settled_handler:
  "updates_work E \<Longrightarrow> settled (handleInstall E stack mi s) = fold (clean_step E) (handler_steps mi) (settled s)"
  by (simp add: handleInstall_def handler_steps_def install_steps(1) [where stack = stack] install_steps(2) settled_steps)

lemma settled_in_order:
  "updates_work E \<Longrightarrow> settled (handle_in_order E stacks msgs s) = fold (fold (clean_step E)) (map handler_steps msgs) (settled s)"
  by (induction msgs arbitrary: stacks s) (simp_all add: settled_handler)

section \<open>Steps of consistent rules commute\<close>

lemma map_upd_commute: "(k = k' \<longrightarrow> v = v') \<Longrightarrow> m(k \<mapsto> v, k' \<mapsto> v') = m(k' \<mapsto> v', k \<mapsto> v)"
  by (auto simp: fun_eq_iff)

lemma run_step_commute:
  assumes "updates_work E" and "consistent x y"
  shows "run_step E c x (run_step E c y s) = run_step E c y (run_step E c x s)"
proof (cases x; cases y)
  fix r r' assume xy: "x = Fwd_step r" "y = Fwd_step r'"
  then have "bswap32 (fr_key r) = bswap32 (fr_key r') \<longrightarrow> as_fwd_entry (fr_val r) = as_fwd_entry (fr_val r')"
    using assms(2) by simp
  from map_upd_commute [OF this, of "m_fwd_table s"] show ?thesis
    by (simp add: xy run_step_works [OF assms(1)] del: run_step.simps)
next
  fix p p' assume xy: "x = Proxy_step p" "y = Proxy_step p'"
  then have "net_key (as_ip_5tuple (pr_key p)) = net_key (as_ip_5tuple (pr_key p')) \<longrightarrow>
      proxy_nsh c (pr_val p) = proxy_nsh c (pr_val p')"
    using assms(2) by simp
  from map_upd_commute [OF this, of "m_nsh_data s"] show ?thesis
    by (simp add: xy run_step_works [OF assms(1)] del: run_step.simps)
qed (simp_all add: run_step_works [OF assms(1)] del: run_step.simps)

interpretation handlers: commuting_steps "run_step E c" "\<lambda>x y. updates_work E \<and> consistent x y" for E c
  by unfold_locales (rule run_step_commute; simp)

section \<open>The maps while handlers run\<close>

text \<open>Steps leave the entries of other keys alone.\<close>

lemma steps_frame:
  assumes "updates_work E"
  shows "(\<And>r. Fwd_step r \<in> set xs \<Longrightarrow> bswap32 (fr_key r) \<noteq> k) \<Longrightarrow> m_fwd_table (run_steps E stack xs s) k = m_fwd_table s k"
    and "(\<And>p. Proxy_step p \<in> set xs \<Longrightarrow> net_key (as_ip_5tuple (pr_key p)) \<noteq> k') \<Longrightarrow>
      m_nsh_data (run_steps E stack xs s) k' = m_nsh_data s k'"
    and "m_src_mac (run_steps E stack xs s) = m_src_mac s"
proof -
  note w = run_step_works [OF assms]
  show "(\<And>r. Fwd_step r \<in> set xs \<Longrightarrow> bswap32 (fr_key r) \<noteq> k) \<Longrightarrow> m_fwd_table (run_steps E stack xs s) k = m_fwd_table s k"
  proof (induction xs arbitrary: s stack)
    case (Cons x xs)
    then show ?case by (cases x) (force simp: w simp del: run_step.simps)+
  qed simp
  show "(\<And>p. Proxy_step p \<in> set xs \<Longrightarrow> net_key (as_ip_5tuple (pr_key p)) \<noteq> k') \<Longrightarrow>
      m_nsh_data (run_steps E stack xs s) k' = m_nsh_data s k'"
  proof (induction xs arbitrary: s stack)
    case (Cons x xs)
    then show ?case by (cases x) (force simp: w simp del: run_step.simps)+
  qed simp
  show "m_src_mac (run_steps E stack xs s) = m_src_mac s"
  proof (induction xs arbitrary: s stack)
    case (Cons x xs)
    then show ?case by (cases x) (simp_all add: w del: run_step.simps)
  qed simp
qed

text \<open>A rule that was installed stays in place as long as only rules follow that are consistent with
  it.\<close>

lemma steps_install_fwd:
  assumes "updates_work E"
  shows "\<forall>y\<in>set xs. consistent (Fwd_step r) y \<Longrightarrow>
    Fwd_step r \<in> set xs \<or> m_fwd_table s (bswap32 (fr_key r)) = Some (as_fwd_entry (fr_val r)) \<Longrightarrow>
    m_fwd_table (run_steps E stack xs s) (bswap32 (fr_key r)) = Some (as_fwd_entry (fr_val r))"
proof (induction xs arbitrary: s stack)
  case (Cons x xs)
  have "Fwd_step r \<in> set xs \<or> m_fwd_table (run_step E (stack 0) x s) (bswap32 (fr_key r)) = Some (as_fwd_entry (fr_val r))"
    using Cons.prems by (cases x) (auto simp: run_step_works [OF assms] simp del: run_step.simps)
  with Cons show ?case by (simp del: run_step.simps)
qed simp

lemma steps_install_proxy:
  assumes "updates_work E"
  shows "\<forall>y\<in>set xs. consistent (Proxy_step p) y \<Longrightarrow>
    Proxy_step p \<in> set xs \<or> (\<exists>c. m_nsh_data s (net_key (as_ip_5tuple (pr_key p))) = Some (proxy_nsh c (pr_val p))) \<Longrightarrow>
    \<exists>c. m_nsh_data (run_steps E stack xs s) (net_key (as_ip_5tuple (pr_key p))) = Some (proxy_nsh c (pr_val p))"
proof (induction xs arbitrary: s stack)
  case (Cons x xs)
  have "Proxy_step p \<in> set xs
      \<or> (\<exists>c. m_nsh_data (run_step E (stack 0) x s) (net_key (as_ip_5tuple (pr_key p))) = Some (proxy_nsh c (pr_val p)))"
    using Cons.prems by (cases x) (auto simp: run_step_works [OF assms] simp del: run_step.simps split_paired_Ex)
  with Cons show ?case by (simp del: run_step.simps split_paired_Ex)
qed simp

text \<open>At every moment an entry is as it was before the first step or as it is after the last, up to the
  bytes of the stack.\<close>

lemma steps_before_after:
  assumes u: "updates_work E" and "all_consistent xs"
  shows "m_fwd_table (run_steps E stack (take n xs) s) k \<in> {m_fwd_table s k, m_fwd_table (run_steps E stack xs s) k}"
    and "map_option forget_ctx (m_nsh_data (run_steps E stack (take n xs) s) k')
      \<in> {map_option forget_ctx (m_nsh_data s k'), map_option forget_ctx (m_nsh_data (run_steps E stack xs s) k')}"
proof -
  have sub: "x \<in> set (take n xs) \<Longrightarrow> x \<in> set xs" for x by (rule in_set_takeD)
  have c: "\<forall>y\<in>set xs. consistent x y" "\<forall>y\<in>set (take n xs). consistent x y" if "x \<in> set (take n xs)" for x
    using assms(2) sub that unfolding all_consistent_def by blast+
  show "m_fwd_table (run_steps E stack (take n xs) s) k \<in> {m_fwd_table s k, m_fwd_table (run_steps E stack xs s) k}"
  proof (cases "\<exists>r. Fwd_step r \<in> set (take n xs) \<and> bswap32 (fr_key r) = k")
    case True
    then obtain r where r: "Fwd_step r \<in> set (take n xs)" "k = bswap32 (fr_key r)" by blast
    have "m_fwd_table (run_steps E stack (take n xs) s) k = Some (as_fwd_entry (fr_val r))"
      "m_fwd_table (run_steps E stack xs s) k = Some (as_fwd_entry (fr_val r))"
      using steps_install_fwd [OF u c(2) [OF r(1)]] steps_install_fwd [OF u c(1) [OF r(1)]] sub [OF r(1)] r by blast+
    then show ?thesis by simp
  next
    case False
    then show ?thesis using steps_frame(1) [OF u, of "take n xs" k stack s] by auto
  qed
  show "map_option forget_ctx (m_nsh_data (run_steps E stack (take n xs) s) k')
      \<in> {map_option forget_ctx (m_nsh_data s k'), map_option forget_ctx (m_nsh_data (run_steps E stack xs s) k')}"
  proof (cases "\<exists>p. Proxy_step p \<in> set (take n xs) \<and> net_key (as_ip_5tuple (pr_key p)) = k'")
    case True
    then obtain p where p: "Proxy_step p \<in> set (take n xs)" "k' = net_key (as_ip_5tuple (pr_key p))" by blast
    obtain c1 c2 where "m_nsh_data (run_steps E stack (take n xs) s) k' = Some (proxy_nsh c1 (pr_val p))"
      "m_nsh_data (run_steps E stack xs s) k' = Some (proxy_nsh c2 (pr_val p))"
      using steps_install_proxy [OF u c(2) [OF p(1)], of s stack] steps_install_proxy [OF u c(1) [OF p(1)], of s stack]
        sub [OF p(1)] p by auto
    then show ?thesis by (simp add: forget_proxy)
  next
    case False
    then show ?thesis using steps_frame(2) [OF u, of "take n xs" k' stack s] by auto
  qed
qed

section \<open>Concurrent Install messages\<close>

text \<open>C5. However the goroutines that handle the Install messages interleave and whatever their stacks
  hold, if the messages do not say different things about the same key and the kernel takes every
  update, the agent ends in the state in which it would be after handling one message after the
  other, with whatever other stacks, except for the context words of the NSHs, which are bytes of
  the stacks. Every rule of every message is in place; and at every moment on the way an entry of the
  two maps is either what it was before or what it will be in the end, again up to the context
  words.\<close>

theorem install_order_irrelevant:
  assumes upd: "updates_work E" and run: "run \<in> interleavings (map handler_steps msgs)"
    and cons: "all_consistent run"
  shows "settled (run_steps E stack run s) = settled (handle_in_order E stacks msgs s)
    \<and> (\<forall>mi\<in>set msgs.
        (\<forall>r\<in>set (Fwd mi). m_fwd_table (run_steps E stack run s) (bswap32 (fr_key r)) = Some (as_fwd_entry (fr_val r)))
      \<and> (\<forall>p\<in>set (Proxy mi). \<exists>c. m_nsh_data (run_steps E stack run s) (net_key (as_ip_5tuple (pr_key p)))
            = Some (proxy_nsh c (pr_val p))))
    \<and> (\<forall>n k. m_fwd_table (run_steps E stack (take n run) s) k \<in> {m_fwd_table s k, m_fwd_table (run_steps E stack run s) k})
    \<and> (\<forall>n k. map_option forget_ctx (m_nsh_data (run_steps E stack (take n run) s) k)
        \<in> {map_option forget_ctx (m_nsh_data s k), map_option forget_ctx (m_nsh_data (run_steps E stack run s) k)})"
proof (intro conjI ballI allI)
  have set: "set run = set (concat (map handler_steps msgs))" by (rule set_interleavings [OF run])
  show "settled (run_steps E stack run s) = settled (handle_in_order E stacks msgs s)"
    using handlers.confluent [OF run, of E "(0, 0, 0, 0)" "settled s"] upd cons
    unfolding all_consistent_def set by (simp add: settled_steps settled_in_order)
  fix mi assume mi: "mi \<in> set msgs"
  { fix r assume "r \<in> set (Fwd mi)"
    then have "Fwd_step r \<in> set run" using mi unfolding set by (auto simp: handler_steps_def)
    with cons show "m_fwd_table (run_steps E stack run s) (bswap32 (fr_key r)) = Some (as_fwd_entry (fr_val r))"
      by (intro steps_install_fwd [OF upd]) (auto simp: all_consistent_def) }
  { fix p assume "p \<in> set (Proxy mi)"
    then have "Proxy_step p \<in> set run" using mi unfolding set by (auto simp: handler_steps_def)
    with cons show "\<exists>c. m_nsh_data (run_steps E stack run s) (net_key (as_ip_5tuple (pr_key p))) = Some (proxy_nsh c (pr_val p))"
      by (intro steps_install_proxy [OF upd]) (auto simp: all_consistent_def) }
qed (fact steps_before_after [OF upd cons])+

definition sample_rule :: "u32 \<Rightarrow> mac \<Rightarrow> Fwd_rule" where
  "sample_rule k a = \<lparr>fr_key = k, fr_val = \<lparr>Flags = 0, Address = a\<rparr>\<rparr>"

definition sample_proxy :: Proxy_rule where
  "sample_proxy = \<lparr>pr_key = \<lparr>Ipsrc = 1, Ipdst = 2, Sport = 3, Dport = 4, Proto = 17\<rparr>, pr_val = 0x1FF\<rparr>"

definition sample_installs :: "CBRulesConfig list" where
  "sample_installs = [\<lparr>Fwd = [sample_rule 0x1FE mac_a], Proxy = [sample_proxy]\<rparr>,
     \<lparr>Fwd = [sample_rule 0x1FE mac_a, sample_rule 0x2FE mac_b], Proxy = [sample_proxy]\<rparr>]"

text \<open>The second handler overtakes the first, and the two calls for the same proxy rule find different
  bytes on their stacks.\<close>

definition sample_interleaving :: "install_step list" where
  "sample_interleaving = [Fwd_step (sample_rule 0x1FE mac_a), Fwd_step (sample_rule 0x1FE mac_a),
     Fwd_step (sample_rule 0x2FE mac_b), Proxy_step sample_proxy, Proxy_step sample_proxy]"

lemma roomy_rc: "fst (upd_roomy m k v BPF_ANY) = 0"
  by (simp add: upd_roomy_def BPF_ANY_def BPF_NOEXIST_def)

lemma sample_updates_work: "updates_work sample_agent_env"
  by (simp add: updates_work_def sample_helpers roomy_rc)

theorem install_order_irrelevant_witness:
  "settled (run_steps sample_agent_env (\<lambda>n. (of_nat n, 0, 0, 0)) sample_interleaving sample_agent)
      = settled (handle_in_order sample_agent_env (\<lambda>m n. (7, of_nat m, 0, 0)) sample_installs sample_agent)
    \<and> m_fwd_table (run_steps sample_agent_env (\<lambda>n. (of_nat n, 0, 0, 0)) sample_interleaving sample_agent) (bswap32 0x2FE)
      = Some \<lparr>flags = 0, address = mac_b\<rparr>"
proof -
  have run: "sample_interleaving \<in> interleavings (map handler_steps sample_installs)"
    by (simp add: sample_interleaving_def sample_installs_def handler_steps_def Cons_in_shuffles_iff)
  have cons: "all_consistent sample_interleaving"
    by (simp add: all_consistent_def sample_interleaving_def sample_rule_def)
  have r: "sample_rule 0x2FE mac_b \<in> set (Fwd (sample_installs ! 1))" "sample_installs ! 1 \<in> set sample_installs"
    by (simp_all add: sample_installs_def)
  from install_order_irrelevant [OF sample_updates_work run cons, of "\<lambda>n. (of_nat n, 0, 0, 0)" sample_agent
      "\<lambda>m n. (7, of_nat m, 0, 0)"] r show ?thesis
    by (force simp: sample_rule_def as_fwd_entry_def)
qed

section \<open>Concurrent connections\<close>

text \<open>The name that an agent says.\<close>

definition hello_name :: "nat \<times> CBMsg option \<Rightarrow> string option" where
  "hello_name x = (case snd x of None \<Rightarrow> None | Some msg \<Rightarrow>
     (case ParseCBMsg msg of Some (Obj_Hello n a) \<Rightarrow> Some n | _ \<Rightarrow> None))"

lemma HandleConnection_hello:
  "hello_name (c, d) = None \<Longrightarrow> HandleConnection c d M = M"
  "hello_name (c, d) = Some n \<Longrightarrow> \<exists>a. \<forall>M. HandleConnection c d M =
     M\<lparr>connectedAgents := (connectedAgents M)(n \<mapsto> \<lparr>conn = c, addr = a\<rparr>)\<rparr>"
  by (auto simp: hello_name_def HandleConnection_def split: option.splits msg_obj.splits)

interpretation connections: commuting_steps "\<lambda>(c, d). HandleConnection c d"
  "\<lambda>x y. x = y \<or> hello_name x = None \<or> hello_name x \<noteq> hello_name y"
proof
  fix x y :: "nat \<times> CBMsg option" and M
  assume a: "x = y \<or> hello_name x = None \<or> hello_name x \<noteq> hello_name y"
  obtain c d c' d' where xy: "x = (c, d)" "y = (c', d')" by (cases x; cases y) auto
  show "(case x of (c, d) \<Rightarrow> HandleConnection c d) ((case y of (c, d) \<Rightarrow> HandleConnection c d) M) =
      (case y of (c, d) \<Rightarrow> HandleConnection c d) ((case x of (c, d) \<Rightarrow> HandleConnection c d) M)"
  proof (cases "hello_name x"; cases "hello_name y")
    fix n n' assume nn: "hello_name x = Some n" "hello_name y = Some n'"
    then obtain a1 a2 where h: "\<And>M. HandleConnection c d M = M\<lparr>connectedAgents := (connectedAgents M)(n \<mapsto> \<lparr>conn = c, addr = a1\<rparr>)\<rparr>"
      "\<And>M. HandleConnection c' d' M = M\<lparr>connectedAgents := (connectedAgents M)(n' \<mapsto> \<lparr>conn = c', addr = a2\<rparr>)\<rparr>"
      using HandleConnection_hello(2) unfolding xy by meson
    show ?thesis
    proof (cases "x = y")
      case False
      then have "n \<noteq> n'" using a nn by auto
      then show ?thesis by (simp add: xy h fun_upd_twist)
    qed simp
  qed (simp_all add: xy HandleConnection_hello(1))
qed

text \<open>So the order in which agents with different names connect does not matter.\<close>

lemma serve_order_irrelevant:
  assumes "mset conns = mset conns'"
    and "\<And>x y. x \<in> set conns \<Longrightarrow> y \<in> set conns \<Longrightarrow> x \<noteq> y \<Longrightarrow> hello_name x \<noteq> None \<Longrightarrow> hello_name x \<noteq> hello_name y"
  shows "serve conns M = serve conns' M"
  unfolding serve_def by (rule connections.order_irrelevant [OF assms(1)]) (use assms(2) in blast)

end
