(* ===== verification/Deploy.thy ===== *)
theory Deploy
  imports ControlPlane
begin

text \<open>
  \<^verbatim>\<open>src/control/cb_deploy.go\<close>, the deployment of a configuration: which neighbours get a direct link,
  and the command that starts every service function with its agent. The rest of the program is in
  \<open>DeployProgram\<close>. The koko library is outside; that a direct link can be made is an argument.
  \<open>Inl\<close> is the exit code: 1 for \<^verbatim>\<open>os.Exit(1)\<close>, 2 for a panic.
\<close>

section \<open>Direct links\<close>

text \<open>\<open>veths\<close> are the ends of the links that were made: the identifier of the container and the name
  of the interface in it.\<close>

record links =
  ingress_ifaces :: "string \<rightharpoonup> string"
  egress_ifaces :: "string \<rightharpoonup> string"
  dlgid :: nat
  veths :: "(string \<times> string) list"

definition no_links :: links where
  "no_links = \<lparr>ingress_ifaces = Map.empty, egress_ifaces = Map.empty, dlgid = 0, veths = []\<rparr>"

definition getDirectLinkNames :: "nat \<Rightarrow> string \<times> string" where
  "getDirectLinkNames n = (''dl'' @ show_nat n @ ''a'', ''dl'' @ show_nat n @ ''b'')"

text \<open>One turn of the loop over the nodes of a chain, for \<open>i > 0\<close>: the link from the node before.
  \<open>veth_ok\<close> says whether two containers can be linked.\<close>

definition link_turn ::
  "(string \<Rightarrow> string \<Rightarrow> bool) \<Rightarrow> cb_config \<Rightarrow> cb_chain \<Rightarrow> nat \<Rightarrow> links \<Rightarrow> int + links" where
  "link_turn veth_ok cfg chain i L =
     (case GetNodeByName cfg (chain_nodes chain ! (i - 1)) of
        None \<Rightarrow> Inl 2
      | Some n1 \<Rightarrow>
          if inst_remote n1 then Inr L
          else case GetNodeByName cfg (chain_nodes chain ! i) of
            None \<Rightarrow> Inl 2
          | Some n2 \<Rightarrow>
              if inst_remote n2 then Inr L
              else if ingress_ifaces L (inst_tag n2) \<noteq> None then Inl 1
              else if egress_ifaces L (inst_tag n1) \<noteq> None then Inl 1
              else if \<not> veth_ok (inst_id n1) (inst_id n2) then Inl 1
              else let (dl1, dl2) = getDirectLinkNames (dlgid L) in
                Inr (L\<lparr>ingress_ifaces := (ingress_ifaces L)(inst_tag n2 \<mapsto> dl2),
                       egress_ifaces := (egress_ifaces L)(inst_tag n1 \<mapsto> dl1), dlgid := dlgid L + 1,
                       veths := veths L @ [(inst_id n1, dl1), (inst_id n2, dl2)]\<rparr>))"

fun link_loop ::
  "(string \<Rightarrow> string \<Rightarrow> bool) \<Rightarrow> cb_config \<Rightarrow> cb_chain \<Rightarrow> nat \<Rightarrow> nat \<Rightarrow> links \<Rightarrow> int + links" where
  "link_loop veth_ok cfg chain i 0 L = Inr L"
| "link_loop veth_ok cfg chain i (Suc n) L =
     (case link_turn veth_ok cfg chain i L of Inl e \<Rightarrow> Inl e | Inr L \<Rightarrow> link_loop veth_ok cfg chain (Suc i) n L)"

fun link_chains :: "(string \<Rightarrow> string \<Rightarrow> bool) \<Rightarrow> cb_config \<Rightarrow> cb_chain list \<Rightarrow> links \<Rightarrow> int + links" where
  "link_chains veth_ok cfg [] L = Inr L"
| "link_chains veth_ok cfg (chain # cs) L =
     (if length (chain_nodes chain) < 2 then link_chains veth_ok cfg cs L
      else case link_loop veth_ok cfg chain 1 (length (chain_nodes chain) - 1) L of
        Inl e \<Rightarrow> Inl e
      | Inr L \<Rightarrow> link_chains veth_ok cfg cs L)"

section \<open>Starting the service functions\<close>

datatype NetType = OVS | MACVLAN | BRIDGE | SRIOV

fun getDefaultInterfaces :: "NetType \<Rightarrow> string \<times> string" where
  "getDefaultInterfaces BRIDGE = (''eth0'', ''eth0'')"
| "getDefaultInterfaces MACVLAN = (''eth2'', ''eth2'')"
| "getDefaultInterfaces OVS = (''eth1'', ''eth2'')"
| "getDefaultInterfaces SRIOV = (''eth1'', ''eth2'')"

definition target_dir :: string where "target_dir = ''/cb''"

definition getTypeExecString :: "string \<Rightarrow> string \<Rightarrow> string \<Rightarrow> string list option" where
  "getTypeExecString sfType ingress egress =
     (let basedir = target_dir @ ''/src/build/'' in
      if sfType = ''user-redirect'' then Some [basedir @ ''user-redirect'', ingress, ''10.10.0.1'']
      else if sfType = ''xdp-redirect'' then Some [basedir @ ''xdp_redirect_map'', ingress, egress]
      else if sfType = ''tc-redirect'' then
        Some [''--'', basedir @ ''tc_bench01_redirect'', ''--ingress'', ingress, ''--egress'', egress, ''--srcip'', ''10.10.0.1'']
      else if sfType = ''tc-redirect-swap'' then
        Some [''--'', basedir @ ''tc_bench01_redirect'', ''--ingress'', ingress, ''--egress'', egress, ''--srcip'', ''10.10.0.1'', ''--swap'']
      else if sfType = ''flow-monitor'' then
        Some [''--'', basedir @ ''flow_monitor'', ''--ingress'', ingress, ''--egress'', egress, ''--srcip'', ''10.10.0.1'']
      else if sfType = ''vpn'' then
        Some [''--'', basedir @ ''vpn'', ingress, egress, ''10.10.0.1'', ''10.10.0.2'', ''10.10.0.1'', ''10.10.0.2'']
      else if sfType = ''l4lb'' then Some [''--'', basedir @ ''l4lb'', ingress, egress]
      else if sfType = ''firewall'' then Some [''--'', basedir @ ''firewall'', ingress, egress, basedir @ ''firewall-rules.txt'']
      else if sfType = ''chacha'' then Some [''--'', basedir @ ''chacha'', ingress, egress]
      else None)"

text \<open>The command that is started in the background; \<open>None\<close> for an unknown type.\<close>

definition startServiceFunction ::
  "cb_instance \<Rightarrow> string \<Rightarrow> bool \<Rightarrow> string \<Rightarrow> bool \<Rightarrow> string \<Rightarrow> string list option" where
  "startServiceFunction sf ingress omit_ingress egress omit_egress server_address =
     (let entrypoint = [target_dir @ ''/src/build/cb_start'', ''--name'', inst_tag sf];
          entrypoint = entrypoint @ (if omit_ingress then [''--ingress'', ''-''] else [''--ingress'', ingress]);
          entrypoint = entrypoint @ (if omit_egress then [''--egress'', ''-''] else [''--egress'', egress]);
          entrypoint = entrypoint @ [''--obj'', target_dir @ ''/src/build/sfc_stages_kern.o'', ''--address'', server_address] in
      case getTypeExecString (inst_type sf) ingress egress of
        None \<Rightarrow> None
      | Some sfCmd \<Rightarrow> Some ([''docker'', ''exec'', ''-t'', inst_tag sf] @ entrypoint @ sfCmd))"

text \<open>The interfaces of a function and whether their stages are omitted.\<close>

definition sf_ingress :: "NetType \<Rightarrow> links \<Rightarrow> cb_instance \<Rightarrow> string \<times> bool" where
  "sf_ingress net L sf = (case ingress_ifaces L (inst_tag sf) of
     Some val \<Rightarrow> (val, True)
   | None \<Rightarrow> (if net = MACVLAN \<and> inst_tag sf = ''sf1'' then ''eth1'' else fst (getDefaultInterfaces net), False))"

definition sf_egress :: "NetType \<Rightarrow> links \<Rightarrow> cb_instance \<Rightarrow> string \<times> bool" where
  "sf_egress net L sf = (case egress_ifaces L (inst_tag sf) of
     Some val \<Rightarrow> (val, True) | None \<Rightarrow> (snd (getDefaultInterfaces net), False))"

text \<open>The last loop of \<^verbatim>\<open>main\<close>: the commands, in the order of the functions.\<close>

fun start_all :: "NetType \<Rightarrow> links \<Rightarrow> string \<Rightarrow> cb_instance list \<Rightarrow> string list list" where
  "start_all net L server_address [] = []"
| "start_all net L server_address (sf # sfs) =
     (let (ingress, omit_ingress) = sf_ingress net L sf; (egress, omit_egress) = sf_egress net L sf in
      (case startServiceFunction sf ingress omit_ingress egress omit_egress server_address of
         None \<Rightarrow> [] | Some cmd \<Rightarrow> [cmd]) @ start_all net L server_address sfs)"

section \<open>Which links there are\<close>

lemma index_names_tag:
  "index_names i fs m n = Some k \<Longrightarrow> m n = Some k \<or> (i \<le> k \<and> k < i + length fs \<and> inst_tag (fs ! (k - i)) = n)"
proof (induction fs arbitrary: i m)
  case (Cons f fs)
  then show ?case
    by (fastforce simp: nth_Cons' split: if_splits)
qed simp

lemma GetNodeByName_tag:
  assumes "GetNodeByName (NewCBConfig cs fs) name = Some n"
  shows "inst_tag n = name \<and> n \<in> set fs"
  using assms index_names_tag [of 0 fs Map.empty name]
  by (auto simp: GetNodeByName_def NewCBConfig_def split: option.splits)

text \<open>The nodes with a direct link from, and to, the node before or after them.\<close>

definition linked_in :: "cb_config \<Rightarrow> cb_chain \<Rightarrow> nat set \<Rightarrow> string set" where
  "linked_in cfg c I = (\<lambda>i. chain_nodes c ! i) ` {i \<in> I. direct cfg c (i - 1)}"

definition linked_out :: "cb_config \<Rightarrow> cb_chain \<Rightarrow> nat set \<Rightarrow> string set" where
  "linked_out cfg c I = (\<lambda>i. chain_nodes c ! (i - 1)) ` {i \<in> I. direct cfg c (i - 1)}"

lemma linked_insert:
  "linked_in cfg c (insert i I) = (if direct cfg c (i - 1) then {chain_nodes c ! i} else {}) \<union> linked_in cfg c I"
  "linked_out cfg c (insert i I) = (if direct cfg c (i - 1) then {chain_nodes c ! (i - 1)} else {}) \<union> linked_out cfg c I"
  by (auto simp: linked_in_def linked_out_def)

lemma linked_empty [simp]: "linked_in cfg c {} = {}" "linked_out cfg c {} = {}"
  by (simp_all add: linked_in_def linked_out_def)

lemma link_turn_doms:
  assumes "cfg = NewCBConfig cs fs" and "0 < i" and "link_turn ok cfg c i L = Inr L'"
  shows "dom (ingress_ifaces L') = dom (ingress_ifaces L) \<union> (if direct cfg c (i - 1) then {chain_nodes c ! i} else {})
    \<and> dom (egress_ifaces L') = dom (egress_ifaces L) \<union> (if direct cfg c (i - 1) then {chain_nodes c ! (i - 1)} else {})"
proof -
  have tag: "GetNodeByName cfg n = Some f \<Longrightarrow> inst_tag f = n" for n f
    using GetNodeByName_tag assms(1) by blast
  show ?thesis
    using assms(2,3)
    by (auto simp: link_turn_def direct_def remote_at_def getDirectLinkNames_def
        split: option.splits if_splits dest!: tag)
qed

lemma link_loop_doms:
  assumes "cfg = NewCBConfig cs fs"
  shows "0 < i \<Longrightarrow> link_loop ok cfg c i n L = Inr L' \<Longrightarrow>
    dom (ingress_ifaces L') = dom (ingress_ifaces L) \<union> linked_in cfg c {i..<i + n}
    \<and> dom (egress_ifaces L') = dom (egress_ifaces L) \<union> linked_out cfg c {i..<i + n}"
proof (induction n arbitrary: i L)
  case (Suc n)
  then obtain L1 where 1: "link_turn ok cfg c i L = Inr L1" and 2: "link_loop ok cfg c (Suc i) n L1 = Inr L'"
    by (auto split: sum.splits)
  have r: "{i..<i + Suc n} = insert i {Suc i..<Suc i + n}" by auto
  show ?case
    using link_turn_doms [OF assms Suc.prems(1) 1] Suc.IH [OF _ 2] unfolding r linked_insert
    by (simp only: Un_assoc)
qed simp

lemma link_chains_doms:
  assumes "cfg = NewCBConfig cs' fs"
  shows "link_chains ok cfg cs L = Inr L' \<Longrightarrow>
    dom (ingress_ifaces L') = dom (ingress_ifaces L) \<union> (\<Union>c\<in>set cs. linked_in cfg c {1..<length (chain_nodes c)})
    \<and> dom (egress_ifaces L') = dom (egress_ifaces L) \<union> (\<Union>c\<in>set cs. linked_out cfg c {1..<length (chain_nodes c)})"
proof (induction cs arbitrary: L)
  case (Cons c cs)
  show ?case
  proof (cases "length (chain_nodes c) < 2")
    case True
    then have "{1..<length (chain_nodes c)} = {}" by simp
    with True Cons show ?thesis by simp
  next
    case False
    then obtain L1 where 1: "link_loop ok cfg c 1 (length (chain_nodes c) - 1) L = Inr L1"
      and 2: "link_chains ok cfg cs L1 = Inr L'"
      using Cons.prems by (auto split: sum.splits)
    have "1 + (length (chain_nodes c) - 1) = length (chain_nodes c)" using False by simp
    with link_loop_doms [OF assms _ 1] Cons.IH [OF 2] show ?thesis by auto
  qed
qed simp

end
