(* ===== verification/DeployProgram.thy ===== *)
theory DeployProgram
  imports Deploy
begin

text \<open>
  \<^verbatim>\<open>src/control/cb_deploy.go\<close> as a whole: the command line, the networks, the containers with their
  interfaces, then the links and the functions of \<open>Deploy\<close>. Docker's engine and the tools that are
  run (\<^verbatim>\<open>docker\<close>, \<^verbatim>\<open>ovs-docker\<close>, \<^verbatim>\<open>pipework\<close>) are parameters: whether a container is created, with which
  identifier, and whether a command succeeds. \<open>Inl\<close> is the exit code.
\<close>

section \<open>What the program runs on\<close>

text \<open>\<open>ContainerCreate\<close> gets the containers that exist, the name, the source directory and the entry
  point; the other settings are the same for all containers. \<open>docker0_addrs\<close> is \<open>None\<close> when the
  interface or its addresses cannot be had.\<close>

record deploy_env =
  LookupEnv :: "string \<Rightarrow> string option"
  abs_path :: "string \<Rightarrow> string option"
  docker_client :: bool
  ContainerCreate :: "(string \<times> string) list \<Rightarrow> string \<Rightarrow> string \<Rightarrow> string list \<Rightarrow> string option"
  command_ok :: "(string list \<times> bool) list \<Rightarrow> string list \<Rightarrow> bool"
  make_veth :: "string \<Rightarrow> string \<Rightarrow> bool"
  docker0_addrs :: "string list option"

text \<open>The commands that were run, each with whether it succeeded, the global counters, the containers
  (name and identifier), and the names of the containers for which the program printed that their
  extra interfaces could not be configured.\<close>

record deploy_host =
  host_cmds :: "(string list \<times> bool) list"
  ipac :: nat
  vfcount :: nat
  containers :: "(string \<times> string) list"
  failed :: "string list"

definition run_command :: "deploy_env \<Rightarrow> string list \<Rightarrow> deploy_host \<Rightarrow> bool \<times> deploy_host" where
  "run_command E cmd s =
     (let ok = command_ok E (host_cmds s) cmd in (ok, s\<lparr>host_cmds := host_cmds s @ [(cmd, ok)]\<rparr>))"

section \<open>Networks\<close>

definition bridge_name :: string where "bridge_name = ''cbox-br''"

definition macvlan_cmd :: "string \<Rightarrow> string \<Rightarrow> string \<Rightarrow> string list" where
  "macvlan_cmd subnet parent name = [''docker'', ''network'', ''create'', ''-d'', ''macvlan'',
     ''--subnet='' @ subnet @ ''.0/24'', ''--gateway='' @ subnet @ ''.1'', ''-o'', ''parent='' @ parent, name]"

fun createNetworkInfra :: "deploy_env \<Rightarrow> NetType \<Rightarrow> deploy_host \<Rightarrow> int + deploy_host" where
  "createNetworkInfra E BRIDGE s = Inr s"
| "createNetworkInfra E MACVLAN s =
     (let (ok, s) = run_command E (macvlan_cmd ''192.168.100'' ''enp1s0f0'' ''macvlan0'') s in
      if \<not> ok then Inl 2
      else let (ok, s) = run_command E (macvlan_cmd ''192.168.101'' ''enp1s0f1'' ''macvlan1'') s in
        if \<not> ok then Inl 2 else Inr s)"
| "createNetworkInfra E OVS s =
     (let (ok, s) = run_command E [''ovs-vsctl'', ''br-exists'', bridge_name] s in
      if \<not> ok then Inl 1 else Inr s)"
| "createNetworkInfra E SRIOV s = Inr s"

section \<open>Containers\<close>

definition get_vfname :: "deploy_host \<Rightarrow> string \<times> deploy_host" where
  "get_vfname s = (let si = 0; fi = vfcount s + 2 in
     (''enp1s'' @ show_nat si @ ''f'' @ show_nat fi, s\<lparr>vfcount := vfcount s + 1\<rparr>))"

text \<open>The switch of \<open>attachExtraInterfaces\<close>: whether each of its two commands succeeded. A failure is
  printed, and the deployment goes on.\<close>

fun extra_interfaces :: "deploy_env \<Rightarrow> NetType \<Rightarrow> string \<Rightarrow> deploy_host \<Rightarrow> bool \<times> bool \<times> deploy_host" where
  "extra_interfaces E BRIDGE cname s = (True, True, s)"
| "extra_interfaces E MACVLAN cname s =
     (let (ok0, s) = run_command E [''docker'', ''network'', ''connect'', ''macvlan0'', cname] s;
          (ok1, s) = run_command E [''docker'', ''network'', ''connect'', ''macvlan1'', cname] s in (ok0, ok1, s))"
| "extra_interfaces E OVS cname s =
     (let subnet_prefix = (if cname = ''src'' \<or> cname = ''dst'' then ''10.10'' else ''192.168'');
          s = s\<lparr>ipac := ipac s + 1\<rparr>;
          (ok0, s) = run_command E [''ovs-docker'', ''add-port'', bridge_name, ''eth1'', cname,
            ''--ipaddress='' @ subnet_prefix @ ''.0.'' @ show_nat (ipac s) @ ''/24''] s;
          (ok1, s) = run_command E [''ovs-docker'', ''add-port'', bridge_name, ''eth2'', cname,
            ''--ipaddress='' @ subnet_prefix @ ''.1.'' @ show_nat (ipac s) @ ''/24''] s in (ok0, ok1, s))"
| "extra_interfaces E SRIOV cname s =
     (let s = s\<lparr>ipac := ipac s + 1\<rparr>;
          (vf, s) = get_vfname s;
          (ok0, s) = run_command E [''pipework'', ''--direct-phys'', vf, ''-i'', ''eth1'', cname,
            ''192.168.100.'' @ show_nat (ipac s) @ ''/24''] s;
          s = s\<lparr>ipac := ipac s + 1\<rparr>;
          (vf, s) = get_vfname s;
          (ok1, s) = run_command E [''pipework'', ''--direct-phys'', vf, ''-i'', ''eth2'', cname,
            ''192.168.100.'' @ show_nat (ipac s) @ ''/24''] s in (ok0, ok1, s))"

definition attachExtraInterfaces :: "deploy_env \<Rightarrow> NetType \<Rightarrow> string \<Rightarrow> deploy_host \<Rightarrow> deploy_host" where
  "attachExtraInterfaces E net cname s =
     (let (ok0, ok1, s) = extra_interfaces E net cname s in
      if \<not> ok0 \<or> \<not> ok1 then s\<lparr>failed := failed s @ [cname]\<rparr> else s)"

text \<open>Every error is a panic; the result of starting the container is ignored.\<close>

definition CreateNewContainer ::
  "deploy_env \<Rightarrow> NetType \<Rightarrow> string \<Rightarrow> string \<Rightarrow> string list \<Rightarrow> deploy_host \<Rightarrow> int + string \<times> deploy_host" where
  "CreateNewContainer E net name srcdir entrypoint s =
     (if \<not> docker_client E then Inl 2
      else case ContainerCreate E (containers s) name srcdir entrypoint of
        None \<Rightarrow> Inl 2
      | Some cid \<Rightarrow> Inr (cid, attachExtraInterfaces E net name (s\<lparr>containers := containers s @ [(name, cid)]\<rparr>)))"

definition default_entrypoint :: "string list" where
  "default_entrypoint = [''tail'', ''-f'', ''/dev/null'']"

definition newBareContainer :: "deploy_env \<Rightarrow> NetType \<Rightarrow> string \<Rightarrow> string \<Rightarrow> deploy_host \<Rightarrow> int + deploy_host" where
  "newBareContainer E net source_dir name s =
     (case CreateNewContainer E net name source_dir default_entrypoint s of
        Inl e \<Rightarrow> Inl e | Inr (cid, s) \<Rightarrow> Inr s)"

text \<open>The loop that creates the containers of the functions and stores their identifiers, of which it
  prints six characters.\<close>

fun create_all ::
  "deploy_env \<Rightarrow> NetType \<Rightarrow> string \<Rightarrow> cb_instance list \<Rightarrow> deploy_host \<Rightarrow> int + cb_instance list \<times> deploy_host" where
  "create_all E net source_dir [] s = Inr ([], s)"
| "create_all E net source_dir (sf # sfs) s =
     (case CreateNewContainer E net (inst_tag sf) source_dir default_entrypoint s of
        Inl e \<Rightarrow> Inl e
      | Inr (cid, s) \<Rightarrow>
          if length cid < 6 then Inl 2
          else case create_all E net source_dir sfs s of
            Inl e \<Rightarrow> Inl e
          | Inr (sfs, s) \<Rightarrow> Inr (sf\<lparr>inst_id := cid\<rparr> # sfs, s))"

section \<open>The program\<close>

text \<open>The flags, as Go's \<^verbatim>\<open>flag\<close> package parses them; a later one overrides an earlier one.\<close>

datatype deploy_flag = Flag_c string | Flag_n string | Flag_t bool

record deploy_flags =
  cfgfile :: string
  nettype :: string
  create_srcdst :: bool

fun set_flag :: "deploy_flag \<Rightarrow> deploy_flags \<Rightarrow> deploy_flags" where
  "set_flag (Flag_c f) v = v\<lparr>cfgfile := f\<rparr>"
| "set_flag (Flag_n n) v = v\<lparr>nettype := n\<rparr>"
| "set_flag (Flag_t b) v = v\<lparr>create_srcdst := b\<rparr>"

definition parse_flags :: "deploy_flag list \<Rightarrow> deploy_flags" where
  "parse_flags opts = fold set_flag opts \<lparr>cfgfile = [], nettype = ''bridge'', create_srcdst = False\<rparr>"

definition net_of :: "string \<Rightarrow> NetType option" where
  "net_of n = (if n = ''ovs'' then Some OVS else if n = ''macvlan'' then Some MACVLAN
     else if n = ''bridge'' then Some BRIDGE else if n = ''sriov'' then Some SRIOV else None)"

definition getDockerIP :: "deploy_env \<Rightarrow> string option" where
  "getDockerIP E = (case docker0_addrs E of Some (a # as) \<Rightarrow> Some a | _ \<Rightarrow> None)"

text \<open>\<^verbatim>\<open>main\<close> once the containers exist: the links, and the commands that are handed to goroutines.\<close>

definition deploy_main :: "deploy_env \<Rightarrow> NetType \<Rightarrow> cb_config \<Rightarrow> int + links \<times> string list list" where
  "deploy_main E net cfg =
     (case link_chains (make_veth E) cfg (cfg_chains cfg) no_links of
        Inl e \<Rightarrow> Inl e
      | Inr L \<Rightarrow>
          (case getDockerIP E of
             None \<Rightarrow> Inl 2
           | Some ip \<Rightarrow> Inr (L, start_all net L (ip @ '':9000'') (cfg_functions cfg))))"

text \<open>\<^verbatim>\<open>cb_deploy\<close>: the configuration with the identifiers of the containers, the links, what happened on
  the host, and the commands.\<close>

definition cb_deploy ::
  "deploy_env \<Rightarrow> deploy_flag list \<Rightarrow> (string \<Rightarrow> (cb_chain list \<times> cb_instance list) option) \<Rightarrow> deploy_host
   \<Rightarrow> int + cb_config \<times> links \<times> deploy_host \<times> string list list" where
  "cb_deploy E opts ReadFile s =
     (let v = parse_flags opts in
      if cfgfile v = [] then Inl 1
      else case LookupEnv E ''CB_DIR'' of
        None \<Rightarrow> Inl 1
      | Some srcdir \<Rightarrow> case abs_path E srcdir of
        None \<Rightarrow> Inl 1
      | Some source_dir \<Rightarrow> case net_of (nettype v) of
        None \<Rightarrow> Inl 2
      | Some net \<Rightarrow> case ReadFile (cfgfile v) of
        None \<Rightarrow> Inl 2
      | Some (cs, fs) \<Rightarrow>
          let cfg = NewCBConfig cs fs in
          case createNetworkInfra E net s of
            Inl e \<Rightarrow> Inl e
          | Inr s \<Rightarrow>
              case (if create_srcdst v
                    then (case newBareContainer E net source_dir ''src'' s of
                            Inl e \<Rightarrow> Inl e | Inr s \<Rightarrow> newBareContainer E net source_dir ''dst'' s)
                    else Inr s) of
                Inl e \<Rightarrow> Inl e
              | Inr s \<Rightarrow>
                  case create_all E net source_dir (cfg_functions cfg) s of
                    Inl e \<Rightarrow> Inl e
                  | Inr (fs', s) \<Rightarrow>
                      let cfg = cfg\<lparr>cfg_functions := fs'\<rparr> in
                      case deploy_main E net cfg of
                        Inl e \<Rightarrow> Inl e
                      | Inr (L, started) \<Rightarrow> Inr (cfg, L, s, started))"

section \<open>The interfaces of a container\<close>

text \<open>The container and the interface that a command names, for the two tools that are told one (how
  Docker names an interface is up to it), and the interfaces that commands have made: only those
  that succeeded count.\<close>

fun port_of :: "string list \<Rightarrow> (string \<times> string) option" where
  "port_of [tool, a, b, c, d, e] = (if tool = ''ovs-docker'' \<and> a = ''add-port'' then Some (d, c) else None)"
| "port_of [tool, a, b, c, d, e, f] = (if tool = ''pipework'' \<and> a = ''--direct-phys'' \<and> c = ''-i'' then Some (e, d) else None)"
| "port_of _ = None"

definition ports_made :: "deploy_host \<Rightarrow> string \<Rightarrow> string set" where
  "ports_made s cname = {iface. \<exists>cmd. (cmd, True) \<in> set (host_cmds s) \<and> port_of cmd = Some (cname, iface)}"

definition host_grows :: "deploy_host \<Rightarrow> deploy_host \<Rightarrow> bool" where
  "host_grows s s' \<longleftrightarrow> set (host_cmds s) \<subseteq> set (host_cmds s') \<and> set (containers s) \<subseteq> set (containers s')
     \<and> set (failed s) \<subseteq> set (failed s')"

lemma host_grows_refl [simp]: "host_grows s s"
  by (simp add: host_grows_def)

lemma host_grows_trans: "host_grows s t \<Longrightarrow> host_grows t u \<Longrightarrow> host_grows s u"
  by (auto simp: host_grows_def)

lemma ports_made_grow: "host_grows s t \<Longrightarrow> ports_made s c \<subseteq> ports_made t c"
  by (auto simp: host_grows_def ports_made_def)

lemma failed_grow: "host_grows s t \<Longrightarrow> c \<notin> set (failed t) \<Longrightarrow> c \<notin> set (failed s)"
  by (auto simp: host_grows_def)

lemma in_ports_made: "iface \<in> ports_made s c \<longleftrightarrow> list_ex (\<lambda>(cmd, ok). ok \<and> port_of cmd = Some (c, iface)) (host_cmds s)"
  by (auto simp: ports_made_def list_ex_iff)

text \<open>Over Open vSwitch and SR-IOV, a container for which no failure is printed has its two ports.\<close>

definition has_ports :: "NetType \<Rightarrow> deploy_host \<Rightarrow> string \<Rightarrow> bool" where
  "has_ports net s cname \<longleftrightarrow> (net = OVS \<or> net = SRIOV) \<and> cname \<notin> set (failed s) \<longrightarrow> {''eth1'', ''eth2''} \<subseteq> ports_made s cname"

lemma has_ports_grow: "host_grows s t \<Longrightarrow> has_ports net s c \<Longrightarrow> has_ports net t c"
  using ports_made_grow [of s t c] failed_grow [of s t c] by (auto simp: has_ports_def)

lemma attachExtraInterfaces_host:
  "host_grows s (attachExtraInterfaces E net c s) \<and> containers (attachExtraInterfaces E net c s) = containers s
    \<and> has_ports net (attachExtraInterfaces E net c s) c"
  by (cases net)
    (simp_all add: attachExtraInterfaces_def host_grows_def run_command_def get_vfname_def has_ports_def in_ports_made Let_def
      subset_insertI2)

lemma attach_quiet:
  "command_ok E = (\<lambda>h c. True) \<Longrightarrow> failed (attachExtraInterfaces E net c s) = failed s"
  by (cases net) (simp_all add: attachExtraInterfaces_def run_command_def get_vfname_def Let_def)

lemma CreateNewContainer_host:
  assumes "CreateNewContainer E net name srcdir ep s = Inr (cid, s')"
  shows "host_grows s s' \<and> (name, cid) \<in> set (containers s') \<and> docker_client E
    \<and> ContainerCreate E (containers s) name srcdir ep = Some cid \<and> has_ports net s' name"
  using assms attachExtraInterfaces_host [of "s\<lparr>containers := containers s @ [(name, cid)]\<rparr>" E net name]
  by (auto simp: CreateNewContainer_def host_grows_def split: if_splits option.splits)

text \<open>The same function, but for the identifiers of the container.\<close>

definition same_but_ids :: "cb_instance \<Rightarrow> cb_instance \<Rightarrow> bool" where
  "same_but_ids f f' \<longleftrightarrow> (\<exists>cid. f' = f\<lparr>inst_id := cid\<rparr>)"

lemma same_but_ids_simps: "same_but_ids f f' \<Longrightarrow> inst_tag f' = inst_tag f \<and> inst_remote f' = inst_remote f"
  by (auto simp: same_but_ids_def)

lemma create_all_host:
  "create_all E net d fs s = Inr (fs', s') \<Longrightarrow> host_grows s s'
    \<and> list_all2 same_but_ids fs fs'
    \<and> (\<forall>f\<in>set fs'. (inst_tag f, inst_id f) \<in> set (containers s') \<and> has_ports net s' (inst_tag f))"
proof (induction fs arbitrary: s fs')
  case (Cons f fs)
  then obtain cid s1 fs1 where 1: "CreateNewContainer E net (inst_tag f) d default_entrypoint s = Inr (cid, s1)"
    and 2: "create_all E net d fs s1 = Inr (fs1, s')" and fs': "fs' = f\<lparr>inst_id := cid\<rparr> # fs1"
    by (auto split: sum.splits if_splits)
  note h = CreateNewContainer_host [OF 1] and g = Cons.IH [OF 2]
  have "(inst_tag f, cid) \<in> set (containers s')" using h g by (auto simp: host_grows_def)
  moreover have "has_ports net s' (inst_tag f)" using h g has_ports_grow by blast
  moreover have "same_but_ids f (f\<lparr>inst_id := cid\<rparr>)" by (auto simp: same_but_ids_def)
  ultimately show ?case using h g host_grows_trans by (auto simp: fs')
qed simp

section \<open>The links of a deployment\<close>

text \<open>The ends of the links are in the containers of the nodes whose names the maps have.\<close>

definition ends_in :: "cb_config \<Rightarrow> links \<Rightarrow> bool" where
  "ends_in cfg L \<longleftrightarrow> (\<forall>name iface. ingress_ifaces L name = Some iface \<or> egress_ifaces L name = Some iface \<longrightarrow>
     (\<exists>f. GetNodeByName cfg name = Some f \<and> (inst_id f, iface) \<in> set (veths L)))"

lemma elem_at_list_all2:
  "list_all2 P xs ys \<Longrightarrow> rel_option P (elem_at xs i) (elem_at ys i)"
  by (auto simp: elem_at_def list_all2_conv_all_nth)

lemma GetNodeByName_ids:
  assumes "list_all2 same_but_ids fs fs'"
  shows "rel_option same_but_ids (GetNodeByName (NewCBConfig cs fs) name)
    (GetNodeByName (NewCBConfig cs fs\<lparr>cfg_functions := fs'\<rparr>) name)"
  using elem_at_list_all2 [OF assms] by (simp add: GetNodeByName_def NewCBConfig_def split: option.split)

lemma GetNodeByName_in: "GetNodeByName cfg name = Some f \<Longrightarrow> f \<in> set (cfg_functions cfg)"
  by (auto simp: GetNodeByName_def elem_at_def split: option.splits if_splits)

lemma link_turn_ends:
  assumes named: "\<And>name f. GetNodeByName cfg name = Some f \<Longrightarrow> inst_tag f = name"
    and run: "link_turn ok cfg c i L = Inr L'" and ends: "ends_in cfg L"
  shows "ends_in cfg L'"
proof (cases "L' = L")
  case False
  then obtain n1 n2 where n: "GetNodeByName cfg (chain_nodes c ! (i - 1)) = Some n1" "GetNodeByName cfg (chain_nodes c ! i) = Some n2"
    and L': "L' = (let (dl1, dl2) = getDirectLinkNames (dlgid L) in
        L\<lparr>ingress_ifaces := (ingress_ifaces L)(inst_tag n2 \<mapsto> dl2), egress_ifaces := (egress_ifaces L)(inst_tag n1 \<mapsto> dl1),
          dlgid := dlgid L + 1, veths := veths L @ [(inst_id n1, dl1), (inst_id n2, dl2)]\<rparr>)"
    using run by (auto simp: link_turn_def split: option.splits if_splits prod.splits)
  show ?thesis
    using ends n named [OF n(1)] named [OF n(2)]
    by (fastforce simp: ends_in_def L' getDirectLinkNames_def split: if_splits)
qed (use ends in simp)

lemma link_loop_ends:
  assumes "\<And>name f. GetNodeByName cfg name = Some f \<Longrightarrow> inst_tag f = name"
  shows "link_loop ok cfg c i n L = Inr L' \<Longrightarrow> ends_in cfg L \<Longrightarrow> ends_in cfg L'"
proof (induction n arbitrary: i L)
  case (Suc n)
  then show ?case using link_turn_ends [of cfg ok c i L] assms by (auto split: sum.splits)
qed simp

lemma link_chains_ends:
  assumes "\<And>name f. GetNodeByName cfg name = Some f \<Longrightarrow> inst_tag f = name"
  shows "link_chains ok cfg cs L = Inr L' \<Longrightarrow> ends_in cfg L \<Longrightarrow> ends_in cfg L'"
proof (induction cs arbitrary: L)
  case (Cons c cs)
  then show ?case using link_loop_ends [of cfg ok c 1 "length (chain_nodes c) - 1" L] assms
    by (auto split: sum.splits if_splits)
qed simp

lemma start_all_commands:
  "sf \<in> set fs \<Longrightarrow> startServiceFunction sf (fst (sf_ingress net L sf)) (snd (sf_ingress net L sf))
     (fst (sf_egress net L sf)) (snd (sf_egress net L sf)) server = Some cmd \<Longrightarrow> cmd \<in> set (start_all net L server fs)"
  by (induction fs) (auto simp: split_beta)

section \<open>What a successful deployment has done\<close>

lemma cb_deploy_ok:
  assumes "cb_deploy E opts file s = Inr (cfg, L, s', started)"
  shows "\<exists>net cs fs fs' ip. net_of (nettype (parse_flags opts)) = Some net
    \<and> file (cfgfile (parse_flags opts)) = Some (cs, fs) \<and> cfg = NewCBConfig cs fs\<lparr>cfg_functions := fs'\<rparr>
    \<and> list_all2 same_but_ids fs fs'
    \<and> (\<forall>f\<in>set fs'. (inst_tag f, inst_id f) \<in> set (containers s') \<and> has_ports net s' (inst_tag f))
    \<and> link_chains (make_veth E) cfg cs no_links = Inr L \<and> started = start_all net L (ip @ '':9000'') fs'"
proof -
  let ?v = "parse_flags opts"
  obtain source_dir net cs fs s2 fs' where
    net: "net_of (nettype ?v) = Some net" and config: "file (cfgfile ?v) = Some (cs, fs)"
    and all: "create_all E net source_dir fs s2 = Inr (fs', s')"
    and m: "deploy_main E net (NewCBConfig cs fs\<lparr>cfg_functions := fs'\<rparr>) = Inr (L, started)"
    and cfg: "cfg = NewCBConfig cs fs\<lparr>cfg_functions := fs'\<rparr>"
    using assms unfolding cb_deploy_def Let_def
    by (auto simp: NewCBConfig_def split: if_splits option.splits sum.splits)
  obtain ip where "link_chains (make_veth E) cfg cs no_links = Inr L" "started = start_all net L (ip @ '':9000'') fs'"
    using m by (auto simp: deploy_main_def cfg [symmetric] split: option.splits sum.splits) (simp_all add: cfg NewCBConfig_def)
  then show ?thesis using net config cfg create_all_host [OF all]
    by (intro exI [of _ net] exI [of _ cs] exI [of _ fs] exI [of _ fs'] exI [of _ ip]) simp
qed

text \<open>The nodes of the deployed configuration.\<close>

lemma deployed_node:
  assumes "list_all2 same_but_ids fs fs'" and "GetNodeByName (NewCBConfig cs fs\<lparr>cfg_functions := fs'\<rparr>) name = Some f"
  shows "inst_tag f = name \<and> f \<in> set fs'"
proof -
  obtain f0 where "GetNodeByName (NewCBConfig cs fs) name = Some f0" "same_but_ids f0 f"
    using GetNodeByName_ids [OF assms(1), of cs name] assms(2) by (auto simp: option_rel_Some2)
  then show ?thesis
    using GetNodeByName_tag same_but_ids_simps GetNodeByName_in [OF assms(2)] by fastforce
qed

section \<open>The links do not depend on the identifiers\<close>

definition same_ifaces :: "links \<Rightarrow> links \<Rightarrow> bool" where
  "same_ifaces L L' \<longleftrightarrow> ingress_ifaces L' = ingress_ifaces L \<and> egress_ifaces L' = egress_ifaces L \<and> dlgid L' = dlgid L"

lemma link_turn_ids:
  assumes ids: "\<And>name. rel_option same_but_ids (GetNodeByName cfg name) (GetNodeByName cfg' name)"
    and run: "link_turn ok cfg' c i L' = Inr M'" and same: "same_ifaces L L'"
  shows "\<exists>M. link_turn (\<lambda>a b. True) cfg c i L = Inr M \<and> same_ifaces M M'"
  using run same ids [of "chain_nodes c ! (i - 1)"] ids [of "chain_nodes c ! i"]
  by (auto simp: link_turn_def same_ifaces_def option_rel_Some1 option_rel_Some2 same_but_ids_simps
      split: option.splits if_splits prod.splits)

lemma link_loop_ids:
  assumes "\<And>name. rel_option same_but_ids (GetNodeByName cfg name) (GetNodeByName cfg' name)"
  shows "link_loop ok cfg' c i n L' = Inr M' \<Longrightarrow> same_ifaces L L' \<Longrightarrow>
    \<exists>M. link_loop (\<lambda>a b. True) cfg c i n L = Inr M \<and> same_ifaces M M'"
proof (induction n arbitrary: i L L')
  case (Suc n)
  then obtain N' where 1: "link_turn ok cfg' c i L' = Inr N'" and 2: "link_loop ok cfg' c (Suc i) n N' = Inr M'"
    by (auto split: sum.splits)
  obtain N where "link_turn (\<lambda>a b. True) cfg c i L = Inr N" "same_ifaces N N'"
    using link_turn_ids [OF assms 1 Suc.prems(2)] by blast
  with Suc.IH [OF 2] show ?case by auto
qed simp

lemma link_chains_ids:
  assumes "\<And>name. rel_option same_but_ids (GetNodeByName cfg name) (GetNodeByName cfg' name)"
  shows "link_chains ok cfg' cs L' = Inr M' \<Longrightarrow> same_ifaces L L' \<Longrightarrow>
    \<exists>M. link_chains (\<lambda>a b. True) cfg cs L = Inr M \<and> same_ifaces M M'"
proof (induction cs arbitrary: L L')
  case (Cons c cs)
  show ?case
  proof (cases "length (chain_nodes c) < 2")
    case False
    then obtain N' where 1: "link_loop ok cfg' c 1 (length (chain_nodes c) - 1) L' = Inr N'"
      and 2: "link_chains ok cfg' cs N' = Inr M'"
      using Cons.prems by (auto split: sum.splits)
    obtain N where "link_loop (\<lambda>a b. True) cfg c 1 (length (chain_nodes c) - 1) L = Inr N" "same_ifaces N N'"
      using link_loop_ids [OF assms 1 Cons.prems(2)] by blast
    with Cons.IH [OF 2] False show ?thesis by auto
  qed (use Cons in auto)
qed simp

text \<open>So a deployment makes the links that the configuration alone determines.\<close>

lemma deployed_links:
  assumes "cb_deploy E opts file s = Inr (cfg, L, s', started)" and "file (cfgfile (parse_flags opts)) = Some (cs, fs)"
  shows "\<exists>L0. link_chains (\<lambda>a b. True) (NewCBConfig cs fs) cs no_links = Inr L0 \<and> same_ifaces L0 L"
proof -
  obtain fs' where cfg: "cfg = NewCBConfig cs fs\<lparr>cfg_functions := fs'\<rparr>" and ids: "list_all2 same_but_ids fs fs'"
    and links: "link_chains (make_veth E) cfg cs no_links = Inr L"
    using cb_deploy_ok [OF assms(1)] assms(2) by auto
  have "same_ifaces no_links no_links" by (simp add: same_ifaces_def)
  from link_chains_ids [OF GetNodeByName_ids [OF ids] links [unfolded cfg] this] show ?thesis .
qed

lemma same_ifaces_choice:
  "same_ifaces L0 L \<Longrightarrow> sf_ingress net L sf = sf_ingress net L0 sf \<and> sf_egress net L sf = sf_egress net L0 sf"
  by (simp add: same_ifaces_def sf_ingress_def sf_egress_def)

end
