(* ===== verification/ChainControl.thy ===== *)
theory ChainControl
  imports ServiceChain Handlers DeployProgram
begin

text \<open>
  The control plane and the data plane together: a configuration is deployed (\<open>Deploy\<close>), the
  manager computes and sends the rules (\<open>ControlPlane\<close>), the agents load the stages and install
  the rules (\<open>ControlAgent\<close>), and the stages of \<open>SfcNode\<close> carry a classified frame from node to
  node, over direct links where both neighbours are local.
\<close>

section \<open>A node whose stages may be omitted\<close>

text \<open>\<open>ing\<close> and \<open>eg\<close> say whether the ingress and the egress stages are loaded; without them the
  frame is passed on as it is.\<close>

definition cross :: "bool \<Rightarrow> bool \<Rightarrow> stage_env \<Rightarrow> stage_state \<Rightarrow> bytes \<Rightarrow> bytes option" where
  "cross ing eg E st f = do {
     (st, g) \<leftarrow> (if ing then do {
                  ((v, s'), g) \<leftarrow> decap_nsh E st f;
                  if v = XDP_PASS then Some (s', g) else None
                }
                else Some (st, f));
     if eg then do {
       ((v, r), q) \<leftarrow> tc_egress E Map.empty st g;
       if v = TC_ACT_OK then Some q else None
     }
     else Some g
   }"

type_synonym deployed = "bool \<times> bool \<times> stage_env \<times> stage_state"

definition cross_node :: "deployed \<Rightarrow> bytes \<Rightarrow> bytes option" where
  "cross_node n = (case n of (ing, eg, E, st) \<Rightarrow> cross ing eg E st)"

abbreviation cross_all :: "deployed list \<Rightarrow> bytes \<Rightarrow> bytes option" where
  "cross_all \<equiv> through cross_node"

section \<open>A node with its rules\<close>

text \<open>Position \<open>i\<close> is reached over a direct link.\<close>

definition direct_in :: "cb_config \<Rightarrow> cb_chain \<Rightarrow> nat \<Rightarrow> bool" where
  "direct_in cfg c i \<longleftrightarrow> 0 < i \<and> direct cfg c (i - 1)"

definition direct_out :: "cb_config \<Rightarrow> cb_chain \<Rightarrow> nat \<Rightarrow> bool" where
  "direct_out cfg c i \<longleftrightarrow> \<not> is_last c i \<and> direct cfg c i"

definition node_ready :: "CBManager \<Rightarrow> cb_config \<Rightarrow> cb_chain \<Rightarrow> ip_5tuple \<Rightarrow> nat \<Rightarrow> deployed \<Rightarrow> bool" where
  "node_ready M cfg c key i n = (case n of (ing, eg, E, st) \<Rightarrow>
     helpers_work E \<and> ing = (\<not> direct_in cfg c i) \<and> eg = (\<not> direct_out cfg c i)
     \<and> (ing \<longrightarrow> unicast (addr_at M cfg c i) \<and> src_mac st 0 = Some (addr_at M cfg c i))
     \<and> (eg \<longrightarrow> src_mac st 1 \<noteq> None)
     \<and> (\<forall>r. fwd_rule_at M cfg c i = Some r \<longrightarrow> fwd_table st (bswap32 (fr_key r)) = Some (as_fwd_entry (fr_val r)))
     \<and> (proxied cfg c i \<longrightarrow> (\<exists>h. nsh_data st key = Some h \<and> next_proto h = NSH_NEXT_PROTO_ETHER
          \<and> sph_of h = node_sph c i + 1)))"

text \<open>The frame that reaches position \<open>i\<close>: as it came to the classifier on a direct link, else under
  the NSH of this position.\<close>

definition arrives :: "CBManager \<Rightarrow> cb_config \<Rightarrow> cb_chain \<Rightarrow> bytes \<Rightarrow> nat \<Rightarrow> bytes \<Rightarrow> bool" where
  "arrives M cfg c inner i f = (if direct_in cfg c i then f = inner
     else \<exists>sa h. f = ethhdr (addr_at M cfg c i) sa ETH_P_NSH @ enc_nsh h @ inner
       \<and> next_proto h = NSH_NEXT_PROTO_ETHER \<and> sph_of h = node_sph c i + 1)"

lemma unat_node_sph_1: "i \<le> 254 \<Longrightarrow> unat (node_sph c i + 1) = 256 * (unat (chain_id c) mod 2 ^ 24) + (255 - i)"
proof -
  assume i: "i \<le> 254"
  have "unat (chain_id c) mod 2 ^ 24 < 2 ^ 24" by simp
  then have "unat (node_sph c i) + unat (1 :: u32) < 2 ^ 32" using i by (simp add: unat_node_sph)
  then have "unat (node_sph c i + 1) = unat (node_sph c i) + 1" by (simp add: unat_add_small)
  with i show ?thesis by (simp add: unat_node_sph)
qed

lemma si_position: "sph_of h = node_sph c i + 1 \<Longrightarrow> i \<le> 254 \<Longrightarrow> unat (si h) = 255 - i"
proof -
  assume h: "sph_of h = node_sph c i + 1" and i: "i \<le> 254"
  have "unat (si h) = unat (node_sph c i + 1) mod 256"
    by (simp add: si_def h and_low_byte unat_low)
  also have "\<dots> = 255 - i" using unat_node_sph_1 [OF i] by simp
  finally show ?thesis .
qed

lemma node_sph_Suc: "i < 254 \<Longrightarrow> node_sph c (i + 1) + 1 = node_sph c i"
  by (subst word_unat_eq_iff) (simp add: unat_node_sph_1 unat_node_sph)

lemma node_passes:
  assumes ready: "node_ready M cfg c key i (ing, eg, E, st)" and arr: "arrives M cfg c inner i f"
    and i: "i < length (chain_nodes c)" "length (chain_nodes c) \<le> 255"
    and inner: "inner = ethhdr d s ETH_P_IP @ body"
    and key: "get_tuple inner 14 zero_tuple = Some (0, key)"
  shows "\<exists>q. cross ing eg E st f = Some q
    \<and> (if is_last c i then \<exists>m. src_mac st 1 = Some m \<and> q = ethhdr d m ETH_P_IP @ body
       else arrives M cfg c inner (i + 1) q)"
proof -
  have r: "helpers_work E" "ing = (\<not> direct_in cfg c i)" "eg = (\<not> direct_out cfg c i)"
    "ing \<Longrightarrow> unicast (addr_at M cfg c i)" "ing \<Longrightarrow> src_mac st 0 = Some (addr_at M cfg c i)"
    "eg \<Longrightarrow> src_mac st 1 \<noteq> None"
    "\<And>r. fwd_rule_at M cfg c i = Some r \<Longrightarrow> fwd_table st (bswap32 (fr_key r)) = Some (as_fwd_entry (fr_val r))"
    "proxied cfg c i \<Longrightarrow> \<exists>h. nsh_data st key = Some h \<and> next_proto h = NSH_NEXT_PROTO_ETHER \<and> sph_of h = node_sph c i + 1"
    using ready by (auto simp: node_ready_def)
  have i254: "i \<le> 254" using i by simp
  obtain st' where ingress: "(if ing then do { ((v, s'), g) \<leftarrow> decap_nsh E st f; if v = XDP_PASS then Some (s', g) else None }
        else Some (st, f)) = Some (st', inner)"
    and f': "src_mac st' = src_mac st" "fwd_table st' = fwd_table st"
    and nsh: "eg \<Longrightarrow> \<exists>h. nsh_data st' key = Some h \<and> next_proto h = NSH_NEXT_PROTO_ETHER \<and> sph_of h = node_sph c i + 1"
  proof (cases ing)
    case True
    then obtain sa h where f: "f = ethhdr (addr_at M cfg c i) sa ETH_P_NSH @ enc_nsh h @ inner"
      and h: "next_proto h = NSH_NEXT_PROTO_ETHER" "sph_of h = node_sph c i + 1"
      using arr r(2) by (auto simp: arrives_def)
    obtain s' where "decap_nsh E st f = Some ((XDP_PASS, s'), inner)" "src_mac s' = src_mac st"
      "nsh_data s' key = Some h" "fwd_table s' = fwd_table st"
      unfolding f by (rule decap_works [OF r(1) r(4) [OF True] r(5) [OF True] h(1) inner key])
    then show thesis using True h by (intro that [of s']) auto
  next
    case False
    then have "f = inner" "direct_in cfg c i" using arr r(2) by (auto simp: arrives_def)
    moreover have "proxied cfg c i" if eg using that r(3) \<open>direct_in cfg c i\<close>
      by (auto simp: proxied_def direct_in_def direct_out_def)
    ultimately show thesis using that [of st] False r(8) by auto
  qed
  show ?thesis
  proof (cases eg)
    case False
    then have "direct_out cfg c i" using r(3) by simp
    then show ?thesis
      using ingress False by (auto simp: cross_def direct_out_def arrives_def direct_in_def)
  next
    case True
    obtain h where h: "nsh_data st' key = Some h" "next_proto h = NSH_NEXT_PROTO_ETHER" "sph_of h = node_sph c i + 1"
      using nsh [OF True] by auto
    have nz: "si h \<noteq> 0" using si_position [OF h(3) i254] i254 by auto
    obtain me where me: "src_mac st' 1 = Some me" using r(6) [OF True] f' by auto
    obtain v r' q where eg: "tc_egress E Map.empty st' inner = Some ((v, r'), q)"
      and dec: "case decide (nsh_data st' key) (\<lambda>sph. fwd_table st' (bswap32 sph)) of
         Leave \<Rightarrow> v = TC_ACT_OK \<and> q = ethhdr d me ETH_P_IP @ body
       | Drop_frame \<Rightarrow> v = TC_ACT_SHOT
       | Next_hop a h' \<Rightarrow> v = TC_ACT_OK \<and> q = ethhdr a me ETH_P_NSH @ enc_nsh h' @ inner"
      using egress_works [OF r(1) me inner key] by blast
    have run: "cross ing True E st f = (if v = TC_ACT_OK then Some q else None)"
      unfolding cross_def ingress by (simp add: eg)
    show ?thesis
    proof (cases "is_last c i")
      case True
      then have "fwd_table st (bswap32 (node_sph c i)) = Some \<lparr>flags = 1, address = zero_mac\<rparr>"
        using r(7) by (simp add: fwd_rule_at_def as_fwd_entry_def)
      then show ?thesis using dec nz True me f' run \<open>eg\<close> by (simp add: h)
    next
      case False
      then have nd: "\<not> direct cfg c i" using r(3) \<open>eg\<close> by (simp add: direct_out_def)
      have "fwd_table st (bswap32 (node_sph c i)) = Some \<lparr>flags = 0, address = addr_at M cfg c (i + 1)\<rparr>"
        using r(7) False nd by (simp add: fwd_rule_at_def as_fwd_entry_def)
      moreover have "i < 254" using False i by (simp add: is_last_def)
      ultimately show ?thesis using dec nz False nd me f' run \<open>eg\<close> h(2)
        by (auto simp: h(1,3) arrives_def direct_in_def node_sph_Suc [simplified])
    qed
  qed
qed


text \<open>The frame ahead of the last \<open>length ns\<close> positions of a chain.\<close>

definition on_route :: "CBManager \<Rightarrow> cb_config \<Rightarrow> cb_chain \<Rightarrow> mac \<Rightarrow> mac \<Rightarrow> bytes \<Rightarrow> deployed list \<Rightarrow> bytes \<Rightarrow> bool" where
  "on_route M cfg c d me body ns f = (if ns = [] then f = ethhdr d me ETH_P_IP @ body
     else src_mac (snd (snd (snd (last ns)))) 1 = Some me \<and> length (chain_nodes c) \<le> 255
       \<and> (\<exists>s key i. get_tuple (ethhdr d s ETH_P_IP @ body) 14 zero_tuple = Some (0, key)
         \<and> i + length ns = length (chain_nodes c) \<and> (\<forall>j<length ns. node_ready M cfg c key (i + j) (ns ! j))
         \<and> arrives M cfg c (ethhdr d s ETH_P_IP @ body) i f))"

lemma cross_on_route:
  assumes "on_route M cfg c d me body (n # ns) f"
  shows "\<exists>g. cross_node n f = Some g \<and> on_route M cfg c d me body ns g"
proof -
  obtain ing eg E st where n: "n = (ing, eg, E, st)" by (cases n) auto
  from assms obtain s key i where me: "src_mac (snd (snd (snd (last (n # ns))))) 1 = Some me"
    and len: "length (chain_nodes c) \<le> 255"
    and key: "get_tuple (ethhdr d s ETH_P_IP @ body) 14 zero_tuple = Some (0, key)"
    and i: "i + Suc (length ns) = length (chain_nodes c)"
    and ready: "\<And>j. j < Suc (length ns) \<Longrightarrow> node_ready M cfg c key (i + j) ((n # ns) ! j)"
    and arr: "arrives M cfg c (ethhdr d s ETH_P_IP @ body) i f"
    unfolding on_route_def by auto
  have r0: "node_ready M cfg c key i (ing, eg, E, st)" using ready [of 0] by (simp add: n)
  have i': "i < length (chain_nodes c)" using i by simp
  obtain q where run: "cross ing eg E st f = Some q"
    and q: "if is_last c i then \<exists>m. src_mac st 1 = Some m \<and> q = ethhdr d m ETH_P_IP @ body
       else arrives M cfg c (ethhdr d s ETH_P_IP @ body) (i + 1) q"
    using node_passes [OF r0 arr i' len refl key] by blast
  show ?thesis
  proof (cases "ns = []")
    case True
    then have "is_last c i" using i by (simp add: is_last_def)
    with True q run me show ?thesis by (simp add: n on_route_def cross_node_def)
  next
    case False
    then have "\<not> is_last c i" using i by (cases ns) (simp_all add: is_last_def)
    then have "arrives M cfg c (ethhdr d s ETH_P_IP @ body) (i + 1) q" using q by simp
    moreover have "node_ready M cfg c key (i + 1 + j) (ns ! j)" if "j < length ns" for j
      using ready [of "Suc j"] that by simp
    moreover have "i + 1 + length ns = length (chain_nodes c)" using i by simp
    ultimately have "on_route M cfg c d me body ns q" using False me len key unfolding on_route_def
      by (auto intro!: exI [of _ s] exI [of _ "i + 1"])
    then show ?thesis using run by (simp add: n cross_node_def)
  qed
qed

interpretation deployed_chain: route cross_node "on_route M cfg c d me body" for M cfg c d me body
  by unfold_locales (rule cross_on_route)

lemma cross_all_arrives:
  assumes inner: "inner = ethhdr d s ETH_P_IP @ body" and key: "get_tuple inner 14 zero_tuple = Some (0, key)"
    and len: "length (chain_nodes c) \<le> 255" and ns: "ns \<noteq> []" "length ns = length (chain_nodes c)"
    and ready: "\<And>j. j < length ns \<Longrightarrow> node_ready M cfg c key j (ns ! j)" and arr: "arrives M cfg c inner 0 f"
    and me: "src_mac (snd (snd (snd (last ns)))) 1 = Some me"
  shows "cross_all ns f = Some (ethhdr d me ETH_P_IP @ body)"
proof -
  have "on_route M cfg c d me body ns f"
    using assms unfolding on_route_def by (auto intro!: exI [of _ s] exI [of _ "0 :: nat"])
  from deployed_chain.delivers [OF this] show ?thesis by (simp add: on_route_def)
qed

section \<open>From the control plane to the nodes\<close>

text \<open>Go's \<^verbatim>\<open>range\<close> visits every entry of a map once, in some order.\<close>

definition ranges :: "string list \<Rightarrow> cb_chain list \<Rightarrow> bool" where
  "ranges order cs \<longleftrightarrow> distinct order \<and> (\<forall>c\<in>set cs. set (chain_nodes c) \<subseteq> set order)"

text \<open>Every agent has a connection of its own.\<close>

definition own_connections :: "CBManager \<Rightarrow> bool" where
  "own_connections M \<longleftrightarrow> (\<forall>n n' cl cl'. connectedAgents M n = Some cl \<longrightarrow> connectedAgents M n' = Some cl'
     \<longrightarrow> conn cl = conn cl' \<longrightarrow> n = n')"

lemma HandleConnection_cases:
  obtains "HandleConnection c d M = M"
  | n a where "HandleConnection c d M = M\<lparr>connectedAgents := (connectedAgents M)(n \<mapsto> \<lparr>conn = c, addr = a\<rparr>)\<rparr>"
proof (cases "\<exists>n a. (case d of Some msg \<Rightarrow> ParseCBMsg msg | None \<Rightarrow> None) = Some (Obj_Hello n a)")
  case True
  then show thesis using that by (auto simp: HandleConnection_def)
next
  case False
  then have "HandleConnection c d M = M" by (auto simp: HandleConnection_def split: option.split msg_obj.split)
  then show thesis by (rule that(1))
qed

lemma serve_own:
  "own_connections M \<Longrightarrow> distinct (map fst conns) \<Longrightarrow> (\<forall>n cl. connectedAgents M n = Some cl \<longrightarrow> conn cl \<notin> fst ` set conns)
   \<Longrightarrow> own_connections (serve conns M)"
proof (induction conns arbitrary: M)
  case (Cons x conns)
  obtain c d where x: "x = (c, d)" by (cases x)
  have "own_connections (serve conns (HandleConnection c d M))"
  proof (rule HandleConnection_cases [of c d M])
    assume "HandleConnection c d M = M"
    then show ?thesis using Cons by (auto simp: x)
  next
    fix n a assume h: "HandleConnection c d M = M\<lparr>connectedAgents := (connectedAgents M)(n \<mapsto> \<lparr>conn = c, addr = a\<rparr>)\<rparr>"
    have new: "conn cl \<noteq> c" if "connectedAgents M n' = Some cl" for n' cl
      using Cons.prems(3) that by (auto simp: x)
    have "own_connections (HandleConnection c d M)"
      using Cons.prems(1) new new [THEN not_sym] unfolding h own_connections_def by (simp split: if_splits)
    moreover have "\<forall>n cl. connectedAgents (HandleConnection c d M) n = Some cl \<longrightarrow> conn cl \<notin> fst ` set conns"
      using Cons.prems(2,3) unfolding h by (auto simp: x split: if_splits)
    ultimately show ?thesis using Cons by simp
  qed
  then show ?case by (simp add: serve_def x)
qed (simp add: serve_def)

text \<open>The table of a manager that read every connection once.\<close>

lemma served_own_connections: "distinct (map fst conns) \<Longrightarrow> own_connections (serve conns NewCBManager)"
  by (rule serve_own) (simp_all add: own_connections_def NewCBManager_def)

definition received :: "(nat \<times> CBMsg) list \<Rightarrow> nat \<Rightarrow> CBMsg list" where
  "received sent k = map snd (filter (\<lambda>x. fst x = k) sent)"

text \<open>What the interface information of the agent's two libraries agrees on.\<close>

definition same_hardware :: "control_env \<Rightarrow> bool" where
  "same_hardware AE \<longleftrightarrow> (\<forall>n i. InterfaceByName AE n = Some i \<longrightarrow>
     if_name i = n \<and> HardwareAddr i = enc_mac (hwaddr_of AE n) \<and> unicast (hwaddr_of AE n))"

text \<open>
  A node at work: its agent was started by the deployment with the interfaces that were chosen, its
  Hello reached the manager, the handlers of what the manager sent have run, concurrently, and the
  maps of its stages are the maps the agent wrote.
\<close>

definition node_runs ::
  "control_env \<Rightarrow> CBManager \<Rightarrow> (nat \<times> CBMsg) list \<Rightarrow> NetType \<Rightarrow> links \<Rightarrow> cb_instance \<Rightarrow> agent_state \<Rightarrow> deployed \<Rightarrow> bool" where
  "node_runs AE M sent net L sf s0 n = (case n of (ing, eg, E, st) \<Rightarrow>
     ing = (\<not> snd (sf_ingress net L sf)) \<and> eg = (\<not> snd (sf_egress net L sf))
     \<and> (\<exists>cl k obj server s1 started run stack.
         connectedAgents M (inst_tag sf) = Some cl
         \<and> agent_main AE [''cb_agent'', inst_tag sf, if ing then fst (sf_ingress net L sf) else ''-'',
                          if eg then fst (sf_egress net L sf) else ''-'', obj, server]
             (map Decoded (received sent (conn cl))) s0
           = Some (None, s1, [(k, MakeCBMsg_Hello (inst_tag sf) (addr cl))], started)
         \<and> run \<in> interleavings (map handler_steps started)
         \<and> (let s2 = run_steps AE stack run s1 in
            src_mac st = m_src_mac s2 \<and> nsh_data st = m_nsh_data s2 \<and> fwd_table st = m_fwd_table s2)))"

lemma MakeCBMsg_Hello_eq [simp]: "MakeCBMsg_Hello n a = MakeCBMsg_Hello n' a' \<longleftrightarrow> n = n' \<and> a = a'"
  by (simp add: MakeCBMsg_Hello_def)

lemma MakeCBAddress_mac [simp]: "MakeCBAddress (enc_mac m) = m"
  by (simp add: MakeCBAddress_def)

lemma agent_main_ok:
  assumes run: "agent_main AE [prog, name, iif, eif, obj, server] ds s0 = Some (None, s1, [(k, hello)], started)"
  shows "\<exists>cba. NewCBAgent AE name (if iif = ''-'' then [] else iif) (if eif = ''-'' then [] else eif) obj s0 = Some (Inr cba, s1)
    \<and> hello = MakeCBMsg_Hello name (MakeCBAddress (case ingress_iface cba of Some i \<Rightarrow> HardwareAddr i | None \<Rightarrow> replicate 6 0))
    \<and> listen_loop ds = (None, started)"
  using run NewCBAgent_ok [of AE name "if iif = ''-'' then [] else iif" "if eif = ''-'' then [] else eif" obj s0]
  by (auto simp: agent_main_def ManagerConnect_def ManagerListen_def Let_def
      split: Option.bind_splits sum.splits prod.splits if_splits option.splits)

lemma default_iface_name:
  "\<not> snd (sf_ingress net L sf) \<Longrightarrow> fst (sf_ingress net L sf) \<noteq> [] \<and> fst (sf_ingress net L sf) \<noteq> ''-''"
  "\<not> snd (sf_egress net L sf) \<Longrightarrow> fst (sf_egress net L sf) \<noteq> [] \<and> fst (sf_egress net L sf) \<noteq> ''-''"
  by (cases net; auto simp: sf_ingress_def sf_egress_def split: option.splits if_splits)+

lemma node_runs_links:
  assumes "same_ifaces L0 L"
  shows "node_runs AE M sent net L sf s0 n = node_runs AE M sent net L0 sf s0 n"
  unfolding node_runs_def same_ifaces_choice [OF assms, THEN conjunct1] same_ifaces_choice [OF assms, THEN conjunct2] ..

lemma node_runs_macs:
  assumes run: "node_runs AE M sent net L sf s0 (ing, eg, E, st)"
    and hw: "same_hardware AE" and upd: "updates_work AE" "map_update (upd_src_mac AE (obj_get AE src_mac_file))"
  shows "\<exists>cl. connectedAgents M (inst_tag sf) = Some cl
    \<and> (ing \<longrightarrow> unicast (addr cl) \<and> src_mac st 0 = Some (addr cl)) \<and> (eg \<longrightarrow> src_mac st 1 \<noteq> None)"
proof -
  let ?i = "if ing then fst (sf_ingress net L sf) else ''-''" and ?e = "if eg then fst (sf_egress net L sf) else ''-''"
  obtain cl k obj server s1 started run stack where cl: "connectedAgents M (inst_tag sf) = Some cl"
    and main: "agent_main AE [''cb_agent'', inst_tag sf, ?i, ?e, obj, server]
       (map Decoded (received sent (conn cl))) s0 = Some (None, s1, [(k, MakeCBMsg_Hello (inst_tag sf) (addr cl))], started)"
    and mac: "src_mac st = m_src_mac (run_steps AE stack run s1)"
    and ie: "ing = (\<not> snd (sf_ingress net L sf))" "eg = (\<not> snd (sf_egress net L sf))"
    using run unfolding node_runs_def split_conv Let_def by blast
  obtain cba where new: "NewCBAgent AE (inst_tag sf) (if ?i = ''-'' then [] else ?i) (if ?e = ''-'' then [] else ?e) obj s0
      = Some (Inr cba, s1)"
    and addr: "addr cl = MakeCBAddress (case ingress_iface cba of Some i \<Rightarrow> HardwareAddr i | None \<Rightarrow> replicate 6 0)"
    using agent_main_ok [OF main] by auto
  note n = default_iface_name [of net L sf]
  have i: "iface_named AE (if ing then ?i else []) (ingress_iface cba)"
    "iface_named AE (if eg then ?e else []) (egress_iface cba)"
    and stages: "installStages AE cba obj s0 = Some (None, s1)"
    using NewCBAgent_ok [OF new] n ie by auto
  have m: "m_src_mac s1 = with_mac AE EGRESS_MAC (egress_iface cba) (with_mac AE INGRESS_MAC (ingress_iface cba) (m_src_mac s0))"
    using installStages_ok [OF stages upd(2)] by simp
  have "unicast (addr cl) \<and> src_mac st 0 = Some (addr cl)" if a: ing
  proof -
    have "iface_named AE (fst (sf_ingress net L sf)) (ingress_iface cba)" using i(1) a by simp
    then obtain i where i: "ingress_iface cba = Some i" "InterfaceByName AE ?i = Some i"
      using n(1) a ie by (auto simp: iface_named_def)
    then have "if_name i = ?i" "HardwareAddr i = enc_mac (hwaddr_of AE ?i)" "unicast (hwaddr_of AE ?i)"
      using hw by (auto simp: same_hardware_def)
    then show ?thesis
      using a addr m i(1) mac by (simp add: steps_frame(3) [OF upd(1)] with_mac_def split: option.split)
  qed
  moreover have "src_mac st 1 \<noteq> None" if eg
    using i(2) n(2) that ie m mac by (auto simp: iface_named_def steps_frame(3) [OF upd(1)] with_mac_def split: option.splits if_splits)
  ultimately show ?thesis using cl by blast
qed

lemma filter_range_map:
  "distinct names \<Longrightarrow> filter (\<lambda>x. fst x = n) (range_map names m) =
    (if n \<in> set names then case m n of None \<Rightarrow> [] | Some r \<Rightarrow> [(n, r)] else [])"
  by (induction names) (auto simp: range_map_def map_filter_simps split: option.split)

text \<open>What reaches the agent of a node is its configuration, if it has one.\<close>

lemma received_install:
  assumes inst: "InstallConfiguration ME M cfg = Some (None, sent)" and order: "distinct (range_order ME)" "name \<in> set (range_order ME)"
    and own: "own_connections M" and cl: "connectedAgents M name = Some cl"
  shows "\<exists>R. chain_loop ME M cfg (cfg_chains cfg) no_rules = Some R
    \<and> received sent (conn cl) = (case node_cfgs R name of None \<Rightarrow> [] | Some r \<Rightarrow> [MakeCBMsg_Install (Fwd r) (Proxy r)])"
proof -
  obtain R where R: "chain_loop ME M cfg (cfg_chains cfg) no_rules = Some R"
    and batch: "batchInstallRules ME M (range_map (range_order ME) (node_cfgs R)) = Some (None, sent)"
    using inst by (auto simp: InstallConfiguration_def split: if_splits Option.bind_splits)
  let ?rs = "range_map (range_order ME) (node_cfgs R)"
  note sent = batchInstallRules_sent [OF batch]
  have c: "conn (the (connectedAgents M (fst x))) = conn cl \<longleftrightarrow> fst x = name" if "x \<in> set ?rs" for x
    using sent(2) that own cl unfolding own_connections_def by fastforce
  have "received sent (conn cl) = map (\<lambda>x. MakeCBMsg_Install (Fwd (snd x)) (Proxy (snd x)))
      (filter (\<lambda>x. conn (the (connectedAgents M (fst x))) = conn cl) ?rs)"
    unfolding received_def sent(1) by (simp add: filter_map comp_def case_prod_beta)
  also have "filter (\<lambda>x. conn (the (connectedAgents M (fst x))) = conn cl) ?rs = filter (\<lambda>x. fst x = name) ?rs"
    using c by (intro filter_cong) auto
  finally show ?thesis using R order by (auto simp: filter_range_map split: option.split)
qed

text \<open>
  What the control plane asks of a configuration, and warns about but does not check: path
  identifiers that fit 24 bits and differ, at most 255 nodes in a chain, and nodes with direct links
  that stand at one position only.
\<close>

definition paths_fit :: "cb_chain list \<Rightarrow> bool" where
  "paths_fit cs \<longleftrightarrow> (\<forall>c\<in>set cs. unat (chain_id c) < 2 ^ 24 \<and> length (chain_nodes c) \<le> 255)
     \<and> inj_on chain_id (set cs)"

definition unshared :: "cb_config \<Rightarrow> cb_chain list \<Rightarrow> cb_chain \<Rightarrow> bool" where
  "unshared cfg cs c \<longleftrightarrow> (\<forall>i<length (chain_nodes c). \<forall>c'\<in>set cs. \<forall>j<length (chain_nodes c').
     chain_nodes c' ! j = chain_nodes c ! i \<longrightarrow>
     direct_in cfg c i \<or> direct_out cfg c i \<or> direct_in cfg c' j \<or> direct_out cfg c' j \<longrightarrow> c' = c \<and> j = i)"

lemma in_linked_in:
  "n \<in> linked_in cfg c {1..<length (chain_nodes c)} \<longleftrightarrow>
    (\<exists>j<length (chain_nodes c). chain_nodes c ! j = n \<and> direct_in cfg c j)"
  by (auto simp: linked_in_def direct_in_def image_iff Suc_le_eq)

lemma in_linked_out:
  "n \<in> linked_out cfg c {1..<length (chain_nodes c)} \<longleftrightarrow>
    (\<exists>j<length (chain_nodes c). chain_nodes c ! j = n \<and> direct_out cfg c j)"
proof
  assume "n \<in> linked_out cfg c {1..<length (chain_nodes c)}"
  then obtain i where "1 \<le> i" "i < length (chain_nodes c)" "n = chain_nodes c ! (i - 1)" "direct cfg c (i - 1)"
    by (auto simp: linked_out_def)
  then show "\<exists>j<length (chain_nodes c). chain_nodes c ! j = n \<and> direct_out cfg c j"
    by (intro exI [of _ "i - 1"]) (auto simp: direct_out_def is_last_def)
next
  assume "\<exists>j<length (chain_nodes c). chain_nodes c ! j = n \<and> direct_out cfg c j"
  then obtain j where "j < length (chain_nodes c)" "\<not> is_last c j" "chain_nodes c ! j = n" "direct cfg c j"
    by (auto simp: direct_out_def)
  then have "j + 1 < length (chain_nodes c)" "chain_nodes c ! j = n" "direct cfg c j"
    by (simp_all add: is_last_def)
  then show "n \<in> linked_out cfg c {1..<length (chain_nodes c)}"
    by (auto simp: linked_out_def intro!: image_eqI [of _ _ "j + 1"])
qed

lemma links_of_deployment:
  assumes "cfg = NewCBConfig cs fs" and "link_chains ok cfg cs no_links = Inr L"
    and "c \<in> set cs" and "unshared cfg cs c" and "i < length (chain_nodes c)"
  shows "chain_nodes c ! i \<in> dom (ingress_ifaces L) \<longleftrightarrow> direct_in cfg c i"
    and "chain_nodes c ! i \<in> dom (egress_ifaces L) \<longleftrightarrow> direct_out cfg c i"
proof -
  have d: "dom (ingress_ifaces L) = (\<Union>c\<in>set cs. linked_in cfg c {1..<length (chain_nodes c)})"
    "dom (egress_ifaces L) = (\<Union>c\<in>set cs. linked_out cfg c {1..<length (chain_nodes c)})"
    using link_chains_doms [OF assms(1,2)] by (simp_all add: no_links_def)
  show "chain_nodes c ! i \<in> dom (ingress_ifaces L) \<longleftrightarrow> direct_in cfg c i"
    unfolding d UN_iff in_linked_in using assms(3-5) unfolding unshared_def by metis
  show "chain_nodes c ! i \<in> dom (egress_ifaces L) \<longleftrightarrow> direct_out cfg c i"
    unfolding d UN_iff in_linked_out using assms(3-5) unfolding unshared_def by metis
qed

text \<open>The rules in the maps of a node.\<close>

lemma in_at_positions:
  "r \<in> at_positions cs node f \<longleftrightarrow> (\<exists>c\<in>set cs. \<exists>i<length (chain_nodes c). chain_nodes c ! i = node \<and> r \<in> f c i)"
  by (fastforce simp: at_positions_def at_range_def)

lemma rules_functional:
  assumes "paths_fit cs" and "c \<in> set cs" and "i < length (chain_nodes c)" and "fwd_rule_at M cfg c i = Some r"
    and "y \<in> at_positions cs node (\<lambda>c i. set_option (fwd_rule_at M cfg c i))" and "fr_key y = fr_key r"
  shows "y = r"
proof -
  obtain c' j where c': "c' \<in> set cs" "j < length (chain_nodes c')" "fwd_rule_at M cfg c' j = Some y"
    using assms(5) by (auto simp: in_at_positions)
  have k: "fr_key y = node_sph c' j" "fr_key r = node_sph c i"
    using c'(3) assms(4) by (auto simp: fwd_rule_at_def split: if_splits)
  have "j \<le> 254" "i \<le> 254" using assms(1-3) c'(1,2) by (auto simp: paths_fit_def)
  then have "chain_id c' = chain_id c \<and> j = i"
    using node_sph_eq [of j i c' c] k assms(1,2,6) c'(1) by (auto simp: paths_fit_def)
  then have "c' = c" "j = i" using assms(1,2) c'(1) by (auto simp: paths_fit_def inj_on_def)
  then show ?thesis using c'(3) assms(4) by simp
qed

lemma proxies_functional:
  assumes "unshared cfg cs c" and "c \<in> set cs" and "i < length (chain_nodes c)" and "proxied cfg c i"
    and "y \<in> at_positions cs (chain_nodes c ! i) (proxy_rules_at E cfg)"
  shows "pr_val y = node_sph c i + 1"
proof -
  obtain c' j where c': "c' \<in> set cs" "j < length (chain_nodes c')" "chain_nodes c' ! j = chain_nodes c ! i"
    "y \<in> proxy_rules_at E cfg c' j"
    using assms(5) by (auto simp: in_at_positions)
  have "direct_in cfg c i" using assms(4) by (simp add: proxied_def direct_in_def)
  then have "c' = c" "j = i" using assms(1,3) c' unfolding unshared_def by metis+
  then show ?thesis using c'(4) by (auto simp: proxy_rules_at_def split: if_splits)
qed


lemma node_runs_rules:
  assumes run: "node_runs AE M sent net L sf s0 (ing, eg, E, st)"
    and upd: "updates_work AE" and cl: "connectedAgents M (inst_tag sf) = Some cl"
    and rec: "received sent (conn cl) = (case node_cfgs R (inst_tag sf) of None \<Rightarrow> []
      | Some r \<Rightarrow> [MakeCBMsg_Install (Fwd r) (Proxy r)])"
    and frule: "frules R (inst_tag sf) = Some fs" and ps: "ps = (case prules R (inst_tag sf) of Some p \<Rightarrow> p | None \<Rightarrow> [])"
  shows "\<exists>(s1 :: agent_state) stack. fwd_table st = m_fwd_table (run_steps AE stack (map Fwd_step fs @ map Proxy_step ps) s1)
    \<and> nsh_data st = m_nsh_data (run_steps AE stack (map Fwd_step fs @ map Proxy_step ps) s1)"
proof -
  obtain k obj server s1 started run stack ii ee where
    main: "agent_main AE [''cb_agent'', inst_tag sf, ii, ee, obj, server]
       (map Decoded (received sent (conn cl))) s0 = Some (None, s1, [(k, MakeCBMsg_Hello (inst_tag sf) (addr cl))], started)"
    and steps: "run \<in> interleavings (map handler_steps started)"
    and st: "nsh_data st = m_nsh_data (run_steps AE stack run s1)"
      "fwd_table st = m_fwd_table (run_steps AE stack run s1)"
    using run cl unfolding node_runs_def split_conv Let_def by (metis option.inject)
  have "node_cfgs R (inst_tag sf) = Some \<lparr>Fwd = fs, Proxy = ps\<rparr>" using frule ps by (simp add: node_cfgs_def)
  then have "received sent (conn cl) = [MakeCBMsg_Install fs ps]" using rec by simp
  then have "started = [\<lparr>Fwd = fs, Proxy = ps\<rparr>]"
    using agent_main_ok [OF main] by (auto simp: ParseCBMsg_def MakeCBMsg_Install_def)
  then have "run = handler_steps \<lparr>Fwd = fs, Proxy = ps\<rparr>" using steps by simp
  then show ?thesis using st by (intro exI [of _ s1] exI [of _ stack]) (simp add: handler_steps_def)
qed

lemma node_is_ready:
  assumes cfg: "cfg = NewCBConfig cs fs" and links: "link_chains ok cfg cs no_links = Inr L"
    and inst: "InstallConfiguration ME M cfg = Some (None, sent)" and order: "ranges (range_order ME) cs"
    and own: "own_connections M" and fit: "paths_fit cs"
    and c: "c \<in> set cs" and uns: "unshared cfg cs c" and i: "i < length (chain_nodes c)"
    and sf: "GetNodeByName cfg (chain_nodes c ! i) = Some sf"
    and run: "node_runs AE M sent net L sf s0 n"
    and hw: "same_hardware AE" and upd: "updates_work AE" "map_update (upd_src_mac AE (obj_get AE src_mac_file))"
    and helpers: "helpers_work (fst (snd (snd n)))"
    and flow: "flow \<in> set (chain_flows c)" "Parse (parse_v6 ME) flow = Some t" "net_key (as_ip_5tuple t) = key"
  shows "node_ready M cfg c key i n"
proof -
  obtain ing eg E st where n: "n = (ing, eg, E, st)" by (cases n) auto
  let ?name = "chain_nodes c ! i"
  have tag: "inst_tag sf = ?name" using sf GetNodeByName_tag cfg by blast
  obtain cl where cl: "connectedAgents M ?name = Some cl"
    and mac: "ing \<Longrightarrow> unicast (addr cl) \<and> src_mac st 0 = Some (addr cl)" "eg \<Longrightarrow> src_mac st 1 \<noteq> None"
    using node_runs_macs [OF run [unfolded n] hw upd] tag by auto
  have addr: "addr_at M cfg c i = addr cl" by (simp add: addr_at_def sf tag cl)
  have omit: "ing = (\<not> direct_in cfg c i)" "eg = (\<not> direct_out cfg c i)"
    using run links_of_deployment [OF cfg links c uns i]
    by (auto simp: n node_runs_def sf_ingress_def sf_egress_def tag dom_def split: option.splits)
  have nm: "distinct (range_order ME)" "?name \<in> set (range_order ME)"
    using order c nth_mem [OF i] unfolding ranges_def by blast+
  obtain R where R: "chain_loop ME M cfg cs no_rules = Some R"
    and rec: "received sent (conn cl) = (case node_cfgs R ?name of None \<Rightarrow> [] | Some r \<Rightarrow> [MakeCBMsg_Install (Fwd r) (Proxy r)])"
    using received_install [OF inst nm own cl] by (auto simp: cfg NewCBConfig_def)
  have frs: "elems (frules R) ?name = at_positions cs ?name (\<lambda>c i. set_option (fwd_rule_at M cfg c i))"
    and prs: "elems (prules R) ?name = at_positions cs ?name (proxy_rules_at ME cfg)"
    using chain_loop_rules [OF R, of ?name] by (simp_all add: no_rules_def elems_def)
  show ?thesis
  proof (cases "fwd_rule_at M cfg c i")
    case None
    then have "\<not> proxied cfg c i" by (auto simp: proxied_def fwd_rule_at_def split: if_splits)
    with None show ?thesis using helpers omit mac addr by (simp add: node_ready_def n)
  next
    case (Some r)
    then have "r \<in> elems (frules R) ?name" unfolding frs in_at_positions using c i by auto
    then obtain fl where fl: "frules R ?name = Some fl" "r \<in> set fl"
      by (auto simp: elems_def split: option.splits)
    define ps where "ps = (case prules R ?name of Some p \<Rightarrow> p | None \<Rightarrow> [])"
    have pse: "set ps = elems (prules R) ?name" by (simp add: ps_def elems_def split: option.split)
    let ?run = "map Fwd_step fl @ map Proxy_step ps"
    obtain s1 :: agent_state and stack where
      ft: "fwd_table st = m_fwd_table (run_steps AE stack ?run s1)"
      and nd: "nsh_data st = m_nsh_data (run_steps AE stack ?run s1)"
      using node_runs_rules [OF run [unfolded n] upd(1) cl [folded tag] rec [folded tag] fl(1) [folded tag]
        ps_def [folded tag]] by blast
    have "y = r" if "y \<in> set fl" "fr_key y = fr_key r" for y
    proof (rule rules_functional [OF fit c i Some _ that(2)])
      show "y \<in> at_positions cs ?name (\<lambda>c i. set_option (fwd_rule_at M cfg c i))"
        using that(1) fl(1) unfolding frs [symmetric] by (simp add: elems_def)
    qed
    then have "\<forall>y\<in>set ?run. consistent (Fwd_step r) y" by force
    then have rule: "fwd_table st (bswap32 (fr_key r)) = Some (as_fwd_entry (fr_val r))"
      unfolding ft by (rule steps_install_fwd [OF upd(1)]) (use fl(2) in simp)
    have proxy: "\<exists>ctx. nsh_data st key = Some (proxy_nsh ctx (node_sph c i + 1))" if px: "proxied cfg c i"
    proof -
      let ?p = "\<lparr>pr_key = t, pr_val = node_sph c i + 1\<rparr>"
      have p: "?p \<in> set ps" unfolding pse prs in_at_positions using c i px flow
        by (auto simp: proxy_rules_at_def)
      have "pr_val y = pr_val ?p" if "y \<in> set ps" for y
        using proxies_functional [OF uns c i px] that unfolding pse prs by simp
      then have cons: "\<forall>y\<in>set ?run. consistent (Proxy_step ?p) y" by force
      have "Proxy_step ?p \<in> set ?run" using p by simp
      from steps_install_proxy [OF upd(1) cons disjI1 [OF this], of stack s1] flow(3) show ?thesis by (simp add: nd)
    qed
    have "\<exists>h. nsh_data st key = Some h \<and> next_proto h = NSH_NEXT_PROTO_ETHER \<and> sph_of h = node_sph c i + 1"
      if "proxied cfg c i"
      using proxy [OF that] proxy_nsh_fields by blast
    then show ?thesis
      using helpers omit mac addr rule Some by (auto simp: node_ready_def n)
  qed
qed

section \<open>Which nodes get rules\<close>

text \<open>A map that is only appended to has no empty list.\<close>

definition no_empty :: "('k \<rightharpoonup> 'a list) \<Rightarrow> bool" where
  "no_empty m \<longleftrightarrow> (\<forall>k. m k \<noteq> Some [])"

lemma no_empty_append_to: "no_empty m \<Longrightarrow> no_empty (append_to m k x)"
  by (simp add: no_empty_def append_to_def)

lemma no_empty_dom: "no_empty m \<Longrightarrow> k \<in> dom m \<longleftrightarrow> elems m k \<noteq> {}"
  by (auto simp: no_empty_def elems_def split: option.splits)

lemma fwd_part_no_empty: "fwd_part M cfg c i R = Some R' \<Longrightarrow> no_empty (frules R) \<Longrightarrow> no_empty (frules R') \<and> prules R' = prules R"
  by (auto dest!: fwd_part_Some intro: no_empty_append_to split: option.splits)

lemma add_proxies_no_empty: "add_proxies V6 node sph fl R = Some R' \<Longrightarrow> no_empty (prules R) \<Longrightarrow> no_empty (prules R')"
proof (induction fl arbitrary: R)
  case (Cons flow fl)
  then obtain t where
    "add_proxies V6 node sph fl (R\<lparr>prules := append_to (prules R) node \<lparr>pr_key = t, pr_val = sph + 1\<rparr>\<rparr>) = Some R'"
    by (auto split: Option.bind_splits)
  from Cons.IH [OF this] Cons.prems(2) show ?case by (simp add: no_empty_append_to)
qed simp

lemma proxy_part_no_empty: "proxy_part E cfg c i R = Some R' \<Longrightarrow> no_empty (prules R) \<Longrightarrow> no_empty (prules R')"
  by (auto simp: proxy_part_def split: if_splits Option.bind_splits dest: add_proxies_no_empty)

lemma node_loop_no_empty:
  "node_loop E M cfg c i n R = Some R' \<Longrightarrow> no_empty (frules R) \<Longrightarrow> no_empty (prules R) \<Longrightarrow>
    no_empty (frules R') \<and> no_empty (prules R')"
proof (induction n arbitrary: i R)
  case (Suc n)
  then obtain R1 R2 where 1: "fwd_part M cfg c i R = Some R1" and 2: "proxy_part E cfg c i R1 = Some R2"
    and 3: "node_loop E M cfg c (Suc i) n R2 = Some R'"
    by (auto split: Option.bind_splits)
  show ?case
    using Suc.IH [OF 3] fwd_part_no_empty [OF 1] proxy_part_no_empty [OF 2] proxy_part_Some [OF 2] Suc.prems(2,3) by simp
qed simp

lemma chain_loop_no_empty:
  "chain_loop E M cfg cs R = Some R' \<Longrightarrow> no_empty (frules R) \<Longrightarrow> no_empty (prules R) \<Longrightarrow>
    no_empty (frules R') \<and> no_empty (prules R')"
  by (induction cs arbitrary: R) (auto split: Option.bind_splits dest: node_loop_no_empty)

text \<open>The names that get rules.\<close>

lemma names_with_rules:
  assumes "chain_loop E M cfg cs no_rules = Some R"
  shows "name \<in> dom (frules R) \<longleftrightarrow>
      (\<exists>c\<in>set cs. \<exists>i<length (chain_nodes c). chain_nodes c ! i = name \<and> \<not> direct_out cfg c i)"
    and "name \<in> dom (prules R) \<longleftrightarrow>
      (\<exists>c\<in>set cs. \<exists>i<length (chain_nodes c). chain_nodes c ! i = name \<and> proxy_rules_at E cfg c i \<noteq> {})"
proof -
  have e: "no_empty (frules R)" "no_empty (prules R)"
    using chain_loop_no_empty [OF assms] by (simp_all add: no_rules_def no_empty_def)
  have r: "elems (frules R) name = at_positions cs name (\<lambda>c i. set_option (fwd_rule_at M cfg c i))"
    "elems (prules R) name = at_positions cs name (proxy_rules_at E cfg)"
    using chain_loop_rules [OF assms, of name] by (simp_all add: no_rules_def elems_def)
  have f: "set_option (fwd_rule_at M cfg c i) \<noteq> {} \<longleftrightarrow> \<not> direct_out cfg c i" for c i
    by (simp add: fwd_rule_at_def direct_out_def)
  have n: "at_positions cs name f \<noteq> {} \<longleftrightarrow>
      (\<exists>c\<in>set cs. \<exists>i<length (chain_nodes c). chain_nodes c ! i = name \<and> f c i \<noteq> {})" for f :: "cb_chain \<Rightarrow> nat \<Rightarrow> 'b set"
    unfolding ex_in_conv [symmetric] in_at_positions by blast
  show "name \<in> dom (frules R) \<longleftrightarrow>
      (\<exists>c\<in>set cs. \<exists>i<length (chain_nodes c). chain_nodes c ! i = name \<and> \<not> direct_out cfg c i)"
    unfolding no_empty_dom [OF e(1)] r n f ..
  show "name \<in> dom (prules R) \<longleftrightarrow>
      (\<exists>c\<in>set cs. \<exists>i<length (chain_nodes c). chain_nodes c ! i = name \<and> proxy_rules_at E cfg c i \<noteq> {})"
    unfolding no_empty_dom [OF e(2)] r n ..
qed

text \<open>The flows of a chain with proxied nodes were all parsed.\<close>

lemma node_loop_parses:
  "node_loop E M cfg c i n R = Some R' \<Longrightarrow> j \<in> {i..<i + n} \<Longrightarrow> proxied cfg c j \<Longrightarrow>
    \<forall>flow\<in>set (chain_flows c). Parse (parse_v6 E) flow \<noteq> None"
proof (induction n arbitrary: i R)
  case (Suc n)
  then obtain R1 R2 where 2: "proxy_part E cfg c i R1 = Some R2" and 3: "node_loop E M cfg c (Suc i) n R2 = Some R'"
    by (auto split: Option.bind_splits)
  show ?case
  proof (cases "j = i")
    case True
    then have "add_proxies (parse_v6 E) (chain_nodes c ! i) (node_sph c i) (chain_flows c) R1 = Some R2"
      using 2 Suc.prems(3) by (auto simp: proxy_part_def proxied_def direct_def remote_at_def split: if_splits Option.bind_splits)
    from add_proxies_Some [OF this] show ?thesis by blast
  next
    case False
    then show ?thesis using Suc.IH [OF 3] Suc.prems(2,3) by simp
  qed
qed simp

lemma chain_loop_parses:
  "chain_loop E M cfg cs R = Some R' \<Longrightarrow> c \<in> set cs \<Longrightarrow> j < length (chain_nodes c) \<Longrightarrow> proxied cfg c j \<Longrightarrow>
    \<forall>flow\<in>set (chain_flows c). Parse (parse_v6 E) flow \<noteq> None"
proof (induction cs arbitrary: R)
  case (Cons c' cs)
  then obtain R1 where "node_loop E M cfg c' 0 (length (chain_nodes c')) R = Some R1" "chain_loop E M cfg cs R1 = Some R'"
    by (auto split: Option.bind_splits)
  then show ?case using Cons.IH Cons.prems(2-4) node_loop_parses [of E M cfg c' 0 _ R R1 j] by fastforce
qed simp

lemma proxy_rules_nonempty:
  assumes "chain_loop E M cfg cs R = Some R'" and "c \<in> set cs" and "i < length (chain_nodes c)"
  shows "proxy_rules_at E cfg c i \<noteq> {} \<longleftrightarrow> proxied cfg c i \<and> chain_flows c \<noteq> []"
proof
  assume "proxied cfg c i \<and> chain_flows c \<noteq> []"
  moreover from this obtain flow where "flow \<in> set (chain_flows c)" by (meson last_in_set)
  ultimately show "proxy_rules_at E cfg c i \<noteq> {}"
    using chain_loop_parses [OF assms] by (fastforce simp: proxy_rules_at_def)
qed (auto simp: proxy_rules_at_def split: if_splits)

end
