(* ===== verification/ControlledChain.thy ===== *)
theory ControlledChain
  imports ChainControl
begin

text \<open>
  The properties of the control plane, alone and together with the data plane, and the sample
  configuration on which they are shown to apply: two local functions with a direct link, then a
  remote one.
\<close>

section \<open>What an agent's environment must provide\<close>

definition agent_works :: "control_env \<Rightarrow> bool" where
  "agent_works AE \<longleftrightarrow> same_hardware AE \<and> updates_work AE
     \<and> map_update (upd_src_mac AE (obj_get AE src_mac_file))"

text \<open>Every position of a chain has a node at work, with kernel helpers that work.\<close>

definition chain_runs ::
  "cb_config \<Rightarrow> CBManager \<Rightarrow> (nat \<times> CBMsg) list \<Rightarrow> NetType \<Rightarrow> links \<Rightarrow> cb_chain \<Rightarrow> deployed list \<Rightarrow> bool" where
  "chain_runs cfg M sent net L c ns \<longleftrightarrow> length ns = length (chain_nodes c) \<and>
     (\<forall>i<length ns. \<exists>sf AE s0. GetNodeByName cfg (chain_nodes c ! i) = Some sf \<and> agent_works AE
        \<and> node_runs AE M sent net L sf s0 (ns ! i) \<and> helpers_work (fst (snd (snd (ns ! i)))))"

text \<open>C8. From the configuration file to the delivery. The chains of the configuration have distinct
  24-bit identifiers and at most 255 nodes, and no node of the chain that has a direct link stands
  anywhere else. If the deployment's program ended without an error, the manager's program read the
  same file, every agent on a connection of its own, and sent its rules without an error, and
  the agents that the deployment started have handled what they received, in concurrent handlers,
  then the classifier's frame, addressed to the first node with service index 255, passes all nodes, whether they are
  linked directly or not, and leaves the last one as it came to the classifier, but for the source
  MAC address.\<close>

theorem configured_chain_delivers:
  assumes config: "file name = Some (cs, fs)" and cfg: "cfg = NewCBConfig cs fs" and fit: "paths_fit cs" and c: "c \<in> set cs" and uns: "unshared cfg cs c"
    and deploy: "cb_deploy DE opts file h = Inr (dcfg, L, h', launched)" "cfgfile (parse_flags opts) = name"
    and manager: "manager_main ME [prog, name] file conns = Some (None, None, sent)" "distinct (map fst conns)"
    and M: "M = serve conns NewCBManager" and order: "ranges (range_order ME) cs"
    and runs: "chain_runs cfg M sent net L c ns" and nonempty: "ns \<noteq> []"
    and p: "p = ethhdr d s ETH_P_IP @ body" and key: "get_tuple p 14 zero_tuple = Some (0, key)"
    and flow: "flow \<in> set (chain_flows c)" "Parse (parse_v6 ME) flow = Some t" "net_key (as_ip_5tuple t) = key"
    and rule: "cls_table cst key = Some cls" and cmac: "cls_src_mac cst 1 = Some m" and room: "makes_room b CE p r"
    and first: "next_hop cls = addr_at M cfg c 0"
    and path: "cls_sph cls = bswap32 (push_bit 8 (chain_id c) OR 255)"
  shows "\<exists>cst' f m'. classify_tc b CE cst p = Some ((RET_TX b, cst'), f)
    \<and> src_mac (snd (snd (snd (last ns)))) 1 = Some m'
    \<and> cross_all ns f = Some (ethhdr d m' ETH_P_IP @ body)"
proof -
  let ?h = "cls_nsh cls (room_context b r)"
  let ?f = "ethhdr (next_hop cls) m ETH_P_NSH @ enc_nsh ?h @ p"
  have len: "length (chain_nodes c) \<le> 255" using fit c by (simp add: paths_fit_def)
  have inst: "InstallConfiguration ME M cfg = Some (None, sent)"
    using manager(1) config by (auto simp: manager_main_def cfg M Let_def split: Option.bind_splits)
  have own: "own_connections M" unfolding M by (rule served_own_connections [OF manager(2)])
  obtain L0 where links: "link_chains (\<lambda>a b. True) cfg cs no_links = Inr L0" and same: "same_ifaces L0 L"
    using deployed_links [OF deploy(1)] deploy(2) config cfg by auto
  have runs0: "chain_runs cfg M sent net L0 c ns"
    using runs unfolding chain_runs_def node_runs_links [OF same] .
  have ready: "node_ready M cfg c key i (ns ! i)" if i: "i < length ns" for i
    using runs0 node_is_ready [OF cfg links inst order own fit c uns _ _ _ _ _ _ _ flow] i
    unfolding chain_runs_def agent_works_def by metis
  have "push_bit 8 (chain_id c) OR 255 = node_sph c 0 + 1"
    using unat_path_index [of 255 "chain_id c"] unat_node_sph_1 [of 0 c] by (simp add: word_unat_eq_iff)
  then have "sph_of ?h = node_sph c 0 + 1"
    using path by (simp add: sph_of_def cls_nsh_def)
  then have arr: "arrives M cfg c p 0 ?f"
    using first by (auto simp: arrives_def direct_in_def cls_nsh_def)
  have "length ns = length (chain_nodes c)" using runs by (simp add: chain_runs_def)
  moreover have "0 < length ns" using nonempty by simp
  ultimately have last: "length ns - 1 < length ns" "is_last c (length ns - 1)"
    unfolding is_last_def by linarith+
  then obtain m' where m': "src_mac (snd (snd (snd (last ns)))) 1 = Some m'"
    using ready [OF last(1)] nonempty by (auto simp: node_ready_def direct_out_def last_conv_nth split: prod.splits)
  from cross_all_arrives [OF p key len nonempty _ ready arr m'] runs
  have "cross_all ns ?f = Some (ethhdr d m' ETH_P_IP @ body)" by (simp add: chain_runs_def)
  with m' show ?thesis using classify_sends [OF p key rule cmac room] by blast
qed

section \<open>A sample configuration\<close>

definition sample_chain :: cb_chain where
  "sample_chain = \<lparr>chain_id = 1, chain_nodes = [''sf1'', ''sf2'', ''sf3''],
     chain_flows = [\<lparr>str_ipsrc = ''10.10.10.1'', str_ipdst = ''10.10.10.2'', str_sport = 1000, str_dport = 2000, str_proto = 17\<rparr>]\<rparr>"

definition sample_function :: "string \<Rightarrow> bool \<Rightarrow> cb_instance" where
  "sample_function n rem = \<lparr>inst_tag = n, inst_type = ''tc-redirect'', inst_remote = rem, inst_id = n, inst_address = zero_mac\<rparr>"

definition sample_functions :: "cb_instance list" where
  "sample_functions = [sample_function ''sf1'' False, sample_function ''sf2'' False, sample_function ''sf3'' True]"

definition sample_config :: cb_config where
  "sample_config = NewCBConfig [sample_chain] sample_functions"

definition sample_manager :: CBManager where
  "sample_manager = \<lparr>connectedAgents = [''sf1'' \<mapsto> \<lparr>conn = 1, addr = mac_b\<rparr>, ''sf2'' \<mapsto> \<lparr>conn = 2, addr = zero_mac\<rparr>,
     ''sf3'' \<mapsto> \<lparr>conn = 3, addr = mac_b\<rparr>]\<rparr>"

definition sample_hellos :: "(nat \<times> CBMsg option) list" where
  "sample_hellos = [(1, Some (MakeCBMsg_Hello ''sf1'' mac_b)), (2, Some (MakeCBMsg_Hello ''sf2'' zero_mac)),
     (3, Some (MakeCBMsg_Hello ''sf3'' mac_b))]"

lemma sample_served: "serve sample_hellos NewCBManager = sample_manager"
  by (simp add: serve_def sample_hellos_def sample_manager_def NewCBManager_def HandleConnection_def
      MakeCBMsg_Hello_def ParseCBMsg_def)

definition sample_manager_env :: manager_env where
  "sample_manager_env = \<lparr>parse_v6 = (\<lambda>s. None), writable = (\<lambda>c. True), range_order = [''sf3'', ''sf2'', ''sf1'']\<rparr>"

definition sample_proxy_key :: Ip_5tuple where
  "sample_proxy_key = \<lparr>Ipsrc = 0x0A0A0A01, Ipdst = 0x0A0A0A02, Sport = 1000, Dport = 2000, Proto = 17\<rparr>"

definition sample_sent :: "(nat \<times> CBMsg) list" where
  "sample_sent = [(3, MakeCBMsg_Install [\<lparr>fr_key = 0x1FC, fr_val = \<lparr>Flags = 1, Address = zero_mac\<rparr>\<rparr>] []),
     (2, MakeCBMsg_Install [\<lparr>fr_key = 0x1FD, fr_val = \<lparr>Flags = 0, Address = mac_b\<rparr>\<rparr>]
           [\<lparr>pr_key = sample_proxy_key, pr_val = 0x1FE\<rparr>])]"

lemma sample_parse: "Parse V6 \<lparr>str_ipsrc = ''10.10.10.1'', str_ipdst = ''10.10.10.2'', str_sport = 1000, str_dport = 2000, str_proto = 17\<rparr>
    = Some sample_proxy_key"
  by code_simp

lemma sample_nodes:
  "GetNodeByName sample_config ''sf1'' = Some (sample_function ''sf1'' False)"
  "GetNodeByName sample_config ''sf2'' = Some (sample_function ''sf2'' False)"
  "GetNodeByName sample_config ''sf3'' = Some (sample_function ''sf3'' True)"
  by (simp_all add: sample_config_def sample_functions_def sample_function_def NewCBConfig_def GetNodeByName_def elem_at_def)

lemma sample_function_simps [simp]:
  "inst_tag (sample_function n b) = n" "inst_remote (sample_function n b) = b" "inst_id (sample_function n b) = n"
  by (simp_all add: sample_function_def)

lemma sample_config_simps [simp]:
  "cfg_chains sample_config = [sample_chain]" "cfg_functions sample_config = sample_functions"
  "chain_nodes sample_chain = [''sf1'', ''sf2'', ''sf3'']"
  by (simp_all add: sample_config_def NewCBConfig_def sample_chain_def)

lemma sample_sph: "node_sph sample_chain 0 = 0x1FE" "node_sph sample_chain (Suc 0) = 0x1FD" "node_sph sample_chain (Suc (Suc 0)) = 0x1FC"
  by (simp_all add: node_sph_def sample_chain_def)

lemma sample_manager_simps [simp]:
  "connectedAgents sample_manager ''sf1'' = Some \<lparr>conn = 1, addr = mac_b\<rparr>"
  "connectedAgents sample_manager ''sf2'' = Some \<lparr>conn = 2, addr = zero_mac\<rparr>"
  "connectedAgents sample_manager ''sf3'' = Some \<lparr>conn = 3, addr = mac_b\<rparr>"
  "writable sample_manager_env c" "range_order sample_manager_env = [''sf3'', ''sf2'', ''sf1'']"
  by (simp_all add: sample_manager_def sample_manager_env_def)

lemma sample_elem_at [simp]:
  "elem_at [a, b, c] 0 = Some a" "elem_at [a, b, c] (Suc 0) = Some b" "elem_at [a, b, c] (Suc (Suc 0)) = Some c"
  by (simp_all add: elem_at_def)

lemma sample_last: "is_last sample_chain i \<longleftrightarrow> i = Suc (Suc 0)"
  by (simp add: is_last_def)

lemma sample_fwd:
  "fwd_part sample_manager sample_config sample_chain 0 R = Some R"
  "fwd_part sample_manager sample_config sample_chain (Suc 0) R = Some (R\<lparr>frules := append_to (frules R) ''sf2''
     \<lparr>fr_key = 0x1FD, fr_val = \<lparr>Flags = 0, Address = mac_b\<rparr>\<rparr>\<rparr>)"
  "fwd_part sample_manager sample_config sample_chain (Suc (Suc 0)) R = Some (R\<lparr>frules := append_to (frules R) ''sf3''
     \<lparr>fr_key = 0x1FC, fr_val = \<lparr>Flags = 1, Address = zero_mac\<rparr>\<rparr>\<rparr>)"
  by (simp_all add: fwd_part_def sample_last sample_nodes sample_sph)

lemma sample_proxy:
  "proxy_part sample_manager_env sample_config sample_chain 0 R = Some R"
  "proxy_part sample_manager_env sample_config sample_chain (Suc 0) R = Some (R\<lparr>prules := append_to (prules R) ''sf2''
     \<lparr>pr_key = sample_proxy_key, pr_val = 0x1FE\<rparr>\<rparr>)"
  "proxy_part sample_manager_env sample_config sample_chain (Suc (Suc 0)) R = Some R"
  using sample_parse [of "parse_v6 sample_manager_env"]
  by (simp_all add: proxy_part_def sample_last sample_nodes sample_sph) (simp add: sample_chain_def)

lemma sample_tables: "chain_loop sample_manager_env sample_manager sample_config [sample_chain] no_rules = Some
    \<lparr>frules = [''sf2'' \<mapsto> [\<lparr>fr_key = 0x1FD, fr_val = \<lparr>Flags = 0, Address = mac_b\<rparr>\<rparr>],
               ''sf3'' \<mapsto> [\<lparr>fr_key = 0x1FC, fr_val = \<lparr>Flags = 1, Address = zero_mac\<rparr>\<rparr>]],
     prules = [''sf2'' \<mapsto> [\<lparr>pr_key = sample_proxy_key, pr_val = 0x1FE\<rparr>]]\<rparr>"
  by (simp add: sample_fwd sample_proxy no_rules_def append_to_def)

lemma sample_install: "InstallConfiguration sample_manager_env sample_manager sample_config = Some (None, sample_sent)"
proof -
  have "list_all (\<lambda>node. connectedAgents sample_manager (inst_tag node) \<noteq> None) (cfg_functions sample_config)"
    by (simp add: sample_functions_def)
  then show ?thesis
    by (simp only: InstallConfiguration_def sample_config_simps sample_tables not_True_eq_False if_False Option.bind.simps)
      (simp add: range_map_def map_filter_simps node_cfgs_def sample_sent_def Let_def)
qed

definition sample_file :: "string \<rightharpoonup> cb_chain list \<times> cb_instance list" where
  "sample_file = [''chains.json'' \<mapsto> ([sample_chain], sample_functions)]"

definition sample_deploy_env :: deploy_env where
  "sample_deploy_env = \<lparr>LookupEnv = (\<lambda>v. Some ''cb''), abs_path = (\<lambda>p. Some (''/'' @ p)), docker_client = True,
     ContainerCreate = (\<lambda>cs n d e. Some (n @ ''-0123'')), command_ok = (\<lambda>h c. True), make_veth = (\<lambda>a b. True),
     docker0_addrs = Some [''172.17.0.1'']\<rparr>"

definition sample_host :: deploy_host where
  "sample_host = \<lparr>host_cmds = [], ipac = 0, vfcount = 0, containers = [], failed = []\<rparr>"

definition sample_flags :: "deploy_flag list" where
  "sample_flags = [Flag_c ''chains.json'', Flag_n ''ovs'']"

definition sample_contained :: "string \<Rightarrow> bool \<Rightarrow> cb_instance" where
  "sample_contained n b = sample_function n b\<lparr>inst_id := n @ ''-0123''\<rparr>"

lemma sample_contained_simps [simp]:
  "inst_tag (sample_contained n b) = n" "inst_remote (sample_contained n b) = b" "inst_id (sample_contained n b) = n @ ''-0123''"
  by (simp_all add: sample_contained_def)

lemma sample_attached: "failed (attachExtraInterfaces sample_deploy_env net c s) = failed s"
  by (rule attach_quiet) (simp add: sample_deploy_env_def)

lemma sample_create_all: "\<exists>s'. create_all sample_deploy_env net d sample_functions s =
    Inr ([sample_contained ''sf1'' False, sample_contained ''sf2'' False, sample_contained ''sf3'' True], s') \<and> failed s' = failed s"
proof -
  have "ContainerCreate sample_deploy_env cs n d e = Some (n @ ''-0123'')" "docker_client sample_deploy_env" for cs n d e
    by (simp_all add: sample_deploy_env_def)
  then show ?thesis
    by (simp add: sample_functions_def CreateNewContainer_def sample_contained_def sample_attached)
qed

lemma sample_deployed: "\<exists>dcfg L h' launched. cb_deploy sample_deploy_env sample_flags sample_file sample_host = Inr (dcfg, L, h', launched)
    \<and> cfg_functions dcfg = [sample_contained ''sf1'' False, sample_contained ''sf2'' False, sample_contained ''sf3'' True]
    \<and> ingress_ifaces L = [''sf2'' \<mapsto> ''dl0b''] \<and> egress_ifaces L = [''sf1'' \<mapsto> ''dl0a''] \<and> failed h' = []"
proof -
  let ?fs = "[sample_contained ''sf1'' False, sample_contained ''sf2'' False, sample_contained ''sf3'' True]"
  let ?cfg = "NewCBConfig [sample_chain] sample_functions\<lparr>cfg_functions := ?fs\<rparr>"
  obtain h' where all: "create_all sample_deploy_env OVS ''/cb'' sample_functions
      (snd (run_command sample_deploy_env [''ovs-vsctl'', ''br-exists'', bridge_name] sample_host)) = Inr (?fs, h')" and "failed h' = []"
    using sample_create_all [of OVS "''/cb''" "snd (run_command sample_deploy_env [''ovs-vsctl'', ''br-exists'', bridge_name] sample_host)"]
    by (auto simp: run_command_def sample_host_def Let_def)
  have nodes: "GetNodeByName ?cfg ''sf1'' = Some (sample_contained ''sf1'' False)"
    "GetNodeByName ?cfg ''sf2'' = Some (sample_contained ''sf2'' False)"
    "GetNodeByName ?cfg ''sf3'' = Some (sample_contained ''sf3'' True)"
    by (simp_all add: sample_functions_def sample_function_def NewCBConfig_def GetNodeByName_def elem_at_def)
  have "\<exists>L. link_chains (\<lambda>a b. True) ?cfg [sample_chain] no_links = Inr L
      \<and> ingress_ifaces L = [''sf2'' \<mapsto> ''dl0b''] \<and> egress_ifaces L = [''sf1'' \<mapsto> ''dl0a'']"
    by (simp add: nodes link_turn_def no_links_def getDirectLinkNames_def show_nat.simps dec_char_def)
  then obtain L where L: "link_chains (\<lambda>a b. True) ?cfg [sample_chain] no_links = Inr L"
    "ingress_ifaces L = [''sf2'' \<mapsto> ''dl0b'']" "egress_ifaces L = [''sf1'' \<mapsto> ''dl0a'']" by blast
  have "cfg_chains ?cfg = [sample_chain]" by (simp add: NewCBConfig_def)
  then have "\<exists>launched. deploy_main sample_deploy_env OVS ?cfg = Inr (L, launched)"
    using L(1) by (simp add: deploy_main_def getDockerIP_def sample_deploy_env_def)
  then obtain launched where m: "deploy_main sample_deploy_env OVS ?cfg = Inr (L, launched)" by blast
  have env: "LookupEnv sample_deploy_env v = Some ''cb''" "abs_path sample_deploy_env p = Some (''/'' @ p)"
    "command_ok sample_deploy_env = (\<lambda>h c. True)" for v p
    by (simp_all add: sample_deploy_env_def)
  have "cb_deploy sample_deploy_env sample_flags sample_file sample_host = Inr (?cfg, L, h', launched)"
    using all m by (simp add: cb_deploy_def Let_def parse_flags_def sample_flags_def sample_file_def env net_of_def
      run_command_def split_beta NewCBConfig_def)
  with L(2,3) \<open>failed h' = []\<close> show ?thesis by auto
qed

lemma sample_links: "\<exists>L. link_chains (\<lambda>a b. True) sample_config [sample_chain] no_links = Inr L
    \<and> ingress_ifaces L = [''sf2'' \<mapsto> ''dl0b''] \<and> egress_ifaces L = [''sf1'' \<mapsto> ''dl0a'']"
  by (simp add: sample_nodes
    link_turn_def elem_at_def no_links_def getDirectLinkNames_def show_nat.simps dec_char_def)


section \<open>Sample agents\<close>

definition sample_control_env :: control_env where
  "sample_control_env = agent_env.extend sample_agent_env
     \<lparr>InterfaceByName = (\<lambda>n. Some \<lparr>if_name = n, HardwareAddr = enc_mac mac_b\<rparr>), dial = (\<lambda>server n. Some 7)\<rparr>"

lemma sample_control_env_simps [simp]:
  "sys_system sample_control_env = (\<lambda>h c. 0)" "obj_get sample_control_env = (\<lambda>f. 5)"
  "hwaddr sample_control_env = (\<lambda>n. Some mac_b)"
  "upd_nsh_data sample_control_env = (\<lambda>fd. upd_roomy)" "upd_fwd_table sample_control_env = (\<lambda>fd. upd_roomy)"
  "upd_src_mac sample_control_env = (\<lambda>fd. upd_roomy)"
  "InterfaceByName sample_control_env n = Some \<lparr>if_name = n, HardwareAddr = enc_mac mac_b\<rparr>"
  "dial sample_control_env server k = Some 7"
  by (simp_all add: sample_control_env_def agent_env.defs sample_agent_env_def sys_env.defs sample_sys_def)

lemma sample_agent_works: "agent_works sample_control_env"
  by (simp add: agent_works_def same_hardware_def updates_work_def hwaddr_of_def sample_helpers roomy_rc mac_b_def)

lemma sample_ingress: "\<exists>s'. load_ingress_stages sample_control_env ''eth1'' ''sfc.o'' s = Some (0, s')"
  by (simp add: load_ingress_stages_def xdp_add_def xdp_add_cmd_def runcmd_in CMD_MAX_def get_map_fds_def
      config_src_mac_map_def upd_roomy_def Let_def BPF_ANY_def BPF_NOEXIST_def)

lemma sample_egress_cmds:
  "length (clsact_cmd ''eth2'') < CMD_MAX"
  "length (attach_cmd ''eth2'' ''sfc.o'' 1 1 ''action/encap'' EGRESS) < CMD_MAX"
  "length (attach_cmd ''eth2'' ''sfc.o'' 2 1 ''action/forward'' EGRESS) < CMD_MAX"
proof -
  have "show_int 2 = ''2''" by (simp add: show_int_def show_nat.simps dec_char_def)
  then show "length (clsact_cmd ''eth2'') < CMD_MAX"
    "length (attach_cmd ''eth2'' ''sfc.o'' 1 1 ''action/encap'' EGRESS) < CMD_MAX"
    "length (attach_cmd ''eth2'' ''sfc.o'' 2 1 ''action/forward'' EGRESS) < CMD_MAX"
    by (simp_all add: clsact_cmd_def attach_cmd_def tc_cmd_def CMD_MAX_def show_one)
qed

lemma sample_egress: "\<exists>s'. load_egress_stages sample_control_env ''eth2'' ''sfc.o'' s = Some (0, s')"
  using sample_egress_cmds
  by (simp add: load_egress_stages_def tc_create_clsact_def tc_attach_bpf_def runcmd_in
      WEXITSTATUS_def get_map_fds_def config_src_mac_map_def upd_roomy_def Let_def BPF_ANY_def BPF_NOEXIST_def)

lemma sample_agent_main:
  assumes "ii = ''eth1'' \<or> ii = ''-''" and "ee = ''eth2'' \<or> ee = ''-''" and "listen_loop ds = (None, started)"
  shows "\<exists>s1. agent_main sample_control_env [''cb_agent'', name, ii, ee, ''sfc.o'', '':9000''] ds s0
    = Some (None, s1, [(7, MakeCBMsg_Hello name (if ii = ''-'' then zero_mac else mac_b))], started)"
proof -
  obtain s1 where s1: "load_ingress_stages sample_control_env ''eth1'' ''sfc.o'' s0 = Some (0, s1)"
    using sample_ingress by blast
  obtain s2 where s2: "load_egress_stages sample_control_env ''eth2'' ''sfc.o'' s0 = Some (0, s2)"
    using sample_egress by blast
  obtain s3 where s3: "load_egress_stages sample_control_env ''eth2'' ''sfc.o'' s1 = Some (0, s3)"
    using sample_egress by blast
  have z: "MakeCBAddress (replicate 6 0) = zero_mac" by (simp add: MakeCBAddress_def dec_mac_def zero_mac_def)
  show ?thesis
    using assms s1 s2 s3
    by (auto simp: agent_main_def NewCBAgent_def open_iface_def installStages_def ManagerConnect_def
        connect_loop.simps ManagerListen_def Let_def z)
qed


lemma sample_node_runs:
  assumes cl: "connectedAgents sample_manager (inst_tag sf) = Some cl" and addr: "addr cl = (if ing then mac_b else zero_mac)"
    and rec: "listen_loop (map Decoded (received sample_sent (conn cl))) = (None, started)"
    and ie: "ing = (\<not> snd (sf_ingress OVS L sf))" "eg = (\<not> snd (sf_egress OVS L sf))"
  shows "\<exists>st. node_runs sample_control_env sample_manager sample_sent OVS L sf sample_agent (ing, eg, sample_env, st)"
proof -
  let ?ii = "if ing then fst (sf_ingress OVS L sf) else ''-''" and ?ee = "if eg then fst (sf_egress OVS L sf) else ''-''"
  have n: "?ii = (if ing then ''eth1'' else ''-'')" "?ee = (if eg then ''eth2'' else ''-'')"
    using ie by (auto simp: sf_ingress_def sf_egress_def split: option.splits)
  have "?ii = ''eth1'' \<or> ?ii = ''-''" "?ee = ''eth2'' \<or> ?ee = ''-''" unfolding n by auto
  from sample_agent_main [OF this rec, of "inst_tag sf" sample_agent] obtain s1 :: agent_state where
    "agent_main sample_control_env [''cb_agent'', inst_tag sf, ?ii, ?ee, ''sfc.o'', '':9000'']
      (map Decoded (received sample_sent (conn cl))) sample_agent
      = Some (None, s1, [(7, MakeCBMsg_Hello (inst_tag sf) (if ?ii = ''-'' then zero_mac else mac_b))], started)"
    by blast
  moreover have "(if ?ii = ''-'' then zero_mac else mac_b) = addr cl" unfolding n addr by simp
  ultimately have main: "agent_main sample_control_env [''cb_agent'', inst_tag sf, ?ii, ?ee, ''sfc.o'', '':9000'']
      (map Decoded (received sample_sent (conn cl))) sample_agent
      = Some (None, s1, [(7, MakeCBMsg_Hello (inst_tag sf) (addr cl))], started)" by simp
  let ?s2 = "run_steps sample_control_env (\<lambda>n. (of_nat n, 1, 2, 3)) (concat (map handler_steps started)) s1"
  let ?st = "\<lparr>prog_stats = Map.empty, src_mac = m_src_mac ?s2, nsh_data = m_nsh_data ?s2, fwd_table = m_fwd_table ?s2\<rparr> :: stage_state"
  have "node_runs sample_control_env sample_manager sample_sent OVS L sf sample_agent (ing, eg, sample_env, ?st)"
    unfolding node_runs_def split_conv Let_def using ie cl main
    by (intro conjI exI [of _ cl] exI [of _ 7] exI [of _ "''sfc.o''"] exI [of _ "'':9000''"] exI [of _ s1] exI [of _ started]
        exI [of _ "concat (map handler_steps started)"] exI [of _ "\<lambda>n. (of_nat n, 1, 2, 3)"]) (simp_all add: concat_in_interleavings)
  then show ?thesis ..
qed

lemma sample_listen: "fst (listen_loop (map Decoded (received sample_sent k))) = None"
  by (simp add: received_def sample_sent_def MakeCBMsg_Install_def ParseCBMsg_def split: prod.split)

lemma sample_node_at_work:
  assumes "connectedAgents sample_manager n = Some \<lparr>conn = k, addr = a\<rparr>" and "a = (if ing then mac_b else zero_mac)"
    and "ing = (\<not> snd (sf_ingress OVS L (sample_function n b)))" "eg = (\<not> snd (sf_egress OVS L (sample_function n b)))"
  obtains st where "node_runs sample_control_env sample_manager sample_sent OVS L (sample_function n b) sample_agent (ing, eg, sample_env, st)"
  using sample_node_runs [of "sample_function n b" "\<lparr>conn = k, addr = a\<rparr>" ing _ L eg] assms sample_listen [of k]
  by (metis cBClient.select_convs(1) cBClient.select_convs(2) prod.collapse sample_function_simps(1))

definition sample_path :: cls_entry where
  "sample_path = \<lparr>cls_sph = 0xFF010000, next_hop = mac_b\<rparr>"

definition sample_classifier :: cls_state where
  "sample_classifier = \<lparr>prog_stats = Map.empty, cls_table = [sample_key \<mapsto> sample_path], cls_src_mac = [0 \<mapsto> mac_c, 1 \<mapsto> mac_c]\<rparr>"

lemma sample_chain_runs:
  assumes "ingress_ifaces L = [''sf2'' \<mapsto> ''dl0b'']" and "egress_ifaces L = [''sf1'' \<mapsto> ''dl0a'']"
  shows "\<exists>ns. ns \<noteq> [] \<and> chain_runs sample_config sample_manager sample_sent OVS L sample_chain ns"
proof -
  have i: "sf_ingress OVS L (sample_function n b) = (if n = ''sf2'' then (''dl0b'', True) else (''eth1'', False))"
    "sf_egress OVS L (sample_function n b) = (if n = ''sf1'' then (''dl0a'', True) else (''eth2'', False))" for n b
    by (simp_all add: sf_ingress_def sf_egress_def assms)
  have z: "mac_b \<noteq> zero_mac" by (simp add: mac_b_def zero_mac_def)
  obtain st1 where 1: "node_runs sample_control_env sample_manager sample_sent OVS L (sample_function ''sf1'' False)
      sample_agent (True, False, sample_env, st1)"
    by (rule sample_node_at_work [of "''sf1''" 1 mac_b True L False False]) (simp_all add: i)
  obtain st2 where 2: "node_runs sample_control_env sample_manager sample_sent OVS L (sample_function ''sf2'' False)
      sample_agent (False, True, sample_env, st2)"
    by (rule sample_node_at_work [of "''sf2''" 2 zero_mac False L False True]) (simp_all add: i)
  obtain st3 where 3: "node_runs sample_control_env sample_manager sample_sent OVS L (sample_function ''sf3'' True)
      sample_agent (True, True, sample_env, st3)"
    by (rule sample_node_at_work [of "''sf3''" 3 mac_b True L True True]) (simp_all add: i)
  have "chain_runs sample_config sample_manager sample_sent OVS L sample_chain
      [(True, False, sample_env, st1), (False, True, sample_env, st2), (True, True, sample_env, st3)]"
    using 1 2 3 by (auto simp: chain_runs_def less_Suc_eq sample_nodes sample_env_works
        intro!: exI [of _ sample_control_env] exI [of _ sample_agent] sample_agent_works)
  then show ?thesis by blast
qed


lemma sample_hypotheses:
  "paths_fit [sample_chain]" "unshared sample_config [sample_chain] sample_chain"
  "ranges (range_order sample_manager_env) [sample_chain]"
  "net_key (as_ip_5tuple sample_proxy_key) = sample_key"
  "addr_at sample_manager sample_config sample_chain 0 = mac_b"
proof -
  show "paths_fit [sample_chain]" by (simp add: paths_fit_def) (simp add: sample_chain_def)
  show "unshared sample_config [sample_chain] sample_chain"
    by (auto simp: unshared_def less_Suc_eq numeral_3_eq_3)
  show "ranges (range_order sample_manager_env) [sample_chain]" by (simp add: ranges_def)
  show "net_key (as_ip_5tuple sample_proxy_key) = sample_key" by code_simp
  show "addr_at sample_manager sample_config sample_chain 0 = mac_b" by (simp add: addr_at_def sample_nodes)
qed

theorem configured_chain_delivers_witness:
  "\<exists>dcfg L h launched ns cst' f m'. cb_deploy sample_deploy_env sample_flags sample_file sample_host = Inr (dcfg, L, h, launched)
    \<and> manager_main sample_manager_env [''cb_manager'', ''chains.json''] sample_file sample_hellos = Some (None, None, sample_sent)
    \<and> chain_runs sample_config sample_manager sample_sent OVS L sample_chain ns
    \<and> classify_tc XDP sample_env sample_classifier sample_inner = Some ((XDP_TX, cst'), f)
    \<and> cross_all ns f = Some (ethhdr mac_c m' ETH_P_IP @ sample_udp)"
proof -
  obtain dcfg L h launched where L: "cb_deploy sample_deploy_env sample_flags sample_file sample_host = Inr (dcfg, L, h, launched)"
    "ingress_ifaces L = [''sf2'' \<mapsto> ''dl0b'']" "egress_ifaces L = [''sf1'' \<mapsto> ''dl0a'']"
    using sample_deployed by blast
  obtain ns where ns: "chain_runs sample_config sample_manager sample_sent OVS L sample_chain ns" "ns \<noteq> []"
    using sample_chain_runs [OF L(2,3)] by blast
  have c: "sample_chain \<in> set [sample_chain]" by simp
  have fl: "hd (chain_flows sample_chain) \<in> set (chain_flows sample_chain)"
    "Parse (parse_v6 sample_manager_env) (hd (chain_flows sample_chain)) = Some sample_proxy_key"
    by (simp_all add: sample_chain_def sample_parse)
  have cls: "cls_table sample_classifier sample_key = Some sample_path" "cls_src_mac sample_classifier 1 = Some mac_c"
    "next_hop sample_path = addr_at sample_manager sample_config sample_chain 0"
    "cls_sph sample_path = bswap32 (push_bit 8 (chain_id sample_chain) OR 255)"
    by (simp_all add: sample_classifier_def sample_path_def sample_hypotheses) (simp add: sample_chain_def bswap32_def word_eval)
  have config: "sample_file ''chains.json'' = Some ([sample_chain], sample_functions)" by (simp add: sample_file_def)
  have flag: "cfgfile (parse_flags sample_flags) = ''chains.json''" by (simp add: parse_flags_def sample_flags_def)
  have main: "manager_main sample_manager_env [''cb_manager'', ''chains.json''] sample_file sample_hellos = Some (None, None, sample_sent)"
    using sample_install by (simp add: manager_main_def sample_file_def sample_served sample_config_def [symmetric])
  have conns: "distinct (map fst sample_hellos)" by (simp add: sample_hellos_def)
  from configured_chain_delivers [OF config sample_config_def sample_hypotheses(1) c sample_hypotheses(2) L(1) flag main conns
      sample_served [symmetric] sample_hypotheses(3) ns sample_inner_def sample_tuple fl sample_hypotheses(4) cls(1,2) sample_makes_room cls(3,4)]
  show ?thesis using L(1) main ns(1) by auto
qed

section \<open>Rules, links and agents\<close>

text \<open>C32. When a deployment over Open vSwitch or SR-IOV of functions with distinct tags ends without
  an error, every function of the configuration has a container, created with the identifier under
  which it is known, and the command that starts it is among those handed to goroutines, if the
  function's type is known. If moreover the program printed no failure for this container, the two
  interfaces chosen for it are ones that a command which succeeded, or a direct link, put into this
  very container: the agent and the function are started with interfaces that exist.\<close>

theorem interfaces_exist:
  assumes run: "cb_deploy E opts file s = Inr (cfg, L, s', started)"
    and net: "net_of (nettype (parse_flags opts)) = Some net" "net = OVS \<or> net = SRIOV"
    and tags: "distinct (map inst_tag (cfg_functions cfg))" and sf: "sf \<in> set (cfg_functions cfg)"
  shows "(inst_tag sf, inst_id sf) \<in> set (containers s')
    \<and> (inst_tag sf \<notin> set (failed s') \<longrightarrow>
        {fst (sf_ingress net L sf), fst (sf_egress net L sf)}
          \<subseteq> ports_made s' (inst_tag sf) \<union> {iface. (inst_id sf, iface) \<in> set (veths L)})
    \<and> (\<exists>server. \<forall>cmd. startServiceFunction sf (fst (sf_ingress net L sf)) (snd (sf_ingress net L sf))
          (fst (sf_egress net L sf)) (snd (sf_egress net L sf)) server = Some cmd \<longrightarrow> cmd \<in> set started)"
proof -
  obtain cs fs fs' ip where cfg: "cfg = NewCBConfig cs fs\<lparr>cfg_functions := fs'\<rparr>" and ids: "list_all2 same_but_ids fs fs'"
    and made: "\<forall>f\<in>set fs'. (inst_tag f, inst_id f) \<in> set (containers s') \<and> has_ports net s' (inst_tag f)"
    and links: "link_chains (make_veth E) cfg cs no_links = Inr L" and st: "started = start_all net L (ip @ '':9000'') fs'"
    using cb_deploy_ok [OF run] net(1) by auto
  have fs': "cfg_functions cfg = fs'" by (simp add: cfg)
  have "ends_in cfg L"
    by (rule link_chains_ends [OF _ links])
      (use deployed_node [OF ids, of cs] in \<open>auto simp: cfg ends_in_def no_links_def\<close>)
  then have link: "(inst_id sf, iface) \<in> set (veths L)"
    if chosen: "ingress_ifaces L (inst_tag sf) = Some iface \<or> egress_ifaces L (inst_tag sf) = Some iface" for iface
  proof -
    obtain f where f: "GetNodeByName cfg (inst_tag sf) = Some f" "(inst_id f, iface) \<in> set (veths L)"
      using chosen \<open>ends_in cfg L\<close> unfolding ends_in_def by blast
    then have "inst_tag f = inst_tag sf" "f \<in> set fs'" using deployed_node [OF ids, of cs] by (auto simp: cfg)
    then have "f = sf" using tags sf unfolding fs' distinct_map by (auto dest: inj_onD)
    then show ?thesis using f by simp
  qed
  have i: "fst (sf_ingress net L sf) = ''eth1'' \<or> ingress_ifaces L (inst_tag sf) = Some (fst (sf_ingress net L sf))"
    "fst (sf_egress net L sf) = ''eth2'' \<or> egress_ifaces L (inst_tag sf) = Some (fst (sf_egress net L sf))"
    using net(2) by (auto simp: sf_ingress_def sf_egress_def split: option.split)
  have p: "inst_tag sf \<notin> set (failed s') \<Longrightarrow> {''eth1'', ''eth2''} \<subseteq> ports_made s' (inst_tag sf)"
    using made sf net(2) unfolding fs' has_ports_def by blast
  show ?thesis
    using made sf p i link start_all_commands [of sf fs' net L "ip @ '':9000''"] unfolding fs' st by blast
qed

theorem interfaces_exist_witness:
  "\<exists>dcfg L h launched. cb_deploy sample_deploy_env sample_flags sample_file sample_host = Inr (dcfg, L, h, launched)
    \<and> (''sf2'', ''sf2-0123'') \<in> set (containers h)
    \<and> ''dl0b'' \<in> ports_made h ''sf2'' \<union> {iface. (''sf2-0123'', iface) \<in> set (veths L)}
    \<and> ''eth1'' \<in> ports_made h ''sf3'' \<union> {iface. (''sf3-0123'', iface) \<in> set (veths L)}"
proof -
  obtain dcfg L h launched where L: "cb_deploy sample_deploy_env sample_flags sample_file sample_host = Inr (dcfg, L, h, launched)"
    "cfg_functions dcfg = [sample_contained ''sf1'' False, sample_contained ''sf2'' False, sample_contained ''sf3'' True]"
    "ingress_ifaces L = [''sf2'' \<mapsto> ''dl0b'']" "failed h = []"
    using sample_deployed by blast
  have n: "net_of (nettype (parse_flags sample_flags)) = Some OVS" by (simp add: parse_flags_def sample_flags_def net_of_def)
  have t: "distinct (map inst_tag (cfg_functions dcfg))" "sample_contained ''sf2'' False \<in> set (cfg_functions dcfg)"
    "sample_contained ''sf3'' True \<in> set (cfg_functions dcfg)"
    using L(2) by simp_all
  from interfaces_exist [OF L(1) n _ t(1,2)] interfaces_exist [OF L(1) n _ t(1,3)] L show ?thesis
    by (simp add: sf_ingress_def)
qed

text \<open>C29. The deployment and the manager, two programs that read the same configuration, agree: for
  a chain whose nodes with a direct link stand at no other position of this or another chain, the
  nodes whose egress stages the deployment has loaded are exactly the ones for which the manager
  computes forwarding rules, and, when the chain has flows, those of them whose ingress stages it has
  omitted are exactly the ones that get proxy rules. No node gets proxy rules only, so none are lost
  when the manager sends what it has for the nodes with forwarding rules.\<close>

theorem deployment_matches_rules:
  assumes cfg: "cfg = NewCBConfig cs fs" and links: "link_chains ok cfg cs no_links = Inr L"
    and rules: "chain_loop E M cfg cs no_rules = Some R"
    and c: "c \<in> set cs" and uns: "unshared cfg cs c" and node: "node \<in> set (chain_nodes c)"
  shows "(node \<notin> dom (egress_ifaces L) \<longleftrightarrow> node \<in> dom (frules R))
    \<and> (node \<in> dom (ingress_ifaces L) \<and> node \<notin> dom (egress_ifaces L) \<and> chain_flows c \<noteq> [] \<longleftrightarrow> node \<in> dom (prules R))
    \<and> dom (prules R) \<subseteq> dom (frules R)"
proof -
  obtain i where i: "i < length (chain_nodes c)" "node = chain_nodes c ! i"
    using node by (auto simp: in_set_conv_nth)
  note l = links_of_deployment [OF cfg links c uns i(1)]
  have same: "c' = c \<and> j = i" if "c' \<in> set cs" "j < length (chain_nodes c')" "chain_nodes c' ! j = node"
    "direct_in cfg c i \<or> direct_out cfg c i \<or> direct_in cfg c' j \<or> direct_out cfg c' j" for c' j
    using uns i that unfolding unshared_def by blast
  have "node \<in> dom (frules R) \<longleftrightarrow> \<not> direct_out cfg c i"
    unfolding names_with_rules(1) [OF rules] using same c i by metis
  moreover have "node \<in> dom (prules R) \<longleftrightarrow> direct_in cfg c i \<and> \<not> direct_out cfg c i \<and> chain_flows c \<noteq> []"
  proof -
    have px: "proxied cfg c' j \<longleftrightarrow> direct_in cfg c' j \<and> \<not> direct_out cfg c' j" for c' j
      by (auto simp: proxied_def direct_in_def direct_out_def)
    have "node \<in> dom (prules R) \<longleftrightarrow> (\<exists>c'\<in>set cs. \<exists>j<length (chain_nodes c'). chain_nodes c' ! j = node
        \<and> direct_in cfg c' j \<and> \<not> direct_out cfg c' j \<and> chain_flows c' \<noteq> [])"
      unfolding names_with_rules(2) [OF rules] using proxy_rules_nonempty [OF rules] px by blast
    then show ?thesis using same c i by metis
  qed
  moreover have "dom (prules R) \<subseteq> dom (frules R)"
    using chain_loop_rules [OF rules] by (simp add: no_rules_def)
  ultimately show ?thesis using l i(2) by blast
qed

theorem deployment_matches_rules_witness:
  "\<exists>L R. link_chains (\<lambda>a b. True) sample_config [sample_chain] no_links = Inr L
    \<and> chain_loop sample_manager_env sample_manager sample_config [sample_chain] no_rules = Some R
    \<and> ''sf1'' \<notin> dom (frules R) \<and> ''sf2'' \<in> dom (prules R) \<and> ''sf2'' \<in> dom (frules R)"
proof -
  obtain L where L: "link_chains (\<lambda>a b. True) sample_config [sample_chain] no_links = Inr L"
    "ingress_ifaces L = [''sf2'' \<mapsto> ''dl0b'']" "egress_ifaces L = [''sf1'' \<mapsto> ''dl0a'']"
    using sample_links by blast
  have c: "sample_chain \<in> set [sample_chain]" and f: "chain_flows sample_chain \<noteq> []"
    by (simp_all add: sample_chain_def)
  note m = deployment_matches_rules [OF sample_config_def L(1) sample_tables c sample_hypotheses(2)]
  from m [of "''sf1''"] m [of "''sf2''"] L sample_tables f show ?thesis by simp
qed

text \<open>C37. The keys of the forwarding rules, for chains whose identifiers differ and fit 24 bits and
  that have at most 255 nodes: the rule of position \<open>i\<close> of chain \<open>c\<close> has the key
  \<open>256 * chain_id c + (254 - i)\<close>, which fits 32 bits without a borrow, and no other rule of any
  node has it.\<close>

theorem rule_keys_unique:
  assumes fit: "paths_fit cs" and rules: "chain_loop E M cfg cs no_rules = Some R"
    and r: "frules R node = Some fl" "r \<in> set fl"
  shows "\<exists>c\<in>set cs. \<exists>i<length (chain_nodes c). chain_nodes c ! i = node
    \<and> unat (fr_key r) = 256 * unat (chain_id c) + (254 - i)
    \<and> (\<forall>node' fl' r'. frules R node' = Some fl' \<and> r' \<in> set fl' \<and> fr_key r' = fr_key r \<longrightarrow> r' = r)"
proof -
  have e: "elems (frules R) n = at_positions cs n (\<lambda>c i. set_option (fwd_rule_at M cfg c i))" for n
    using chain_loop_rules [OF rules, of n] by (simp add: no_rules_def elems_def)
  have "r \<in> elems (frules R) node" using r by (simp add: elems_def)
  then obtain c i where c: "c \<in> set cs" "i < length (chain_nodes c)" "chain_nodes c ! i = node"
    and ri: "fwd_rule_at M cfg c i = Some r"
    unfolding e in_at_positions by auto
  have "fr_key r = node_sph c i" using ri by (auto simp: fwd_rule_at_def split: if_splits)
  moreover have "i \<le> 254" "unat (chain_id c) < 2 ^ 24" using fit c by (auto simp: paths_fit_def)
  ultimately have "unat (fr_key r) = 256 * unat (chain_id c) + (254 - i)" by (simp add: unat_node_sph)
  moreover have "r' = r" if "frules R node' = Some fl'" "r' \<in> set fl'" "fr_key r' = fr_key r" for node' fl' r'
  proof (rule rules_functional [OF fit c(1,2) ri _ that(3)])
    show "r' \<in> at_positions cs node' (\<lambda>c i. set_option (fwd_rule_at M cfg c i))"
      unfolding e [symmetric] using that by (simp add: elems_def)
  qed
  ultimately show ?thesis using c by blast
qed

theorem rule_keys_unique_witness:
  "\<exists>c\<in>set [sample_chain]. \<exists>i<length (chain_nodes c). chain_nodes c ! i = ''sf3''
    \<and> 0x1FC = 256 * unat (chain_id c) + (254 - i)"
  using rule_keys_unique [OF sample_hypotheses(1) sample_tables, of "''sf3''"
      "[\<lparr>fr_key = 0x1FC, fr_val = \<lparr>Flags = 1, Address = zero_mac\<rparr>\<rparr>]" "\<lparr>fr_key = 0x1FC, fr_val = \<lparr>Flags = 1, Address = zero_mac\<rparr>\<rparr>"]
  by auto

text \<open>With one node more the subtraction wraps: the rule at position 255 has the same key in every
  chain.\<close>

lemma key_of_256th_node: "node_sph c 255 = - 1"
  by (simp add: node_sph_def)

text \<open>C28. An agent that starts without an error has run exactly the commands for the interfaces it was
  given, the XDP stage on the ingress interface, then the qdisc, \<open>encap_nsh\<close> at preference 1 and
  \<open>sfc_forwarding\<close> at preference 2 on the egress interface, has stored their MAC addresses under
  keys 0 and 1, and has left the other maps alone; it keeps the interfaces that have these names.\<close>

theorem new_agent_installs:
  assumes run: "NewCBAgent E name iif eif obj s = Some (Inr cba, s')"
    and upd: "map_update (upd_src_mac E (obj_get E src_mac_file))"
  shows "cmds s' = cmds s @ ingress_cmds obj (ingress_iface cba) @ egress_cmds obj (egress_iface cba)
    \<and> m_src_mac s' = with_mac E EGRESS_MAC (egress_iface cba) (with_mac E INGRESS_MAC (ingress_iface cba) (m_src_mac s))
    \<and> m_nsh_data s' = m_nsh_data s \<and> m_fwd_table s' = m_fwd_table s
    \<and> iface_named E iif (ingress_iface cba) \<and> iface_named E eif (egress_iface cba)"
  using NewCBAgent_ok [OF run] installStages_ok [OF _ upd] by blast

theorem new_agent_installs_witness:
  "\<exists>cba s'. NewCBAgent sample_control_env ''sf3'' ''eth1'' ''eth2'' ''sfc.o'' sample_agent = Some (Inr cba, s')
    \<and> length (cmds s') = 4 \<and> m_src_mac s' = [0 \<mapsto> mac_b, 1 \<mapsto> mac_b]"
proof -
  obtain s1 where s1: "load_ingress_stages sample_control_env ''eth1'' ''sfc.o'' sample_agent = Some (0, s1)"
    using sample_ingress by blast
  obtain s2 where s2: "load_egress_stages sample_control_env ''eth2'' ''sfc.o'' s1 = Some (0, s2)"
    using sample_egress by blast
  have "\<exists>cba. NewCBAgent sample_control_env ''sf3'' ''eth1'' ''eth2'' ''sfc.o'' sample_agent = Some (Inr cba, s2)"
    using s1 s2 by (simp add: NewCBAgent_def open_iface_def installStages_def Let_def)
  then obtain cba where r: "NewCBAgent sample_control_env ''sf3'' ''eth1'' ''eth2'' ''sfc.o'' sample_agent = Some (Inr cba, s2)"
    by blast
  have "map_update (upd_src_mac sample_control_env (obj_get sample_control_env src_mac_file))" by (simp add: sample_helpers)
  from new_agent_installs [OF r this] r show ?thesis
    by (auto simp: iface_named_def ingress_cmds_def egress_cmds_def with_mac_def sample_agent_def hwaddr_of_def)
qed

end
