(* ===== verification/Statistics.thy ===== *)
theory Statistics
  imports SfcNode
begin

text \<open>
  What the counters of \<open>CbHelpers\<close> say after a number of runs of a program. A run starts with
  \<open>cb_mark_init\<close> and ends with one call of \<open>cb_retok\<close> or \<open>cb_retother\<close>; what is between them
  does not touch \<^verbatim>\<open>prog_stats\<close>.
\<close>

datatype ending = Ret_ok | Ret_other

fun one_run :: "'e bpf_env_scheme \<Rightarrow> ending \<Rightarrow> 's prog_state_scheme \<Rightarrow> 's prog_state_scheme" where
  "one_run E Ret_ok s = snd (cb_retok E (cb_mark_init E s) 0)"
| "one_run E Ret_other s = snd (cb_retother E (cb_mark_init E s) 0)"

text \<open>Runs with their own clocks: each environment gives the times of its run.\<close>

fun runs :: "('e bpf_env_scheme \<times> ending) list \<Rightarrow> 's prog_state_scheme \<Rightarrow> 's prog_state_scheme" where
  "runs [] s = s"
| "runs ((E, e) # rs) s = runs rs (one_run E e s)"

text \<open>A helper that makes the entry, and a build with \<^verbatim>\<open>ENABLE_STATS\<close>.\<close>

definition counting :: "'e bpf_env_scheme \<Rightarrow> bool" where
  "counting E \<longleftrightarrow> enable_stats E \<and> map_update (stats_update E)
     \<and> (\<forall>m k v. m k = None \<longrightarrow> fst (stats_update E m k v BPF_NOEXIST) = 0)"

text \<open>The latency of a run: from the clock reading at its start to the one at its end.\<close>

definition latency :: "'e bpf_env_scheme \<Rightarrow> u64" where
  "latency E = ktime E 1 - ktime E 0"

fun lat_of :: "'e bpf_env_scheme \<times> ending \<Rightarrow> u64" where
  "lat_of (E, Ret_ok) = latency E"
| "lat_of (E, Ret_other) = 0"

section \<open>Lemmas\<close>

lemma one_run_known:
  assumes "enable_stats E" and "prog_stats s 0 = Some st"
  shows "\<exists>st'. prog_stats (one_run E e s) 0 = Some st' \<and> rx st' = rx st + 1
    \<and> tx st' = tx st + (if e = Ret_ok then 1 else 0) \<and> tx_other st' = tx_other st + (if e = Ret_other then 1 else 0)
    \<and> lat_avg_sum st' = lat_avg_sum st + lat_of (E, e)"
  using assms by (cases e) (simp_all add: cb_mark_init_def cb_retok_def cb_retother_def latency_def Let_def)

lemma one_run_first:
  assumes "counting E" and "prog_stats s 0 = None"
  shows "\<exists>st'. prog_stats (one_run E e s) 0 = Some st' \<and> rx st' = 0
    \<and> tx st' = (if e = Ret_ok then 1 else 0) \<and> tx_other st' = (if e = Ret_other then 1 else 0)
    \<and> lat_avg_sum st' = (if e = Ret_ok then ktime E 1 else 0)"
proof -
  have u: "map_update (stats_update E)" "fst (stats_update E (prog_stats s) 0 init_stats BPF_NOEXIST) = 0"
    "enable_stats E"
    using assms by (simp_all add: counting_def)
  from map_update.update_ok [OF u(1,2)] u(3) assms(2) show ?thesis
    by (cases e) (simp_all add: cb_mark_init_def cb_retok_def cb_retother_def init_stats_def Let_def)
qed

lemma runs_known:
  assumes "\<forall>(E, e)\<in>set rs. enable_stats E" and "prog_stats s 0 = Some st"
  shows "\<exists>st'. prog_stats (runs rs s) 0 = Some st' \<and> rx st' = rx st + of_nat (length rs)
    \<and> tx st' = tx st + of_nat (length (filter (\<lambda>(E, e). e = Ret_ok) rs))
    \<and> tx_other st' = tx_other st + of_nat (length (filter (\<lambda>(E, e). e = Ret_other) rs))
    \<and> lat_avg_sum st' = lat_avg_sum st + sum_list (map lat_of rs)"
  using assms
proof (induction rs arbitrary: s st)
  case (Cons a rs)
  obtain E e where a: "a = (E, e)" by (cases a)
  have E: "enable_stats E" using Cons.prems by (simp add: a)
  obtain st1 where 1: "prog_stats (one_run E e s) 0 = Some st1" "rx st1 = rx st + 1"
    "tx st1 = tx st + (if e = Ret_ok then 1 else 0)" "tx_other st1 = tx_other st + (if e = Ret_other then 1 else 0)"
    "lat_avg_sum st1 = lat_avg_sum st + lat_of (E, e)"
    using one_run_known [OF E Cons.prems(2)] by blast
  obtain st' where "prog_stats (runs rs (one_run E e s)) 0 = Some st'" "rx st' = rx st1 + of_nat (length rs)"
    "tx st' = tx st1 + of_nat (length (filter (\<lambda>(E, e). e = Ret_ok) rs))"
    "tx_other st' = tx_other st1 + of_nat (length (filter (\<lambda>(E, e). e = Ret_other) rs))"
    "lat_avg_sum st' = lat_avg_sum st1 + sum_list (map lat_of rs)"
    using Cons.IH [OF _ 1(1)] Cons.prems(1) by auto
  with 1 show ?case by (cases e) (simp_all add: a)
qed simp

section \<open>Properties\<close>

text \<open>C30. Starting from no entry, the counters after \<open>n + 1\<close> runs: the transmitted counters are
  exact, but the receive counter misses the first run, and the latency sum of a first run that
  ends with \<open>cb_retok\<close> has the absolute time of its end instead of its latency.\<close>

theorem stats_after_runs:
  assumes "counting E" and "\<forall>(E, e)\<in>set rs. enable_stats E" and "prog_stats s 0 = None"
  shows "\<exists>st. prog_stats (runs ((E, e) # rs) s) 0 = Some st
    \<and> rx st = of_nat (length rs)
    \<and> tx st = of_nat (length (filter (\<lambda>(E, e). e = Ret_ok) ((E, e) # rs)))
    \<and> tx_other st = of_nat (length (filter (\<lambda>(E, e). e = Ret_other) ((E, e) # rs)))
    \<and> lat_avg_sum st = (if e = Ret_ok then ktime E 1 else 0) + sum_list (map lat_of rs)"
proof -
  obtain st1 where 1: "prog_stats (one_run E e s) 0 = Some st1" "rx st1 = 0"
    "tx st1 = (if e = Ret_ok then 1 else 0)" "tx_other st1 = (if e = Ret_other then 1 else 0)"
    "lat_avg_sum st1 = (if e = Ret_ok then ktime E 1 else 0)"
    using one_run_first [OF assms(1,3)] by blast
  from runs_known [OF assms(2) 1(1)] 1 show ?thesis by (cases e) auto
qed

text \<open>Two packets of 500 nanoseconds each, the first after 1500 nanoseconds of uptime.\<close>

theorem stats_after_runs_witness:
  "\<exists>st. prog_stats (runs [(sample_env, Ret_ok), (sample_env, Ret_ok)] sample_state) 0 = Some st
    \<and> rx st = 1 \<and> tx st = 2 \<and> lat_avg_sum st = 2000"
proof -
  have c: "counting sample_env"
    by (simp add: counting_def sample_env_def sample_helpers upd_roomy_def)
  have e: "\<forall>(E, e)\<in>set [(sample_env, Ret_ok)]. enable_stats E" by (simp add: sample_env_def)
  have n: "prog_stats sample_state 0 = None" by (simp add: sample_state_def)
  from stats_after_runs [OF c e n, of Ret_ok] show ?thesis
    by (auto simp: latency_def sample_env_def)
qed

text \<open>For an IP-in-IP packet, the flow key has the inner header's addresses and protocol, but
  bytes 20 to 23 of the packet, which are the first four bytes of the inner
  IP header (version, length, total length), in the place of the ports.\<close>

lemma ipip_ports_are_header_bytes:
  assumes outer: "length outer = 20" "outer ! 9 = IPPROTO_IPIP"
    and inner: "length inner = 20" "inner ! 9 = IPPROTO_UDP"
    and key: "get_tuple (outer @ inner @ l4) 0 t = Some (0, k)"
  shows "ip_src k = dec32 (take 4 (drop 12 inner)) \<and> proto k = IPPROTO_UDP
    \<and> sport k = dec16 (take 2 inner) \<and> dport k = dec16 (take 2 (drop 2 inner))"
proof -
  have o: "dec8 (take 1 (drop 9 outer)) = IPPROTO_IPIP" and i: "dec8 (take 1 (drop 9 inner)) = IPPROTO_UDP"
    using outer inner by (simp_all add: dec8_def)
  show ?thesis
    using key outer(1) inner(1) o i
    by (auto simp: get_tuple_def get_tuple_l4_def Let_def)
qed

text \<open>A tunnelled datagram from port 1000 to port 2000 has the key ports 0x0045 and 0x1C00.\<close>

lemma ipip_ports_sample:
  "\<exists>k. get_tuple (replicate 9 0 @ [4] @ replicate 10 0 @ sample_udp) 0 zero_tuple = Some (0, k)
    \<and> sport k = 0x0045 \<and> dport k = 0x1C00"
proof -
  let ?outer = "replicate 9 0 @ [4] @ replicate 10 0 :: bytes"
  have s: "sample_udp = take 20 sample_udp @ drop 20 sample_udp" by simp
  obtain k where k: "get_tuple (?outer @ take 20 sample_udp @ drop 20 sample_udp) 0 zero_tuple = Some (0, k)"
    by (simp add: get_tuple_def get_tuple_l4_def sample_udp_def dec8_def proto_defs numeral_eq_Suc)
  from ipip_ports_are_header_bytes [OF _ _ _ _ k] k show ?thesis
    by (simp add: sample_udp_def proto_defs nth_append dec16_def)
qed

end
