(* ===== verification/MapInspector.thy ===== *)
theory MapInspector
  imports Agent Statistics
begin

text \<open>
  \<^verbatim>\<open>src/user/map_inspector_user.c\<close>: prints the maps of a node. A dump is the list of the lines it
  prints. \<^verbatim>\<open>bpf_map_get_next_key\<close> walks the keys of a map in an order of the kernel's, which is
  the list \<open>keys\<close>.
\<close>

section \<open>Formats\<close>

definition ip2str :: "u32 \<Rightarrow> string" where
  "ip2str ip = (let b0 = ip AND 0xFF; b1 = drop_bit 8 ip AND 0xFF; b2 = drop_bit 16 ip AND 0xFF;
       b3 = drop_bit 24 ip AND 0xFF in
     show_nat (unat b0) @ ''.'' @ show_nat (unat b1) @ ''.'' @ show_nat (unat b2) @ ''.'' @ show_nat (unat b3))"

definition HEX_char :: "nat \<Rightarrow> char" where
  "HEX_char n = ''0123456789ABCDEF'' ! (n mod 16)"

definition show_HEX2 :: "u8 \<Rightarrow> string" where
  "show_HEX2 b = [HEX_char (unat b div 16), HEX_char (unat b)]"

fun mac2str :: "mac \<Rightarrow> string" where
  "mac2str (Mac a b c d e f) = show_HEX2 a @ '':'' @ show_HEX2 b @ '':'' @ show_HEX2 c @ '':'' @
     show_HEX2 d @ '':'' @ show_HEX2 e @ '':'' @ show_HEX2 f"

definition show_hex8 :: "u32 \<Rightarrow> string" where
  "show_hex8 w = concat (map show_hex2 (rev (enc32 w)))"

text \<open>\<^verbatim>\<open>%x\<close> of a byte: no leading zero.\<close>

definition show_hex1 :: "u8 \<Rightarrow> string" where
  "show_hex1 b = (if unat b < 16 then [hex_char (unat b)] else show_hex2 b)"

text \<open>The service path header as the tool prints it. \<^verbatim>\<open>sph\<close> is a signed \<^verbatim>\<open>int\<close>, so \<^verbatim>\<open>sph >> 8\<close>
  keeps its sign.\<close>

definition printed_spi :: "u32 \<Rightarrow> int" where
  "printed_spi sph = sint sph div 256"

definition printed_si :: "u32 \<Rightarrow> nat" where
  "printed_si sph = unat (sph AND 0xFF)"

definition show_sph :: "u32 \<Rightarrow> string" where
  "show_sph sph = ''spi: '' @ show_int (printed_spi sph) @ '', si: '' @ show_nat (printed_si sph) @
     '', sph: 0x'' @ show_hex8 sph"

definition show_key :: "ip_5tuple \<Rightarrow> string" where
  "show_key key = ''Key: [ip_src: '' @ ip2str (ip_src key) @ '', ip_dst: '' @ ip2str (ip_dst key) @
     '', sport: '' @ show_nat (unat (bswap16 (sport key))) @ '', dport: '' @
     show_nat (unat (bswap16 (dport key))) @ '', proto: '' @ show_nat (unat (proto key)) @ '']''"

section \<open>The walk over a map\<close>

text \<open>\<^verbatim>\<open>bpf_map_get_next_key\<close>: the key after \<open>prev\<close>, the first one when there is no \<open>prev\<close> or it
  is not in the map, an error after the last.\<close>

fun get_next_key :: "'k list \<Rightarrow> 'k option \<Rightarrow> 'k option" where
  "get_next_key keys None = (case keys of [] \<Rightarrow> None | k # ks \<Rightarrow> Some k)"
| "get_next_key keys (Some prev) =
     (if prev \<in> set keys then
        (case dropWhile (\<lambda>k. k \<noteq> prev) keys of k # k' # ks \<Rightarrow> Some k' | _ \<Rightarrow> None)
      else (case keys of [] \<Rightarrow> None | k # ks \<Rightarrow> Some k))"

text \<open>The loop of the dumps, with at most \<open>n\<close> turns: \<open>line\<close> is what a turn prints for its key.\<close>

fun dump_loop :: "nat \<Rightarrow> ('k \<Rightarrow> string list) \<Rightarrow> 'k list \<Rightarrow> 'k option \<Rightarrow> string list option" where
  "dump_loop 0 line keys prev = None"
| "dump_loop (Suc n) line keys prev =
     (case get_next_key keys prev of
        None \<Rightarrow> Some []
      | Some key \<Rightarrow> map_option (\<lambda>out. line key @ out) (dump_loop n line keys (Some key)))"

definition cls_line :: "(ip_5tuple \<rightharpoonup> cls_entry) \<Rightarrow> ip_5tuple \<Rightarrow> string list" where
  "cls_line m key = (case m key of
     None \<Rightarrow> []
   | Some val \<Rightarrow> [show_key key, ''Val: ['' @ show_sph (bswap32 (cls_sph val)) @ '', next_hop: '' @
       mac2str (next_hop val) @ '']''])"

definition nsh_line :: "(ip_5tuple \<rightharpoonup> nshhdr_md1) \<Rightarrow> ip_5tuple \<Rightarrow> string list" where
  "nsh_line m key = (case m key of
     None \<Rightarrow> [''next_key err'']
   | Some val \<Rightarrow> [show_key key, ''Val: ['' @ show_sph (bswap32 (serv_path val)) @ '']''])"

definition fwd_line :: "(u32 \<rightharpoonup> fwd_entry) \<Rightarrow> u32 \<Rightarrow> string list" where
  "fwd_line m key = (case m key of
     None \<Rightarrow> [''next_key err'']
   | Some val \<Rightarrow> [''Key: ['' @ show_sph (bswap32 key) @ '']'',
       ''Val: [flags: '' @ show_hex1 (flags val) @ '', address: '' @ mac2str (address val) @ '']''])"

text \<open>\<open>dump_cls_table\<close> starts with an uninitialised \<^verbatim>\<open>prev_key\<close>, the others with a NULL pointer.\<close>

definition dump_cls_table ::
  "nat \<Rightarrow> int \<Rightarrow> (ip_5tuple \<rightharpoonup> cls_entry) \<Rightarrow> ip_5tuple list \<Rightarrow> ip_5tuple \<Rightarrow> string list option" where
  "dump_cls_table n fd m keys junk = (if fd < 0 then Some []
     else map_option (\<lambda>out. ''==== Classifier map ===='' # out) (dump_loop n (cls_line m) keys (Some junk)))"

definition dump_nsh_data ::
  "nat \<Rightarrow> int \<Rightarrow> (ip_5tuple \<rightharpoonup> nshhdr_md1) \<Rightarrow> ip_5tuple list \<Rightarrow> string list option" where
  "dump_nsh_data n fd m keys = (if fd < 0 then Some []
     else map_option (\<lambda>out. ''==== NSH data map ===='' # out) (dump_loop n (nsh_line m) keys None))"

definition dump_fwd_table ::
  "nat \<Rightarrow> int \<Rightarrow> (u32 \<rightharpoonup> fwd_entry) \<Rightarrow> u32 list \<Rightarrow> string list option" where
  "dump_fwd_table n fd m keys = (if fd < 0 then Some []
     else map_option (\<lambda>out. ''==== Forwarding table ===='' # out) (dump_loop n (fwd_line m) keys None))"

section \<open>Statistics and the options\<close>

text \<open>
  \<open>junk\<close> is what the variable \<^verbatim>\<open>stats\<close> holds when the lookup fails, and \<open>fmt\<close> what \<^verbatim>\<open>printf\<close>
  prints for the single precision quotient of its arguments. The function returns no value when
  the map is there; its caller does not look at it.
\<close>

definition dump_prog_stats ::
  "(u8, stats) map_upd \<Rightarrow> (u64 \<Rightarrow> u32 \<Rightarrow> string) \<Rightarrow> stats \<Rightarrow> int \<Rightarrow> bool \<Rightarrow> (u8 \<rightharpoonup> stats)
   \<Rightarrow> string list \<times> (u8 \<rightharpoonup> stats)" where
  "dump_prog_stats upd fmt junk stats_fd zero_stats m =
     (if stats_fd < 0 then ([], m)
      else
        let st = (case m 0 of None \<Rightarrow> junk | Some st \<Rightarrow> st);
            out = (case m 0 of
              None \<Rightarrow> [''No stats to retrieve!'']
            | Some st \<Rightarrow> [''==== Program statistics ===='', ''rx: '' @ show_nat (unat (rx st)),
                ''tx: '' @ show_nat (unat (tx st)), ''tx_other: '' @ show_nat (unat (tx_other st))] @
                (if tx st \<noteq> 0 then [''Average latency: '' @ fmt (lat_avg_sum st) (tx st)] else [])) in
        if zero_stats then
          (out, snd (upd m 0 (st\<lparr>rx := 0, tx := 0, tx_other := 0, lat_avg_sum := 0\<rparr>) BPF_ANY))
        else (out, m))"

text \<open>The options as \<^verbatim>\<open>getopt_long\<close> gives them; \<open>Inl\<close> is the exit code of an early return.\<close>

datatype cmd_opt = Opt_stats string | Opt_zero | Opt_unknown

record options =
  opt_stats_fd :: int
  opt_zero_stats :: bool

definition strtoul :: "string \<Rightarrow> u32" where
  "strtoul s = (case scan_u s of None \<Rightarrow> 0 | Some (w :: u64, r) \<Rightarrow> ucast w)"

fun parse_options :: "(u32 \<Rightarrow> int) \<Rightarrow> cmd_opt list \<Rightarrow> options \<Rightarrow> int + options" where
  "parse_options fd_by_id [] opt = Inr opt"
| "parse_options fd_by_id (Opt_stats arg # os) opt =
     (let stats_id = strtoul arg in
      if stats_id = 0 then Inl 1
      else let fd = fd_by_id stats_id in
        if fd < 0 then Inl 1 else parse_options fd_by_id os (opt\<lparr>opt_stats_fd := fd\<rparr>))"
| "parse_options fd_by_id (Opt_zero # os) opt = parse_options fd_by_id os (opt\<lparr>opt_zero_stats := True\<rparr>)"
| "parse_options fd_by_id (Opt_unknown # os) opt = parse_options fd_by_id os opt"

text \<open>The maps of a node, each with the descriptor that \<^verbatim>\<open>bpf_obj_get\<close> returned, if any, and the
  order of its keys.\<close>

record inspected =
  i_cls :: "int \<times> (ip_5tuple \<rightharpoonup> cls_entry) \<times> ip_5tuple list"
  i_fwd :: "int \<times> (u32 \<rightharpoonup> fwd_entry) \<times> u32 list"
  i_nsh :: "int \<times> (ip_5tuple \<rightharpoonup> nshhdr_md1) \<times> ip_5tuple list"
  i_stats :: "u8 \<rightharpoonup> stats"

definition inspector_main ::
  "nat \<Rightarrow> (u32 \<Rightarrow> int) \<Rightarrow> (u8, stats) map_upd \<Rightarrow> (u64 \<Rightarrow> u32 \<Rightarrow> string) \<Rightarrow> stats \<Rightarrow> ip_5tuple
   \<Rightarrow> cmd_opt list \<Rightarrow> inspected \<Rightarrow> (int \<times> string list \<times> inspected) option" where
  "inspector_main n fd_by_id upd fmt junk junk_key os w =
     (case parse_options fd_by_id os \<lparr>opt_stats_fd = -1, opt_zero_stats = False\<rparr> of
        Inl code \<Rightarrow> Some (code, [], w)
      | Inr opt \<Rightarrow> do {
          let (cls_table, cls, cls_keys) = i_cls w;
          let (fwd_table, fwd, fwd_keys) = i_fwd w;
          let (nsh_data, nsh, nsh_keys) = i_nsh w;
          l1 \<leftarrow> dump_cls_table n cls_table cls cls_keys junk_key;
          l2 \<leftarrow> dump_nsh_data n nsh_data nsh nsh_keys;
          l3 \<leftarrow> dump_fwd_table n fwd_table fwd fwd_keys;
          let (l4, st) = dump_prog_stats upd fmt junk (opt_stats_fd opt) (opt_zero_stats opt) (i_stats w);
          Some (0, l1 @ l2 @ l3 @ l4, w\<lparr>i_stats := st\<rparr>)
        })"

section \<open>Lemmas\<close>

lemma get_next_key_at:
  assumes "distinct (xs @ k # ys)"
  shows "get_next_key (xs @ k # ys) (Some k) = (case ys of [] \<Rightarrow> None | y # ys \<Rightarrow> Some y)"
proof -
  have "dropWhile (\<lambda>x. x \<noteq> k) (xs @ k # ys) = k # ys"
    using assms by (subst dropWhile_append2) auto
  then show ?thesis by (simp split: list.split)
qed

lemma dump_loop_rest:
  assumes "distinct (xs @ k # ys)" and "length ys < n"
  shows "dump_loop n line (xs @ k # ys) (Some k) = Some (concat (map line ys))"
  using assms
proof (induction ys arbitrary: xs k n)
  case Nil
  then show ?case using get_next_key_at [of xs k "[]"] by (cases n) simp_all
next
  case (Cons y ys)
  then obtain m where n: "n = Suc m" by (cases n) auto
  have "dump_loop m line ((xs @ [k]) @ y # ys) (Some y) = Some (concat (map line ys))"
    by (rule Cons.IH) (use Cons.prems n in auto)
  then show ?case using get_next_key_at [of xs k "y # ys"] Cons.prems n by simp
qed

lemma dump_loop_all:
  assumes "distinct keys" and "length keys < n" and "prev = None \<or> (\<exists>k. prev = Some k \<and> k \<notin> set keys)"
  shows "dump_loop n line keys prev = Some (concat (map line keys))"
proof -
  obtain m where n: "n = Suc m" using assms(2) by (cases n) auto
  show ?thesis
  proof (cases keys)
    case Nil
    then show ?thesis using n assms(3) by (cases prev) auto
  next
    case (Cons k ks)
    have "get_next_key keys prev = Some k" using Cons assms(3) by (cases prev) auto
    moreover have "dump_loop m line ([] @ k # ks) (Some k) = Some (concat (map line ks))"
      using assms n Cons by (intro dump_loop_rest) simp_all
    ultimately show ?thesis using n Cons by simp
  qed
qed

lemma and_ff: "x AND 0xFF = ucast (ucast x :: u8)" for x :: u32
  by (rule bit_word_eqI) (auto simp: bit_simps and_low_byte)

lemma unat_ucast_u8: "unat (ucast (b :: u8) :: u32) = unat b"
  using unsigned_less [of b, where 'a = nat] by (simp add: unsigned_ucast_eq take_bit_nat_eq_self)

lemma sint_unat: "sint w = (if unat w < 2 ^ 31 then int (unat w) else int (unat w) - 2 ^ 32)" for w :: u32
proof -
  define u where "u = int (unat w)"
  have u: "uint w = u" "0 \<le> u" "u < 4294967296"
    using unsigned_less [of w, where 'a = int] by (simp_all add: u_def)
  have "sint w = (u + 2147483648) mod 4294967296 - 2147483648"
    by (simp add: sint_uint signed_take_bit_eq_take_bit_shift take_bit_eq_mod u(1))
  also have "\<dots> = (if u < 2147483648 then u else u - 4294967296)"
  proof (cases "u < 2147483648")
    case True
    have "(u + 2147483648) mod 4294967296 = u + 2147483648"
      using u True by (intro mod_pos_pos_trivial) linarith+
    then show ?thesis using True by simp
  next
    case False
    have "(u + 2147483648) mod 4294967296 = (u - 2147483648) mod 4294967296"
      using mod_add_self2 [of "u - 2147483648" "4294967296"] by (simp only: diff_add_eq) (simp add: add.commute)
    also have "\<dots> = u - 2147483648" using u False by (intro mod_pos_pos_trivial) linarith+
    finally show ?thesis using False by simp
  qed
  finally have "sint w = (if u < 2147483648 then u else u - 4294967296)" .
  moreover have "u < 2147483648 \<longleftrightarrow> unat w < 2147483648" by (simp only: u_def) linarith
  ultimately show ?thesis by (simp add: u_def del: of_nat_unat)
qed
section \<open>Properties\<close>

text \<open>The address that \<open>ip2str\<close> prints is the one \<^verbatim>\<open>inet_pton\<close> reads.\<close>

theorem ip2str_inet_pton: "inet_pton (ip2str ip) = Some ip"
proof -
  let ?b = "\<lambda>k. byte_of k ip"
  have e: "ip2str ip = show_nat (unat (?b 0)) @ CHR ''.'' # show_nat (unat (?b 1)) @ CHR ''.'' #
      show_nat (unat (?b 2)) @ CHR ''.'' # show_nat (unat (?b 3))"
    by (simp add: ip2str_def Let_def and_ff unat_ucast_u8 byte_of_def)
  have d: "list_all is_dec (show_nat n)" for n using show_nat_props by blast
  have "split_dot (ip2str ip) = [show_nat (unat (?b 0)), show_nat (unat (?b 1)), show_nat (unat (?b 2)), show_nat (unat (?b 3))]"
    unfolding e by (simp add: no_dot [OF d])
  moreover have "dec32 [?b 0, ?b 1, ?b 2, ?b 3] = ip"
    using dec32_enc32 [of ip] by (simp add: enc32_def)
  ultimately show ?thesis by (simp add: inet_pton_def octet_show)
qed

text \<open>C33. The forwarding table's dump ends after one turn per rule and prints the rules one by
  one, each once, in the order of the walk.\<close>

theorem dump_fwd_table_complete:
  assumes "distinct keys" and "set keys = dom m" and "length keys < n" and "0 \<le> fd"
  shows "dump_fwd_table n fd m keys = Some (''==== Forwarding table ===='' #
      concat (map (\<lambda>key. [''Key: ['' @ show_sph (bswap32 key) @ '']'',
        ''Val: [flags: '' @ show_hex1 (flags (the (m key))) @ '', address: '' @
          mac2str (address (the (m key))) @ '']'']) keys))"
proof -
  have l: "fwd_line m key = [''Key: ['' @ show_sph (bswap32 key) @ '']'',
      ''Val: [flags: '' @ show_hex1 (flags (the (m key))) @ '', address: '' @
        mac2str (address (the (m key))) @ '']'']" if "key \<in> set keys" for key
    using that assms(2) by (auto simp: fwd_line_def)
  have "map (fwd_line m) keys = map (\<lambda>key. [''Key: ['' @ show_sph (bswap32 key) @ '']'',
        ''Val: [flags: '' @ show_hex1 (flags (the (m key))) @ '', address: '' @
          mac2str (address (the (m key))) @ '']'']) keys"
    by (intro map_cong refl l)
  moreover have "dump_loop n (fwd_line m) keys None = Some (concat (map (fwd_line m) keys))"
    by (rule dump_loop_all [OF assms(1,3)]) simp
  moreover have "\<not> fd < 0" using assms(4) by simp
  ultimately show ?thesis by (simp only: dump_fwd_table_def if_False option.map)
qed

theorem dump_fwd_table_complete_witness:
  "\<exists>l. dump_fwd_table 5 4 [0x00010000 \<mapsto> \<lparr>flags = 1, address = mac_c\<rparr>] [0x00010000]
    = Some [''==== Forwarding table ===='', l, ''Val: [flags: 1, address: 02:00:00:00:00:0C]'']"
proof -
  have "show_hex1 1 = ''1''" "mac2str mac_c = ''02:00:00:00:00:0C''" by code_simp+
  then show ?thesis
    using dump_fwd_table_complete [of "[0x00010000]" "[0x00010000 \<mapsto> \<lparr>flags = 1, address = mac_c\<rparr>]" 5 4]
    by simp
qed

text \<open>The service path identifier that the tool prints is the one of the header exactly when its
  highest bit is clear: \<^verbatim>\<open>sph\<close> is a signed integer there, and a path of \<open>2 ^ 23\<close> or more is printed
  as a negative number.\<close>

lemma spi_printed_signed: "(printed_spi sph = int (unat sph div 256)) = (unat sph < 2 ^ 31)"
proof (cases "unat sph < 2 ^ 31")
  case True
  then show ?thesis by (simp only: printed_spi_def sint_unat if_True zdiv_int) simp
next
  case False
  have "unat sph < 2 ^ 32" using unsigned_less [of sph, where 'a = nat] by simp
  then have "printed_spi sph < 0" using False by (simp add: printed_spi_def sint_unat del: of_nat_unat)
  then show ?thesis using False by linarith
qed

text \<open>C35. Zeroing the statistics makes them exact: after a \<open>--zero\<close> that could be stored, the
  counters after any runs of the program are their numbers and the latency sum is the sum of their
  latencies, also when there was no entry before.\<close>

theorem zeroed_stats_exact:
  assumes "\<forall>(E, e)\<in>set rs. enable_stats E" and "0 \<le> fd"
    and "map_update upd" and "fst (upd (prog_stats s) 0
      ((case prog_stats s 0 of None \<Rightarrow> junk | Some st \<Rightarrow> st)\<lparr>rx := 0, tx := 0, tx_other := 0, lat_avg_sum := 0\<rparr>) BPF_ANY) = 0"
    and "dump_prog_stats upd fmt junk fd True (prog_stats s) = (out, m)"
  shows "\<exists>st. prog_stats (runs rs (s\<lparr>prog_stats := m\<rparr>)) 0 = Some st
    \<and> rx st = of_nat (length rs)
    \<and> tx st = of_nat (length (filter (\<lambda>(E, e). e = Ret_ok) rs))
    \<and> tx_other st = of_nat (length (filter (\<lambda>(E, e). e = Ret_other) rs))
    \<and> lat_avg_sum st = sum_list (map lat_of rs)"
proof -
  let ?z = "(case prog_stats s 0 of None \<Rightarrow> junk | Some st \<Rightarrow> st)\<lparr>rx := 0, tx := 0, tx_other := 0, lat_avg_sum := 0\<rparr>"
  have m: "m 0 = Some ?z"
    using assms(2,5) map_update.update_ok [OF assms(3,4), symmetric] by (auto simp: dump_prog_stats_def Let_def)
  from runs_known [OF assms(1), of "s\<lparr>prog_stats := m\<rparr>" ?z] m show ?thesis by auto
qed

theorem zeroed_stats_exact_witness:
  "\<exists>st. prog_stats (runs [(sample_env, Ret_ok)] (sample_state\<lparr>prog_stats :=
      snd (dump_prog_stats upd_roomy (\<lambda>a b. []) init_stats 7 True (prog_stats sample_state))\<rparr>)) 0 = Some st
    \<and> rx st = 1 \<and> tx st = 1 \<and> lat_avg_sum st = latency sample_env"
proof -
  have e: "\<forall>(E, e)\<in>set [(sample_env, Ret_ok)]. enable_stats E" by (simp add: sample_env_def)
  have u: "map_update (upd_roomy :: (u8, stats) map_upd)" by (simp add: sample_helpers)
  obtain out m where d: "dump_prog_stats upd_roomy (\<lambda>a b. []) init_stats 7 True (prog_stats sample_state) = (out, m)"
    by (metis surj_pair)
  from zeroed_stats_exact [OF e _ u _ d] d show ?thesis
    by (auto simp: upd_roomy_def BPF_ANY_def BPF_NOEXIST_def)
qed

end
