(* ===== verification/SfcAgent.thy ===== *)
theory SfcAgent
  imports Agent
begin

text \<open>
  The two agents written in C: \<^verbatim>\<open>src/user/sfc_agent_user.c\<close>, which opens an object file with
  libbpf and attaches its decapsulation stage to an interface, and \<^verbatim>\<open>src/user/cb_agent_user.c\<close>,
  a front end of the agent helpers. libbpf is a parameter. \<open>None\<close> is a run that writes past a
  buffer or does not end within its turns.
\<close>

section \<open>Options\<close>

datatype agent_opt = Opt_iface string | Opt_obj string | Opt_other

definition OBJFILE_SIZE :: nat where "OBJFILE_SIZE = 256"

record agent_vars =
  a_ifname :: string
  a_ifindex :: int
  objfile :: string

definition agent_init :: agent_vars where
  "agent_init = \<lparr>a_ifname = replicate IF_NAMESIZE CHR 0x00, a_ifindex = -1, objfile = []\<rparr>"

text \<open>An invalid name is reported, and the buffer, as it is, is used all the same. \<^verbatim>\<open>strcpy\<close> writes
  the name and its NUL into 256 bytes.\<close>

fun agent_options :: "'e sys_env_scheme \<Rightarrow> agent_opt list \<Rightarrow> agent_vars \<Rightarrow> (int + agent_vars) option" where
  "agent_options E [] v = Some (Inr v)"
| "agent_options E (Opt_iface arg # opts) v =
     (let (ok, name) = validate_ifname arg (a_ifname v);
          i = if_nametoindex E (c_text name) in
      if i = 0 then Some (Inl 1) else agent_options E opts (v\<lparr>a_ifname := name, a_ifindex := i\<rparr>))"
| "agent_options E (Opt_obj arg # opts) v =
     (if \<not> file_exists E arg then Some (Inl 1)
      else if length arg \<ge> OBJFILE_SIZE then None
      else agent_options E opts (v\<lparr>objfile := arg\<rparr>))"
| "agent_options E (Opt_other # opts) v = Some (Inl 1)"

section \<open>The service function agent\<close>

text \<open>
  libbpf: the section names of the programs in an object file, the result of guessing a
  program's type from its name, the descriptors of a map and of a program by name (\<open>None\<close> is
  the NULL pointer), \<^verbatim>\<open>bpf_set_link_xdp_fd\<close>, and \<^verbatim>\<open>bpf_prog_get_next_id\<close>, which returns its
  status and the identifier it writes.
\<close>

record libbpf_env = sys_env +
  prog_titles :: "string \<Rightarrow> string list"
  prog_type_by_name :: "string \<Rightarrow> int"
  find_map :: "string \<Rightarrow> string \<Rightarrow> int option"
  find_program :: "string \<Rightarrow> string \<Rightarrow> int option"
  set_link_xdp_fd :: "int \<Rightarrow> int \<Rightarrow> u32 \<Rightarrow> int"
  prog_get_next_id :: "u32 \<Rightarrow> int \<times> u32"

definition XDP_FLAGS_DRV_MODE :: u32 where "XDP_FLAGS_DRV_MODE = 4"

record sfc_agent_state = host +
  links :: "(int \<times> int \<times> u32) list"
  h_nsh_data :: int
  h_src_mac :: int
  h_fwd_table :: int

text \<open>The loop over the program identifiers, of at most \<open>n\<close> turns: it ends when there is no next
  one, with the error as the value of \<^verbatim>\<open>ret\<close>.\<close>

fun prog_id_loop :: "nat \<Rightarrow> 'e libbpf_env_scheme \<Rightarrow> u32 \<Rightarrow> int option" where
  "prog_id_loop 0 E pid = None"
| "prog_id_loop (Suc n) E pid =
     (let (ret, pid) = prog_get_next_id E pid in
      if ret \<noteq> 0 then Some ret else prog_id_loop n E pid)"

definition map_handles :: "'e libbpf_env_scheme \<Rightarrow> string \<Rightarrow> 's sfc_agent_state_scheme \<Rightarrow> 's sfc_agent_state_scheme" where
  "map_handles E obj s =
     (let s = (case find_map E obj ''nsh_data'' of None \<Rightarrow> s | Some fd \<Rightarrow> s\<lparr>h_nsh_data := fd\<rparr>);
          s = (case find_map E obj ''src_mac'' of None \<Rightarrow> s | Some fd \<Rightarrow> s\<lparr>h_src_mac := fd\<rparr>) in
      (case find_map E obj ''fwd_table'' of None \<Rightarrow> s | Some fd \<Rightarrow> s\<lparr>h_fwd_table := fd\<rparr>))"

definition attach_decap ::
  "nat \<Rightarrow> 'e libbpf_env_scheme \<Rightarrow> agent_vars \<Rightarrow> 's sfc_agent_state_scheme \<Rightarrow> (int \<times> 's sfc_agent_state_scheme) option" where
  "attach_decap n E v s =
     (case find_program E (objfile v) ''xdp/decap'' of
        None \<Rightarrow> Some (-1, s)
      | Some dec_fd \<Rightarrow>
          if dec_fd = -1 then Some (-1, s)
          else
            let ret = set_link_xdp_fd E (a_ifindex v) dec_fd XDP_FLAGS_DRV_MODE;
                s = s\<lparr>links := links s @ [(a_ifindex v, dec_fd, XDP_FLAGS_DRV_MODE)]\<rparr> in
            if ret < 0 then Some (-1, s)
            else do { ret \<leftarrow> prog_id_loop n E 0; Some (ret, s) })"

definition sfc_agent_main ::
  "nat \<Rightarrow> 'e libbpf_env_scheme \<Rightarrow> agent_opt list \<Rightarrow> 's sfc_agent_state_scheme \<Rightarrow> (int \<times> 's sfc_agent_state_scheme) option" where
  "sfc_agent_main n E opts s = do {
     r \<leftarrow> agent_options E opts agent_init;
     case r of
       Inl code \<Rightarrow> Some (code, s)
     | Inr v \<Rightarrow>
         if a_ifindex v = -1 \<or> objfile v = [] then Some (1, s)
         else if list_ex (\<lambda>name. prog_type_by_name E name \<noteq> 0) (prog_titles E (objfile v)) then Some (-1, s)
         else attach_decap n E v (map_handles E (objfile v) s)
   }"

text \<open>The signal handler.\<close>

definition remove_progs ::
  "'e libbpf_env_scheme \<Rightarrow> agent_vars \<Rightarrow> 's sfc_agent_state_scheme \<Rightarrow> (int \<times> 's sfc_agent_state_scheme) option" where
  "remove_progs E v s = do {
     let s = s\<lparr>links := links s @ [(a_ifindex v, -1, XDP_FLAGS_DRV_MODE)]\<rparr>;
     (r, s) \<leftarrow> tc_remove_filter E (c_text (a_ifname v)) EGRESS s;
     Some (0, s)
   }"

text \<open>The descriptor in \<^verbatim>\<open>fds\<close> is a static variable that nothing sets: it is 0.\<close>

definition load_fwd_rule :: "(int \<Rightarrow> (u32, fwd_entry) map_upd) \<Rightarrow> (u32 \<rightharpoonup> fwd_entry) \<Rightarrow> u32 \<Rightarrow> fwd_entry \<Rightarrow> (u32 \<rightharpoonup> fwd_entry)" where
  "load_fwd_rule upd m sph entry = snd (upd 0 m sph entry BPF_ANY)"

section \<open>The front end of the agent helpers\<close>

text \<open>
  \<^verbatim>\<open>load_stages\<close> is called but defined nowhere in the repository: it is a parameter. The long
  option \<^verbatim>\<open>--obj\<close> is declared without an argument, so its \<^verbatim>\<open>optarg\<close> is NULL.
\<close>

datatype cb_opt = Cb_o string | Cb_obj | Cb_i string | Cb_other

fun cb_options :: "cb_opt list \<Rightarrow> string option \<times> string option \<Rightarrow> string option \<times> string option" where
  "cb_options [] v = v"
| "cb_options (Cb_o arg # opts) v = cb_options opts (fst v, Some arg)"
| "cb_options (Cb_obj # opts) v = cb_options opts (fst v, None)"
| "cb_options (Cb_i arg # opts) v = cb_options opts (Some arg, snd v)"
| "cb_options (Cb_other # opts) v = cb_options opts v"

definition cb_agent_main ::
  "'e agent_env_scheme \<Rightarrow> (string \<Rightarrow> string \<Rightarrow> 's agent_state_scheme \<Rightarrow> 's agent_state_scheme) \<Rightarrow> cb_opt list
   \<Rightarrow> 's agent_state_scheme \<Rightarrow> int \<times> 's agent_state_scheme" where
  "cb_agent_main E load_stages opts s =
     (case cb_options opts (None, None) of
        (None, stages_obj) \<Rightarrow> (1, s)
      | (Some iface, None) \<Rightarrow> (1, s)
      | (Some iface, Some stages_obj) \<Rightarrow> (0, snd (get_map_fds E (load_stages iface stages_obj s))))"

section \<open>Lemmas\<close>

lemma prog_id_loop_fails: "prog_id_loop n E pid = Some ret \<Longrightarrow> ret \<noteq> 0 \<and> (\<exists>pid. fst (prog_get_next_id E pid) = ret)"
  by (induction n arbitrary: pid) (auto split: prod.splits if_splits, metis fst_conv)

text \<open>The identifiers grow, so the loop ends.\<close>

lemma prog_id_loop_ends:
  assumes "\<And>pid. fst (prog_get_next_id E pid) = 0 \<Longrightarrow> pid < snd (prog_get_next_id E pid)"
    and "2 ^ 32 - unat pid < n + 1"
  shows "\<exists>ret. prog_id_loop n E pid = Some ret"
  using assms(2)
proof (induction n arbitrary: pid)
  case 0
  then show ?case using unsigned_less [of pid, where 'a = nat] by simp
next
  case (Suc n)
  obtain ret pid' where g: "prog_get_next_id E pid = (ret, pid')" by fastforce
  show ?case
  proof (cases "ret = 0")
    case True
    then have "unat pid < unat pid'" using assms(1) [of pid] g by (simp add: word_less_nat_alt)
    with Suc.prems have "2 ^ 32 - unat pid' < n + 1" using unsigned_less [of pid', where 'a = nat] by simp
    from Suc.IH [OF this] show ?thesis using g True by simp
  qed (simp add: g)
qed

lemma agent_options_fail: "agent_options E opts v = Some (Inl code) \<Longrightarrow> code = 1"
  by (induction E opts v rule: agent_options.induct) (auto simp: Let_def split: if_splits prod.splits)

lemma attach_decap_fails:
  "attach_decap n E v s = Some (code, s') \<Longrightarrow> code = -1 \<or> code \<noteq> 0 \<and> (\<exists>pid. fst (prog_get_next_id E pid) = code)"
  by (auto simp: attach_decap_def Let_def dest: prog_id_loop_fails split: option.splits if_splits Option.bind_splits)

lemma agent_options_total:
  "\<forall>opt\<in>set opts. \<forall>arg. opt = Opt_obj arg \<longrightarrow> length arg < OBJFILE_SIZE \<Longrightarrow> \<exists>r. agent_options E opts v = Some r"
  by (induction E opts v rule: agent_options.induct) (auto simp: Let_def split: prod.splits)

lemma cb_agent_needs_both:
  "fst (cb_agent_main E load_stages opts s) = 0 \<longleftrightarrow>
    (\<exists>i ob. cb_options opts (None, None) = (Some i, Some ob))"
  by (auto simp: cb_agent_main_def split: option.split prod.split)

lemma attach_decap_links:
  assumes "attach_decap n E v s = Some (code, s')" and "find_program E (objfile v) ''xdp/decap'' = Some fd" "fd \<noteq> -1"
  shows "links s' = links s @ [(a_ifindex v, fd, XDP_FLAGS_DRV_MODE)]"
  using assms by (auto simp: attach_decap_def Let_def split: if_splits Option.bind_splits)

lemma map_handles_links [simp]: "links (map_handles E obj s) = links s"
  by (simp add: map_handles_def Let_def split: option.split)

section \<open>Property\<close>

text \<open>C38. The service function agent ends, and never with the exit status of success: after it has
  attached the stage, the value of \<^verbatim>\<open>ret\<close> is the error that ended the loop over the program
  identifiers. The conditions: object file names of less than 256 characters (a longer one is a
  write past the buffer), a kernel whose program identifiers grow, and errors of
  \<^verbatim>\<open>bpf_prog_get_next_id\<close> that are -1 or a negated errno, above -256, so that the low byte of the
  result, which is all the parent sees, is not zero either.\<close>

theorem sfc_agent_never_succeeds:
  assumes "\<And>pid. fst (prog_get_next_id E pid) = 0 \<Longrightarrow> pid < snd (prog_get_next_id E pid)"
    and "\<And>arg. Opt_obj arg \<in> set opts \<Longrightarrow> length arg < 256"
    and err: "\<And>pid. fst (prog_get_next_id E pid) \<noteq> 0 \<Longrightarrow> - 256 < fst (prog_get_next_id E pid) \<and> fst (prog_get_next_id E pid) < 0"
  shows "\<exists>code s'. sfc_agent_main (2 ^ 32) E opts s = Some (code, s') \<and> code \<noteq> 0 \<and> exit_status code \<noteq> 0"
proof -
  have small: "exit_status code \<noteq> 0" if "- 256 < code" "code < 0" for code
    using that mod_pos_pos_trivial [of "code + 256" 256] by (simp add: exit_status_def)
  have loop: "\<exists>ret. prog_id_loop (2 ^ 32) E 0 = Some ret"
    by (rule prog_id_loop_ends [OF assms(1)]) simp_all
  have attach: "\<exists>r. attach_decap (2 ^ 32) E v s = Some r" for v and s :: "'b sfc_agent_state_scheme"
    using loop by (auto simp: attach_decap_def Let_def split: option.splits)
  obtain r where r: "agent_options E opts agent_init = Some r"
    using agent_options_total [of opts E agent_init] assms(2) by (auto simp: OBJFILE_SIZE_def)
  show ?thesis
  proof (cases r)
    case (Inl code)
    then show ?thesis
      using r agent_options_fail [of E opts agent_init code] by (simp add: sfc_agent_main_def exit_status_def)
  next
    case (Inr v)
    obtain code s' where a: "attach_decap (2 ^ 32) E v (map_handles E (objfile v) s) = Some (code, s')"
      using attach by fastforce
    have "- 256 < code \<and> code < 0" using attach_decap_fails [OF a] err by auto
    with small [of code] r Inr a show ?thesis using small [of "-1"] by (auto simp: sfc_agent_main_def exit_status_def)
  qed
qed

text \<open>A run that attaches the stage with descriptor 7 to the interface 2, in a system with three
  programs.\<close>

definition sample_libbpf :: libbpf_env where
  "sample_libbpf = sys_env.extend (sample_sys 0) \<lparr>prog_titles = (\<lambda>f. [''xdp/decap'', ''action/encap'']),
     prog_type_by_name = (\<lambda>n. 0), find_map = (\<lambda>f n. Some 5), find_program = (\<lambda>f n. Some 7),
     set_link_xdp_fd = (\<lambda>i fd f. 0), prog_get_next_id = (\<lambda>i. if i < 3 then (0, i + 1) else (-1, i))\<rparr>"

definition sample_sfc_agent :: sfc_agent_state where
  "sample_sfc_agent = \<lparr>cmds = [], links = [], h_nsh_data = -1, h_src_mac = -1, h_fwd_table = -1\<rparr>"

lemma sample_libbpf_simps [simp]:
  "prog_titles sample_libbpf = (\<lambda>f. [''xdp/decap'', ''action/encap''])" "prog_type_by_name sample_libbpf = (\<lambda>n. 0)"
  "find_program sample_libbpf = (\<lambda>f n. Some 7)" "set_link_xdp_fd sample_libbpf = (\<lambda>i fd f. 0)"
  "prog_get_next_id sample_libbpf = (\<lambda>i. if i < 3 then (0, i + 1) else (-1, i))"
  "if_nametoindex sample_libbpf = (\<lambda>n. if n = ''eth0'' then 2 else 3)" "stat_ok sample_libbpf = (\<lambda>f. True)"
  by (simp_all add: sample_libbpf_def sys_env.defs sample_sys_def)

lemma sample_agent_parse: "\<exists>v. agent_options sample_libbpf [Opt_iface ''eth0'', Opt_obj ''sfc.o''] agent_init = Some (Inr v)
    \<and> a_ifindex v = 2 \<and> objfile v = ''sfc.o''"
  by (simp add: agent_init_def validate_ifname_def is_alnum_def IF_NAMESIZE_def OBJFILE_SIZE_def file_exists_def
      c_text_def numeral_eq_Suc)

theorem sfc_agent_never_succeeds_witness:
  "\<exists>code s'. sfc_agent_main (2 ^ 32) sample_libbpf [Opt_iface ''eth0'', Opt_obj ''sfc.o''] sample_sfc_agent = Some (code, s')
    \<and> code \<noteq> 0 \<and> exit_status code \<noteq> 0 \<and> links s' = [(2, 7, XDP_FLAGS_DRV_MODE)]"
proof -
  have inc: "fst (prog_get_next_id sample_libbpf i) = 0 \<Longrightarrow> i < snd (prog_get_next_id sample_libbpf i)" for i
    by (cases "i < 3") (auto simp: inc_le word_less_nat_alt unat_word_ariths)
  have err: "fst (prog_get_next_id sample_libbpf i) \<noteq> 0
    \<Longrightarrow> - 256 < fst (prog_get_next_id sample_libbpf i) \<and> fst (prog_get_next_id sample_libbpf i) < 0" for i
    by (cases "i < 3") simp_all
  obtain code s' where run: "sfc_agent_main (2 ^ 32) sample_libbpf [Opt_iface ''eth0'', Opt_obj ''sfc.o''] sample_sfc_agent
      = Some (code, s')" and c: "code \<noteq> 0" "exit_status code \<noteq> 0"
    using sfc_agent_never_succeeds [OF inc _ err, of "[Opt_iface ''eth0'', Opt_obj ''sfc.o'']" sample_sfc_agent] by auto
  obtain v where v: "agent_options sample_libbpf [Opt_iface ''eth0'', Opt_obj ''sfc.o''] agent_init = Some (Inr v)"
    "a_ifindex v = 2" "objfile v = ''sfc.o''"
    using sample_agent_parse by blast
  have "attach_decap (2 ^ 32) sample_libbpf v (map_handles sample_libbpf (objfile v) sample_sfc_agent) = Some (code, s')"
    using run v by (simp add: sfc_agent_main_def del: agent_options.simps)
  from attach_decap_links [OF this, of 7] v have "links s' = [(2, 7, XDP_FLAGS_DRV_MODE)]"
    by (simp add: sample_sfc_agent_def)
  with run c show ?thesis by blast
qed

end
