(* ===== verification/BenchUser.thy ===== *)
theory BenchUser
  imports Loader Redirects FlowMonitor
begin

text \<open>
  The user space halves of the TC redirect and of the flow monitor,
  \<^verbatim>\<open>src/functions/tc-redirect/tc_bench01_redirect_user.c\<close> and
  \<^verbatim>\<open>src/functions/flow-monitor/flow_monitor_user.c\<close>: their options, the \<^verbatim>\<open>tc\<close> commands they run and
  the maps they fill. The two programs have the same helpers, up to the preference at which they
  attach. The options are given as \<^verbatim>\<open>getopt_long\<close> returns them, one after the other.
\<close>

section \<open>Options\<close>

definition CMD_MAX_TC :: nat where "CMD_MAX_TC = 256"
definition EXIT_SUCCESS :: int where "EXIT_SUCCESS = 0"
definition EXIT_FAILURE :: int where "EXIT_FAILURE = 1"

datatype bench_opt =
    Opt_x string | Opt_e string | Opt_i string | Opt_l "string option" | Opt_r "string option"
  | Opt_t string | Opt_q | Opt_s string | Opt_w | Opt_h

text \<open>The variables the options set. The names are buffers of \<^verbatim>\<open>IF_NAMESIZE\<close> characters and the
  \<^verbatim>\<open>tc\<close> command one of \<^verbatim>\<open>CMD_MAX_TC\<close>, with their NULs.\<close>

record bench_vars =
  o_tc_cmd :: string
  ingress_ifname :: string
  egress_ifname :: string
  ingress_ifindex :: int
  egress_ifindex_arg :: int
  list_filter :: bool
  remove_filter :: bool
  verbose :: bool
  srcip_arg :: u32
  has_srcip :: bool

definition bench_init :: bench_vars where
  "bench_init = \<lparr>o_tc_cmd = ''tc'' @ replicate (CMD_MAX_TC - 2) CHR 0x00,
     ingress_ifname = replicate IF_NAMESIZE CHR 0x00, egress_ifname = replicate IF_NAMESIZE CHR 0x00,
     ingress_ifindex = 0, egress_ifindex_arg = -1, list_filter = False, remove_filter = False,
     verbose = True, srcip_arg = 0, has_srcip = False\<rparr>"

text \<open>The name that \<^verbatim>\<open>--list\<close> and \<^verbatim>\<open>--remove\<close> work on; \<open>None\<close> is the early return.\<close>

definition name_arg :: "string option \<Rightarrow> string \<Rightarrow> string option" where
  "name_arg optarg ifname =
     (let (ok, ifname) = (case optarg of None \<Rightarrow> (True, ifname) | Some arg \<Rightarrow> validate_ifname arg ifname) in
      if \<not> ok then None
      else if c_text ifname = [] then None
      else Some ifname)"

text \<open>One option that both programs have; \<open>Inl\<close> is the exit code of an early return. \<^verbatim>\<open>inet_pton\<close>
  never returns -1 for \<^verbatim>\<open>AF_INET\<close>, and leaves the address alone when the text is not one.\<close>

fun bench_option :: "'e sys_env_scheme \<Rightarrow> bench_opt \<Rightarrow> bench_vars \<Rightarrow> int + bench_vars" where
  "bench_option E (Opt_x arg) v = Inr (v\<lparr>egress_ifindex_arg := atoi arg\<rparr>)"
| "bench_option E (Opt_e arg) v =
     (let (ok, name) = validate_ifname arg (egress_ifname v);
          i = if_nametoindex E (c_text name);
          v = v\<lparr>egress_ifname := name, egress_ifindex_arg := i\<rparr> in
      if i = 0 then Inl EXIT_FAILURE else Inr v)"
| "bench_option E (Opt_i arg) v =
     (let (ok, name) = validate_ifname arg (ingress_ifname v);
          i = if_nametoindex E (c_text name);
          v = v\<lparr>ingress_ifname := name, ingress_ifindex := i\<rparr> in
      if i = 0 then Inl EXIT_FAILURE else Inr v)"
| "bench_option E (Opt_l arg) v =
     (case name_arg arg (ingress_ifname v) of
        None \<Rightarrow> Inl EXIT_FAILURE
      | Some name \<Rightarrow> Inr (v\<lparr>ingress_ifname := name, list_filter := True\<rparr>))"
| "bench_option E (Opt_r arg) v =
     (case name_arg arg (ingress_ifname v) of
        None \<Rightarrow> Inl EXIT_FAILURE
      | Some name \<Rightarrow> Inr (v\<lparr>ingress_ifname := name, remove_filter := True\<rparr>))"
| "bench_option E (Opt_t arg) v =
     (if length arg \<ge> CMD_MAX_TC then Inl EXIT_FAILURE
      else Inr (v\<lparr>o_tc_cmd := arg @ drop (length arg) (o_tc_cmd v)\<rparr>))"
| "bench_option E Opt_q v = Inr (v\<lparr>verbose := False\<rparr>)"
| "bench_option E (Opt_s arg) v =
     Inr (v\<lparr>srcip_arg := (case inet_pton arg of Some ip \<Rightarrow> ip | None \<Rightarrow> srcip_arg v), has_srcip := True\<rparr>)"
| "bench_option E Opt_w v = Inr v"
| "bench_option E Opt_h v = Inl EXIT_FAILURE"

fun bench_options :: "'e sys_env_scheme \<Rightarrow> bench_opt list \<Rightarrow> bench_vars \<Rightarrow> int + bench_vars" where
  "bench_options E [] v = Inr v"
| "bench_options E (opt # opts) v =
     (case bench_option E opt v of Inl code \<Rightarrow> Inl code | Inr v \<Rightarrow> bench_options E opts v)"

text \<open>The flow monitor has no \<^verbatim>\<open>-w\<close>: it is an unknown option there.\<close>

definition monitor_option :: "'e sys_env_scheme \<Rightarrow> bench_opt \<Rightarrow> bench_vars \<Rightarrow> int + bench_vars" where
  "monitor_option E opt v = (if opt = Opt_w then Inl EXIT_FAILURE else bench_option E opt v)"

fun monitor_options :: "'e sys_env_scheme \<Rightarrow> bench_opt list \<Rightarrow> bench_vars \<Rightarrow> int + bench_vars" where
  "monitor_options E [] v = Inr v"
| "monitor_options E (opt # opts) v =
     (case monitor_option E opt v of Inl code \<Rightarrow> Inl code | Inr v \<Rightarrow> monitor_options E opts v)"

section \<open>Commands\<close>

text \<open>\<^verbatim>\<open>snprintf\<close> cuts the command at 2047 characters.\<close>

definition run_system :: "'e sys_env_scheme \<Rightarrow> string \<Rightarrow> 's host_scheme \<Rightarrow> int \<times> 's host_scheme" where
  "run_system E cmd s =
     (let cmd = take (CMD_MAX - 1) cmd in (sys_system E (cmds s) cmd, s\<lparr>cmds := cmds s @ [cmd]\<rparr>))"

text \<open>\<open>Inl\<close> is \<^verbatim>\<open>exit\<close>, \<open>Inr\<close> the return value.\<close>

definition tc_ingress_attach_bpf ::
  "'e sys_env_scheme \<Rightarrow> string \<Rightarrow> int \<Rightarrow> string \<Rightarrow> string \<Rightarrow> 's host_scheme \<Rightarrow> (int + int) \<times> 's host_scheme" where
  "tc_ingress_attach_bpf E tc prio dev bpf_obj s =
     (let (ret, s) = run_system E (tc @ '' qdisc add dev '' @ dev @ '' clsact'') s;
          (ret, s) = run_system E (tc @ '' filter add dev '' @ dev @ '' '' @
            ''ingress prio '' @ show_int prio @ '' handle 1 bpf da obj '' @ bpf_obj @ '' sec ingress_redirect'') s in
      if ret \<noteq> 0 then (Inl EXIT_FAILURE, s) else (Inr ret, s))"

definition tc_list_ingress_filter ::
  "'e sys_env_scheme \<Rightarrow> string \<Rightarrow> string \<Rightarrow> 's host_scheme \<Rightarrow> (int + int) \<times> 's host_scheme" where
  "tc_list_ingress_filter E tc dev s =
     (let (ret, s) = run_system E (tc @ '' filter show dev '' @ dev @ '' ingress'') s in
      if ret \<noteq> 0 then (Inl EXIT_FAILURE, s) else (Inr ret, s))"

definition tc_remove_ingress_filter ::
  "'e sys_env_scheme \<Rightarrow> string \<Rightarrow> string \<Rightarrow> 's host_scheme \<Rightarrow> (int + int) \<times> 's host_scheme" where
  "tc_remove_ingress_filter E tc dev s =
     (let (ret, s) = run_system E (tc @ '' filter delete dev '' @ dev @ '' ingress'') s in
      if ret \<noteq> 0 then (Inl EXIT_FAILURE, s) else (Inr ret, s))"

section \<open>The main functions\<close>

record bench_state = host +
  b_egress :: "int \<rightharpoonup> int"

record tc_bench_state = bench_state +
  b_info :: "int \<rightharpoonup> info"

record monitor_user_state = bench_state +
  m_srcip :: "int \<rightharpoonup> u32"

definition egress_mapfile :: string where "egress_mapfile = ''/sys/fs/bpf/tc/globals/egress_ifindex''"
definition infomapfile :: string where "infomapfile = ''/sys/fs/bpf/tc/globals/infomap''"
definition srcipmapfile :: string where "srcipmapfile = ''/sys/fs/bpf/tc/globals/srcip''"

text \<open>The commands that the options ask for, in their order: \<open>Some code\<close> ends the program.\<close>

definition bench_commands ::
  "'e sys_env_scheme \<Rightarrow> int \<Rightarrow> string \<Rightarrow> bench_vars \<Rightarrow> 's host_scheme \<Rightarrow> int option \<times> 's host_scheme" where
  "bench_commands E prio bpf_obj v s =
     (let tc = c_text (o_tc_cmd v); dev = c_text (ingress_ifname v);
          (r, s) = (if ingress_ifindex v \<noteq> 0 then tc_ingress_attach_bpf E tc prio dev bpf_obj s else (Inr 0, s)) in
      case r of Inl code \<Rightarrow> (Some code, s)
      | Inr ret \<Rightarrow>
          if ret \<noteq> 0 then (Some EXIT_FAILURE, s)
          else
            let (r, s) = (if list_filter v then tc_list_ingress_filter E tc dev s else (Inr 0, s)) in
            case r of Inl code \<Rightarrow> (Some code, s)
            | Inr ret \<Rightarrow>
                if remove_filter v then
                  (case tc_remove_ingress_filter E tc dev s of
                     (Inl code, s) \<Rightarrow> (Some code, s)
                   | (Inr ret, s) \<Rightarrow> (Some EXIT_SUCCESS, s))
                else (None, s))"

text \<open>The egress interface: put it into the map, or read it from there.\<close>

definition egress_part ::
  "'e sys_env_scheme \<Rightarrow> (int \<Rightarrow> (int, int) map_upd) \<Rightarrow> bench_vars \<Rightarrow> 's bench_state_scheme
   \<Rightarrow> int \<times> 's bench_state_scheme" where
  "egress_part E upd v s =
     (let fd = obj_get E egress_mapfile in
      if fd < 0 then (EXIT_FAILURE, s)
      else if egress_ifindex_arg v \<noteq> -1 then
        (let (ret, m) = upd fd (b_egress s) 0 (egress_ifindex_arg v) BPF_ANY; s = s\<lparr>b_egress := m\<rparr> in
         if ret \<noteq> 0 then (EXIT_FAILURE, s) else (ret, s))
      else (case b_egress s 0 of None \<Rightarrow> (EXIT_FAILURE, s) | Some i \<Rightarrow> (0, s)))"

definition tc_bench_main ::
  "'e sys_env_scheme \<Rightarrow> (int \<Rightarrow> (int, int) map_upd) \<Rightarrow> (int \<Rightarrow> (int, info) map_upd) \<Rightarrow> string \<Rightarrow> bench_opt list
   \<Rightarrow> 's tc_bench_state_scheme \<Rightarrow> int \<times> 's tc_bench_state_scheme" where
  "tc_bench_main E upd iupd argv0 opts s =
     (let bpf_obj = take 255 (argv0 @ ''_kern.o'') in
      case bench_options E opts bench_init of
        Inl code \<Rightarrow> (code, s)
      | Inr v \<Rightarrow>
          let info = \<lparr>i_srcip = srcip_arg v, dstmac = Mac 0 0 0 0 0 0, ops = 0\<rparr>;
              (r, s) = bench_commands E 2 bpf_obj v s in
          case r of Some code \<Rightarrow> (code, s)
          | None \<Rightarrow>
              if has_srcip v then
                (let fd = obj_get E infomapfile in
                 if fd < 0 then (EXIT_FAILURE, s)
                 else let (ret, m) = iupd fd (b_info s) 0 info BPF_ANY; s = s\<lparr>b_info := m\<rparr> in
                   if ret \<noteq> 0 then (EXIT_FAILURE, s) else egress_part E upd v s)
              else egress_part E upd v s)"

definition flow_monitor_main ::
  "'e sys_env_scheme \<Rightarrow> (int \<Rightarrow> (int, int) map_upd) \<Rightarrow> (int \<Rightarrow> (int, u32) map_upd) \<Rightarrow> string \<Rightarrow> bench_opt list
   \<Rightarrow> 's monitor_user_state_scheme \<Rightarrow> int \<times> 's monitor_user_state_scheme" where
  "flow_monitor_main E upd supd argv0 opts s =
     (let bpf_obj = take 255 (argv0 @ ''_kern.o'') in
      case monitor_options E opts bench_init of
        Inl code \<Rightarrow> (code, s)
      | Inr v \<Rightarrow>
          if \<not> has_srcip v then (EXIT_FAILURE, s)
          else
            let (r, s) = bench_commands E 1 bpf_obj v s in
            case r of Some code \<Rightarrow> (code, s)
            | None \<Rightarrow>
                (let fd = obj_get E srcipmapfile in
                 if fd < 0 then (EXIT_FAILURE, s)
                 else let (ret, m) = supd fd (m_srcip s) 0 (srcip_arg v) BPF_ANY; s = s\<lparr>m_srcip := m\<rparr> in
                   if ret \<noteq> 0 then (EXIT_FAILURE, s) else egress_part E upd v s))"

section \<open>Lemmas\<close>

text \<open>The name buffers keep their size and their last NUL, so they always hold a C string.\<close>

definition name_ok :: "string \<Rightarrow> bool" where
  "name_ok b \<longleftrightarrow> length b = IF_NAMESIZE \<and> last b = CHR 0x00"

lemma validate_ifname_name_ok:
  "name_ok b \<Longrightarrow> name_ok (snd (validate_ifname arg b))"
  by (auto simp: name_ok_def validate_ifname_def IF_NAMESIZE_def last_drop)

lemma name_arg_ok: "name_arg arg b = Some n \<Longrightarrow> name_ok b \<Longrightarrow> name_ok n"
  using validate_ifname_name_ok [of b]
  by (auto simp: name_arg_def Let_def split: option.splits if_splits prod.splits) (metis snd_conv)

lemma bench_option_names:
  assumes "bench_option E opt v = Inr v'" "name_ok (ingress_ifname v)" "name_ok (egress_ifname v)"
  shows "name_ok (ingress_ifname v') \<and> name_ok (egress_ifname v')"
  using assms validate_ifname_name_ok
  by (cases "(E, opt, v)" rule: bench_option.cases)
    (auto simp: Let_def dest: name_arg_ok split: if_splits prod.splits option.splits, (metis snd_conv)+)

lemma bench_options_names:
  "bench_options E opts v = Inr v' \<Longrightarrow> name_ok (ingress_ifname v) \<Longrightarrow> name_ok (egress_ifname v)
    \<Longrightarrow> name_ok (ingress_ifname v') \<and> name_ok (egress_ifname v')"
proof (induction opts arbitrary: v)
  case (Cons opt opts)
  then show ?case by (auto dest: bench_option_names split: sum.splits)
qed simp

text \<open>A shorter name after a longer one leaves the tail of the longer one in the buffer.\<close>

lemma stale_name:
  "bench_options E [Opt_i ''eth10'', Opt_l (Some ''lo'')] bench_init = Inr v \<Longrightarrow>
    c_text (ingress_ifname v) = ''loh10''"
  by (auto simp: bench_init_def Let_def validate_ifname_def IF_NAMESIZE_def is_alnum_def name_arg_def
      c_text_def numeral_eq_Suc split: if_splits option.splits)

text \<open>The commands leave the maps alone; the egress part sets the egress map.\<close>

lemma run_system_cmds: "run_system E c s = (ret, s') \<Longrightarrow> \<exists>cs. s' = s\<lparr>cmds := cs\<rparr>"
  by (auto simp: run_system_def Let_def)

lemma update_cmds: "(s\<lparr>cmds := a\<rparr>)\<lparr>cmds := b\<rparr> = s\<lparr>cmds := b\<rparr>"
  by simp

lemma bench_commands_cmds: "bench_commands E prio obj v s = (r, s') \<Longrightarrow> \<exists>cs. s' = s\<lparr>cmds := cs\<rparr>"
proof -
  have self: "\<exists>cs. s = s\<lparr>cmds := cs\<rparr>" for s :: "'a host_scheme"
    by (rule exI [of _ "cmds s"]) simp
  have trans: "\<exists>cs. t = s\<lparr>cmds := cs\<rparr> \<Longrightarrow> \<exists>cs. u = t\<lparr>cmds := cs\<rparr> \<Longrightarrow> \<exists>cs. u = s\<lparr>cmds := cs\<rparr>"
    for s t u :: "'a host_scheme" by auto
  have attach: "tc_ingress_attach_bpf E tc p d b s = (r, s') \<Longrightarrow> \<exists>cs. s' = s\<lparr>cmds := cs\<rparr>"
    and list: "tc_list_ingress_filter E tc d s = (r, s') \<Longrightarrow> \<exists>cs. s' = s\<lparr>cmds := cs\<rparr>"
    and remove: "tc_remove_ingress_filter E tc d s = (r, s') \<Longrightarrow> \<exists>cs. s' = s\<lparr>cmds := cs\<rparr>"
    for tc p d b r and s s' :: "'a host_scheme"
    by (auto simp: tc_ingress_attach_bpf_def tc_list_ingress_filter_def tc_remove_ingress_filter_def Let_def
        run_system_def split: prod.splits if_splits)
  assume run: "bench_commands E prio obj v s = (r, s')"
  obtain r1 s1 where 1: "(if ingress_ifindex v \<noteq> 0
      then tc_ingress_attach_bpf E (c_text (o_tc_cmd v)) prio (c_text (ingress_ifname v)) obj s else (Inr 0, s)) = (r1, s1)"
    by fastforce
  then have s1: "\<exists>cs. s1 = s\<lparr>cmds := cs\<rparr>" using attach self by (auto split: if_splits)
  obtain r2 s2 where 2: "(if list_filter v
      then tc_list_ingress_filter E (c_text (o_tc_cmd v)) (c_text (ingress_ifname v)) s1 else (Inr 0, s1)) = (r2, s2)"
    by fastforce
  then have s2: "\<exists>cs. s2 = s1\<lparr>cmds := cs\<rparr>" using list self by (auto split: if_splits)
  obtain r3 s3 where 3: "tc_remove_ingress_filter E (c_text (o_tc_cmd v)) (c_text (ingress_ifname v)) s2 = (r3, s3)"
    by fastforce
  then have s3: "\<exists>cs. s3 = s2\<lparr>cmds := cs\<rparr>" by (rule remove)
  have "s' = s1 \<or> s' = s2 \<or> s' = s3"
    using run by (auto simp: bench_commands_def Let_def 1 2 3 split: sum.splits if_splits)
  with s1 trans [OF s1 s2] trans [OF trans [OF s1 s2] s3] show ?thesis by auto
qed

lemma egress_part_ok:
  assumes "egress_part E upd v s = (0, s')" and "\<And>fd. map_update (upd fd)"
  shows "\<exists>i. b_egress s' 0 = Some i \<and> (egress_ifindex_arg v \<noteq> -1 \<longrightarrow> i = egress_ifindex_arg v)
    \<and> s' = s\<lparr>b_egress := b_egress s'\<rparr>"
  using assms(1) map_update.update_ok [OF assms(2)]
  by (auto simp: egress_part_def EXIT_FAILURE_def Let_def split: if_splits prod.splits option.splits)
     (metis fst_conv fun_upd_same snd_conv)

lemma tc_bench_main_installs:
  assumes "tc_bench_main E upd iupd argv0 opts s = (0, s')" and "bench_options E opts bench_init = Inr v"
    and "\<not> remove_filter v" and "\<And>fd. map_update (upd fd)" "\<And>fd. map_update (iupd fd)"
  shows "(\<exists>i. b_egress s' 0 = Some i \<and> (egress_ifindex_arg v \<noteq> -1 \<longrightarrow> i = egress_ifindex_arg v))
    \<and> (has_srcip v \<longrightarrow> b_info s' = (b_info s)(0 \<mapsto> \<lparr>i_srcip = srcip_arg v, dstmac = Mac 0 0 0 0 0 0, ops = 0\<rparr>))"
proof -
  obtain r s1 where c: "bench_commands E 2 (take 255 (argv0 @ ''_kern.o'')) v s = (r, s1)" by fastforce
  obtain cs where s1: "s1 = s\<lparr>cmds := cs\<rparr>" using bench_commands_cmds [OF c] by blast
  have r: "r = None"
    using assms(1-3) c
    by (auto simp: tc_bench_main_def bench_commands_def tc_ingress_attach_bpf_def tc_list_ingress_filter_def
        EXIT_FAILURE_def Let_def split: option.splits sum.splits if_splits prod.splits)
  show ?thesis
  proof (cases "has_srcip v")
    case False
    then have "egress_part E upd v s1 = (0, s')"
      using assms(1,2) c r by (simp add: tc_bench_main_def Let_def)
    from egress_part_ok [OF this assms(4)] False show ?thesis by auto
  next
    case True
    let ?info = "\<lparr>i_srcip = srcip_arg v, dstmac = Mac 0 0 0 0 0 0, ops = 0\<rparr>"
    let ?fd = "obj_get E infomapfile"
    have u: "fst (iupd ?fd (b_info s1) 0 ?info BPF_ANY) = 0"
      and e: "egress_part E upd v (s1\<lparr>b_info := snd (iupd ?fd (b_info s1) 0 ?info BPF_ANY)\<rparr>) = (0, s')"
      using assms(1,2) c r True
      by (auto simp: tc_bench_main_def Let_def EXIT_FAILURE_def split: if_splits prod.splits)
    have "b_info s' = (b_info s1)(0 \<mapsto> ?info)"
      using egress_part_ok [OF e assms(4)] map_update.update_ok [OF assms(5) u] by (metis tc_bench_state.select_convs(1) tc_bench_state.surjective bench_state.update_convs(1) tc_bench_state.update_convs(1))
    with egress_part_ok [OF e assms(4)] s1 show ?thesis by auto
  qed
qed


lemma flow_monitor_main_installs:
  assumes "flow_monitor_main E upd supd argv0 opts s = (0, s')" and "monitor_options E opts bench_init = Inr v"
    and "\<not> remove_filter v" and "\<And>fd. map_update (upd fd)" "\<And>fd. map_update (supd fd)"
  shows "has_srcip v \<and> m_srcip s' 0 = Some (srcip_arg v)
    \<and> (\<exists>i. b_egress s' 0 = Some i \<and> (egress_ifindex_arg v \<noteq> -1 \<longrightarrow> i = egress_ifindex_arg v))"
proof -
  have srcip: "has_srcip v"
    using assms(1,2) by (auto simp: flow_monitor_main_def EXIT_FAILURE_def split: if_splits)
  obtain r s1 where c: "bench_commands E 1 (take 255 (argv0 @ ''_kern.o'')) v s = (r, s1)" by fastforce
  have r: "r = None"
    using assms(1-3) c srcip
    by (auto simp: flow_monitor_main_def bench_commands_def tc_ingress_attach_bpf_def tc_list_ingress_filter_def
        EXIT_FAILURE_def Let_def split: option.splits sum.splits if_splits prod.splits)
  let ?fd = "obj_get E srcipmapfile"
  have u: "fst (supd ?fd (m_srcip s1) 0 (srcip_arg v) BPF_ANY) = 0"
    and e: "egress_part E upd v (s1\<lparr>m_srcip := snd (supd ?fd (m_srcip s1) 0 (srcip_arg v) BPF_ANY)\<rparr>) = (0, s')"
    using assms(1,2) c r srcip
    by (auto simp: flow_monitor_main_def Let_def EXIT_FAILURE_def split: if_splits prod.splits)
  obtain m where "s' = s1\<lparr>m_srcip := snd (supd ?fd (m_srcip s1) 0 (srcip_arg v) BPF_ANY), b_egress := m\<rparr>"
    using egress_part_ok [OF e assms(4)] by auto
  then have "m_srcip s' 0 = Some (srcip_arg v)"
    using map_update.update_ok [OF assms(5) u] by simp
  with egress_part_ok [OF e assms(4)] srcip show ?thesis by blast
qed

lemma flow_monitor_needs_srcip:
  "monitor_options E opts bench_init = Inr v \<Longrightarrow> \<not> has_srcip v \<Longrightarrow>
    flow_monitor_main E upd supd argv0 opts s = (1, s)"
  by (simp add: flow_monitor_main_def EXIT_FAILURE_def)

text \<open>What the kernel program then does with a packet of a flow.\<close>

lemma flow_monitor_verdict:
  assumes "flow_of p = Some key" and "egress_ifindex st 0 = Some i" and "srcip st 0 = Some a"
  shows "\<exists>st'. flow_monitor K st len p =
    Some (if dec32 (take 4 (drop 26 p)) = a then redirect K i 0 else TC_ACT_OK, st')"
  using assms
  by (auto simp: flow_monitor_def flow_of_def bswap16_neq Let_def split: if_splits option.splits prod.splits)

lemma bench_init_simps [simp]:
  "ingress_ifindex bench_init = 0" "egress_ifindex_arg bench_init = -1" "\<not> list_filter bench_init"
  "\<not> remove_filter bench_init" "srcip_arg bench_init = 0" "\<not> has_srcip bench_init"
  by (simp_all add: bench_init_def)

lemma sample_sys_fd [simp]: "obj_get (sample_sys n) f = 5"
  by (simp add: sample_sys_def)

section \<open>Properties\<close>

text \<open>C36. A run of the TC redirect's loader with a source address and without \<open>--remove\<close> (which only
  deletes the filter and returns) that ends with 0 leaves the kernel program with exactly that filter
  and no rewriting: frames from the address (from anywhere, when the address is 0.0.0.0 or the text
  was not an address) go to the egress interface unchanged, whatever other options were given,
  \<open>--swap\<close> included.\<close>

theorem tc_bench_never_rewrites:
  assumes run: "tc_bench_main E upd iupd argv0 opts s = (0, s')"
    and opts: "bench_options E opts bench_init = Inr v" "has_srcip v" "\<not> remove_filter v"
    and upd: "\<And>fd. map_update (upd fd)" "\<And>fd. map_update (iupd fd)"
    and pre: "length pre = 12"
  shows "\<exists>i. b_egress s' 0 = Some i \<and> (egress_ifindex_arg v \<noteq> -1 \<longrightarrow> i = egress_ifindex_arg v)
    \<and> ingress_redirect K \<lparr>r_egress = b_egress s', infomap = b_info s'\<rparr> (ethhdr d sa t @ pre @ enc32 a @ enc32 b @ r)
      = Some (if t = ETH_P_ARP \<or> srcip_arg v \<noteq> 0 \<and> srcip_arg v \<noteq> a then TC_ACT_OK else redirect K i 0,
          ethhdr d sa t @ pre @ enc32 a @ enc32 b @ r)"
proof -
  from tc_bench_main_installs [OF run opts(1,3) upd] opts(2) obtain i where
    i: "b_egress s' 0 = Some i" "egress_ifindex_arg v \<noteq> -1 \<longrightarrow> i = egress_ifindex_arg v"
    and info: "b_info s' 0 = Some \<lparr>i_srcip = srcip_arg v, dstmac = Mac 0 0 0 0 0 0, ops = 0\<rparr>" by auto
  then show ?thesis
    using pre by (auto simp: ingress_redirect_def apply_ops_frame Let_def)
qed

definition sample_bench :: tc_bench_state where
  "sample_bench = \<lparr>cmds = [], b_egress = Map.empty, b_info = Map.empty\<rparr>"

text \<open>\<open>--srcip 10.10.10 --egress eth1 --swap\<close>: the address lacks an octet, so everything is
  redirected.\<close>

definition sample_bench_opts :: "bench_opt list" where
  "sample_bench_opts = [Opt_s ''10.10.10'', Opt_e ''eth1'', Opt_w]"

lemma sample_bench_parse: "bench_options (sample_sys 0) sample_bench_opts bench_init
    = Inr (bench_init\<lparr>has_srcip := True, egress_ifname := ''eth1'' @ replicate 12 CHR 0x00, egress_ifindex_arg := 3\<rparr>)"
proof -
  have "inet_pton ''10.10.10'' = None" by code_simp
  then show ?thesis
    by (simp add: sample_bench_opts_def bench_init_def validate_ifname_def IF_NAMESIZE_def is_alnum_def
        sample_sys_def c_text_def numeral_eq_Suc)
qed

theorem tc_bench_never_rewrites_witness:
  "\<exists>s'. tc_bench_main (sample_sys 0) (\<lambda>fd. upd_roomy) (\<lambda>fd. upd_roomy) ''tc_bench01'' sample_bench_opts sample_bench = (0, s')
    \<and> ingress_redirect sample_env \<lparr>r_egress = b_egress s', infomap = b_info s'\<rparr>
       (ethhdr mac_c mac_b ETH_P_IP @ replicate 12 0 @ enc32 1 @ enc32 2 @ [])
      = Some (7, ethhdr mac_c mac_b ETH_P_IP @ replicate 12 0 @ enc32 1 @ enc32 2 @ [])"
proof -
  obtain s' where run: "tc_bench_main (sample_sys 0) (\<lambda>fd. upd_roomy) (\<lambda>fd. upd_roomy) ''tc_bench01''
      sample_bench_opts sample_bench = (0, s')"
    by (simp add: tc_bench_main_def sample_bench_parse bench_commands_def egress_part_def
        sample_bench_def upd_roomy_def BPF_ANY_def BPF_NOEXIST_def Let_def)
  have u: "map_update (upd_roomy :: ('k, 'v) map_upd)" by (rule roomy.map_update_axioms)
  show ?thesis
    using tc_bench_never_rewrites [OF run sample_bench_parse _ _ u u, of "replicate 12 0" sample_env mac_c mac_b
        ETH_P_IP 1 2 "[]"] run
    by (auto simp: proto_defs sample_env_def)
qed

text \<open>The flow monitor's loader needs a source address: without one it ends with 1 before it
  runs any command. When it ends with 0 (and was not asked to remove the filter), the kernel
  program redirects the packets of a flow that come from the address to the interface in the
  egress map, the one of \<open>--egress\<close> if it was given, and lets those from other addresses
  pass.\<close>

lemma flow_monitor_main_filters:
  assumes parse: "monitor_options E opts bench_init = Inr v" "\<not> remove_filter v"
    and run: "flow_monitor_main E upd supd argv0 opts s = (rc, s')"
    and upd: "\<And>fd. map_update (upd fd)" "\<And>fd. map_update (supd fd)"
    and kernel: "egress_ifindex st = b_egress s'" "srcip st = m_srcip s'" "flow_of p = Some key"
  shows "if has_srcip v
    then rc = 0 \<longrightarrow> (\<exists>i st'. (egress_ifindex_arg v \<noteq> -1 \<longrightarrow> i = egress_ifindex_arg v)
      \<and> flow_monitor K st len p =
        Some (if dec32 (take 4 (drop 26 p)) = srcip_arg v then redirect K i 0 else TC_ACT_OK, st'))
    else rc = 1 \<and> s' = s"
proof (cases "has_srcip v \<and> rc = 0")
  case True
  with run have "flow_monitor_main E upd supd argv0 opts s = (0, s')" by simp
  from flow_monitor_main_installs [OF this parse upd] obtain i where
    i: "m_srcip s' 0 = Some (srcip_arg v)" "b_egress s' 0 = Some i"
    "egress_ifindex_arg v \<noteq> -1 \<longrightarrow> i = egress_ifindex_arg v" by blast
  with flow_monitor_verdict [OF kernel(3), of st i "srcip_arg v" K len] kernel(1,2) True show ?thesis
    by auto
qed (use flow_monitor_needs_srcip [OF parse(1), of upd supd argv0 s] run in auto)

definition sample_monitor_user :: monitor_user_state where
  "sample_monitor_user = \<lparr>cmds = [], b_egress = [0 \<mapsto> 4], m_srcip = Map.empty\<rparr>"

lemma sample_monitor_parse: "monitor_options (sample_sys 0) [Opt_s ''10.10.10.1''] bench_init
    = Inr (bench_init\<lparr>srcip_arg := 0x010A0A0A, has_srcip := True\<rparr>)"
proof -
  have "inet_pton ''10.10.10.1'' = Some 0x010A0A0A" by code_simp
  then show ?thesis by (simp add: monitor_option_def)
qed

lemma flow_monitor_main_sample:
  "\<exists>s' st'. flow_monitor_main (sample_sys 0) (\<lambda>fd. upd_roomy) (\<lambda>fd. upd_roomy) ''flow_monitor''
      [Opt_s ''10.10.10.1''] sample_monitor_user = (0, s')
    \<and> flow_monitor sample_monitor_env (sample_monitor\<lparr>egress_ifindex := b_egress s', srcip := m_srcip s'\<rparr>) 42 sample_inner
      = Some (7, st')"
proof -
  obtain s' where run: "flow_monitor_main (sample_sys 0) (\<lambda>fd. upd_roomy) (\<lambda>fd. upd_roomy) ''flow_monitor''
      [Opt_s ''10.10.10.1''] sample_monitor_user = (0, s')"
    by (simp add: flow_monitor_main_def sample_monitor_parse bench_commands_def egress_part_def
        sample_monitor_user_def upd_roomy_def BPF_ANY_def BPF_NOEXIST_def Let_def del: monitor_options.simps)
  have u: "map_update (upd_roomy :: ('k, 'v) map_upd)" by (rule roomy.map_update_axioms)
  have f: "flow_of sample_inner = Some sample_key"
    using sample_tuple sample_length by (simp add: flow_of_def sample_inner_def del: sample_length)
  have a: "dec32 (take 4 (drop 26 sample_inner)) = 0x010A0A0A"
    by (simp add: sample_inner_def sample_udp_def dec32_def)
  have r: "redirect sample_monitor_env = (\<lambda>i f. 7)"
    by (simp add: sample_monitor_env_def sample_env_def bpf_env.defs)
  show ?thesis
    using flow_monitor_main_filters [OF sample_monitor_parse _ run u u _ _ f,
        of "sample_monitor\<lparr>egress_ifindex := b_egress s', srcip := m_srcip s'\<rparr>" sample_monitor_env 42] run a
    by (auto simp: r)
qed

end
