(* ===== verification/RedirectUser.thy ===== *)
theory RedirectUser
  imports Loader Redirects
begin

text \<open>
  The user space halves of two forwarding functions: \<^verbatim>\<open>xdp_redirect_map_user.c\<close>, which attaches
  the XDP programs, prints the packet rate and detaches them at a signal, and the start of
  \<^verbatim>\<open>user-redirect.c\<close>, up to the loop that \<open>forward_all\<close> models.
\<close>

section \<open>Numbers in any base\<close>

text \<open>\<^verbatim>\<open>strtoul(s, NULL, 0)\<close>, converted to an \<^verbatim>\<open>int\<close>.\<close>

definition digit_value :: "char \<Rightarrow> nat" where
  "digit_value c =
     (if is_dec c then of_char c - 48
      else if c \<in> set ''abcdef'' then of_char c - 87
      else if c \<in> set ''ABCDEF'' then of_char c - 55
      else 16)"

definition base_value :: "nat \<Rightarrow> string \<Rightarrow> nat" where
  "base_value b s = foldl (\<lambda>n c. b * n + digit_value c) 0 (takeWhile (\<lambda>c. digit_value c < b) s)"

definition strtoul_int :: "string \<Rightarrow> int" where
  "strtoul_int s =
     (let s = dropWhile is_blank s;
          neg = (s \<noteq> [] \<and> hd s = CHR ''-'');
          s = (if s \<noteq> [] \<and> (hd s = CHR ''-'' \<or> hd s = CHR ''+'') then tl s else s);
          n = (if length s > 2 \<and> hd s = CHR ''0'' \<and> s ! 1 \<in> set ''xX'' \<and> digit_value (s ! 2) < 16
               then base_value 16 (drop 2 s)
               else if s \<noteq> [] \<and> hd s = CHR ''0'' then base_value 8 s else base_value 10 s);
          w = (if n \<ge> 2 ^ 64 then 2 ^ 64 - 1 else if neg then - of_nat n else of_nat n :: u64) in
      sint (ucast w :: u32))"

section \<open>The XDP redirect\<close>

definition XDP_FLAGS_UPDATE_IF_NOEXIST :: u32 where "XDP_FLAGS_UPDATE_IF_NOEXIST = 1"
definition XDP_FLAGS_SKB_MODE :: u32 where "XDP_FLAGS_SKB_MODE = 2"
definition XDP_DRV_MODE :: u32 where "XDP_DRV_MODE = 4"

datatype xdp_opt = Opt_S | Opt_N | Opt_F | Opt_bad

fun xdp_options :: "xdp_opt list \<Rightarrow> u32 \<Rightarrow> u32 option" where
  "xdp_options [] fl = Some fl"
| "xdp_options (Opt_S # opts) fl = xdp_options opts (fl OR XDP_FLAGS_SKB_MODE)"
| "xdp_options (Opt_N # opts) fl = xdp_options opts (fl OR XDP_DRV_MODE)"
| "xdp_options (Opt_F # opts) fl = xdp_options opts (fl AND NOT XDP_FLAGS_UPDATE_IF_NOEXIST)"
| "xdp_options (Opt_bad # opts) fl = None"

text \<open>
  The system: \<^verbatim>\<open>setrlimit\<close>, the descriptors of the programs in the object file (an error when
  it cannot be loaded), those of its maps, \<^verbatim>\<open>bpf_set_link_xdp_fd\<close> and the program on an
  interface (a status and an identifier), both after the earlier calls, and the identifier of a
  program by descriptor.
\<close>

type_synonym link_call = "int \<times> int \<times> u32"

record xdp_user_env = sys_env +
  setrlimit :: int
  prog_load :: "string \<Rightarrow> int list option"
  map_fd :: "string \<Rightarrow> int"
  set_link :: "link_call list \<Rightarrow> link_call \<Rightarrow> int"
  get_link_id :: "link_call list \<Rightarrow> int \<Rightarrow> int \<times> u32"
  prog_info :: "int \<Rightarrow> int \<times> u32"
  upd_tx_port :: "int \<Rightarrow> (int, int) map_upd"

record xdp_user_state =
  link_calls :: "link_call list"
  tx_port :: "int \<rightharpoonup> int"

record xdp_vars =
  xdp_flags :: u32
  ifindex_in :: int
  ifindex_out :: int
  dummy_attached :: bool
  x_prog_id :: u32
  dummy_prog_id :: u32

definition link_xdp :: "'e xdp_user_env_scheme \<Rightarrow> int \<Rightarrow> int \<Rightarrow> u32 \<Rightarrow> 's xdp_user_state_scheme \<Rightarrow> int \<times> 's xdp_user_state_scheme" where
  "link_xdp E ifindex fd fl s =
     (set_link E (link_calls s) (ifindex, fd, fl), s\<lparr>link_calls := link_calls s @ [(ifindex, fd, fl)]\<rparr>)"

definition ifindex_arg :: "'e xdp_user_env_scheme \<Rightarrow> string \<Rightarrow> int" where
  "ifindex_arg E arg = (let i = if_nametoindex E arg in if i = 0 then strtoul_int arg else i)"

text \<open>\<^verbatim>\<open>main\<close> up to the endless \<^verbatim>\<open>poll_stats\<close>: \<open>Inl\<close> is an exit code, \<open>Inr\<close> the variables with which it
  goes on polling. \<open>None\<close>: with one interface only, \<^verbatim>\<open>if_nametoindex\<close> gets a NULL pointer.\<close>

definition attach_programs ::
  "'e xdp_user_env_scheme \<Rightarrow> xdp_vars \<Rightarrow> int \<Rightarrow> int \<Rightarrow> 's xdp_user_state_scheme
   \<Rightarrow> (int + xdp_vars) \<times> 's xdp_user_state_scheme" where
  "attach_programs E v prog_fd dummy_prog_fd s =
     (let tx_port_map_fd = map_fd E ''tx_port''; rxcnt_map_fd = map_fd E ''rxcnt'' in
      if tx_port_map_fd < 0 \<or> rxcnt_map_fd < 0 then (Inl 1, s)
      else let (ret, s) = link_xdp E (ifindex_in v) prog_fd (xdp_flags v) s in
      if ret < 0 then (Inl 1, s)
      else let (ret, info) = prog_info E prog_fd in
      if ret \<noteq> 0 then (Inl ret, s)
      else let v = v\<lparr>x_prog_id := info\<rparr>;
               (ret, s) = link_xdp E (ifindex_out v) dummy_prog_fd (xdp_flags v OR XDP_FLAGS_UPDATE_IF_NOEXIST) s;
               v = (if ret < 0 then v\<lparr>dummy_attached := False\<rparr> else v);
               (ret, info) = prog_info E dummy_prog_fd in
      if ret \<noteq> 0 then (Inl ret, s)
      else let v = v\<lparr>dummy_prog_id := info\<rparr>;
               (ret, m) = upd_tx_port E tx_port_map_fd (tx_port s) 0 (ifindex_out v) BPF_ANY;
               s = s\<lparr>tx_port := m\<rparr> in
      if ret \<noteq> 0 then (Inl 0, s) else (Inr v, s))"

definition xdp_redirect_main ::
  "'e xdp_user_env_scheme \<Rightarrow> string \<Rightarrow> xdp_opt list \<Rightarrow> string list \<Rightarrow> 's xdp_user_state_scheme
   \<Rightarrow> ((int + xdp_vars) \<times> 's xdp_user_state_scheme) option" where
  "xdp_redirect_main E argv0 opts args s =
     (case xdp_options opts XDP_FLAGS_UPDATE_IF_NOEXIST of
        None \<Rightarrow> Some (Inl 1, s)
      | Some fl \<Rightarrow>
          if args = [] then Some (Inl 1, s)
          else if setrlimit E \<noteq> 0 then Some (Inl 1, s)
          else if length args < 2 then None
          else
            let v = \<lparr>xdp_flags = fl, ifindex_in = ifindex_arg E (args ! 0), ifindex_out = ifindex_arg E (args ! 1),
                     dummy_attached = True, x_prog_id = 0, dummy_prog_id = 0\<rparr> in
            case prog_load E (take 255 (argv0 @ ''_kern.o'')) of
              None \<Rightarrow> Some (Inl 1, s)
            | Some (prog_fd # dummy_prog_fd # fds) \<Rightarrow>
                if prog_fd < 0 \<or> dummy_prog_fd < 0 then Some (Inl 1, s)
                else Some (attach_programs E v prog_fd dummy_prog_fd s)
            | Some fds \<Rightarrow> Some (Inl 1, s))"

text \<open>The signal handler: the program of an interface is removed if it is still the own one.\<close>

definition detach_own ::
  "'e xdp_user_env_scheme \<Rightarrow> u32 \<Rightarrow> int \<Rightarrow> u32 \<Rightarrow> 's xdp_user_state_scheme \<Rightarrow> 's xdp_user_state_scheme option" where
  "detach_own E fl ifindex own s =
     (let (ret, curr_prog_id) = get_link_id E (link_calls s) ifindex in
      if ret \<noteq> 0 then None
      else Some (if own = curr_prog_id then snd (link_xdp E ifindex (-1) fl s) else s))"

definition int_exit :: "'e xdp_user_env_scheme \<Rightarrow> xdp_vars \<Rightarrow> 's xdp_user_state_scheme \<Rightarrow> int \<times> 's xdp_user_state_scheme" where
  "int_exit E v s =
     (case detach_own E (xdp_flags v) (ifindex_in v) (x_prog_id v) s of
        None \<Rightarrow> (1, s)
      | Some s \<Rightarrow>
          if dummy_attached v then
            (case detach_own E (xdp_flags v) (ifindex_out v) (dummy_prog_id v) s of
               None \<Rightarrow> (1, s) | Some s \<Rightarrow> (0, s))
          else (0, s))"

text \<open>Polling: \<open>readings\<close> are the values of the counters at each wake-up, one per CPU, \<open>None\<close> when the
  lookup fails, which the assertion makes an abort. The output is the rates printed.\<close>

fun poll_sum :: "u64 list \<Rightarrow> u64 list \<Rightarrow> u64" where
  "poll_sum (v # vs) (p # ps) = (v - p) + poll_sum vs ps"
| "poll_sum vs ps = 0"

fun poll_stats :: "u64 \<Rightarrow> u64 list \<Rightarrow> u64 list option list \<Rightarrow> u64 list option" where
  "poll_stats interval prev [] = Some []"
| "poll_stats interval prev (None # rs) = None"
| "poll_stats interval prev (Some values # rs) =
     (let sum = poll_sum values prev in
      map_option (\<lambda>out. if sum \<noteq> 0 then sum div interval # out else out) (poll_stats interval values rs))"

section \<open>The user space forwarder\<close>

text \<open>The sockets: a descriptor or -1 for \<^verbatim>\<open>socket\<close> and for \<^verbatim>\<open>bind\<close>, after \<open>n\<close> earlier calls.\<close>

record sock_env = sys_env +
  raw_socket :: "nat \<Rightarrow> int"
  bind_to :: "int \<Rightarrow> int \<Rightarrow> int"

definition setup_socket :: "'e sock_env_scheme \<Rightarrow> nat \<Rightarrow> int \<Rightarrow> int + int" where
  "setup_socket E n ifindex =
     (let sock = raw_socket E n in
      if sock = -1 then Inl 1
      else if bind_to E sock ifindex = -1 then Inl 1
      else Inr sock)"

text \<open>\<open>Inl\<close> is an exit code, \<open>Inr\<close> the two sockets and the address with which the loop starts.\<close>

definition user_redirect_main :: "'e sock_env_scheme \<Rightarrow> string list \<Rightarrow> int + (int \<times> int) \<times> u32" where
  "user_redirect_main E argv =
     (if length argv \<noteq> 4 then Inl 1
      else let i0 = if_nametoindex E (argv ! 1) in
      if i0 = 0 then Inl 1
      else let i1 = if_nametoindex E (argv ! 2) in
      if i1 = 0 then Inl 1
      else let filterip = (case inet_pton (argv ! 3) of Some ip \<Rightarrow> ip | None \<Rightarrow> 0) in
      case setup_socket E 0 i0 of Inl code \<Rightarrow> Inl code
      | Inr s0 \<Rightarrow>
          (case (if i0 \<noteq> i1 then setup_socket E 1 i1 else Inr s0) of Inl code \<Rightarrow> Inl code
           | Inr s1 \<Rightarrow> Inr ((s0, s1), filterip)))"

text \<open>The signal handler closes what was opened: descriptor 0 stands for a socket not opened.\<close>

definition onexit :: "int list \<Rightarrow> int \<times> int list" where
  "onexit rawsocks = (0, filter (\<lambda>fd. fd \<noteq> 0) rawsocks)"

section \<open>Lemmas\<close>

lemma int_exit_own:
  assumes "int_exit E v s = (code, s')"
  shows "\<exists>calls. link_calls s' = link_calls s @ calls \<and>
    (\<forall>(i, fd, fl)\<in>set calls. fd = -1 \<and> (\<exists>before.
       get_link_id E before i = (0, x_prog_id v) \<and> i = ifindex_in v
       \<or> get_link_id E before i = (0, dummy_prog_id v) \<and> i = ifindex_out v \<and> dummy_attached v))"
  using assms
  by (force simp: int_exit_def detach_own_def link_xdp_def Let_def split: option.splits if_splits prod.splits)

lemma poll_sum_diff:
  "length vs = length ps \<Longrightarrow> poll_sum vs ps = sum_list vs - sum_list ps"
  by (induction vs ps rule: poll_sum.induct) (simp_all add: algebra_simps)

text \<open>The kernel program on several CPUs, each with its own counter, between two wake-ups: a packet
  comes with the CPU that handles it.\<close>

fun cpu_run :: "(int \<Rightarrow> u64 \<Rightarrow> int) \<Rightarrow> (u32 \<rightharpoonup> u64) list \<Rightarrow> (nat \<times> bytes) list \<Rightarrow> (u32 \<rightharpoonup> u64) list option" where
  "cpu_run R cs [] = Some cs"
| "cpu_run R cs ((cpu, data) # ps) = do {
     ((v, c), q) \<leftarrow> xdp_redirect_map_prog R (cs ! cpu) data;
     cpu_run R (cs[cpu := c]) ps
   }"

definition counters :: "(u32 \<rightharpoonup> u64) list \<Rightarrow> u64 list" where
  "counters cs = map (\<lambda>m. the (m 0)) cs"

fun readings :: "(int \<Rightarrow> u64 \<Rightarrow> int) \<Rightarrow> (u32 \<rightharpoonup> u64) list \<Rightarrow> (nat \<times> bytes) list list \<Rightarrow> u64 list option list option" where
  "readings R cs [] = Some []"
| "readings R cs (b # bs) = do {
     cs \<leftarrow> cpu_run R cs b;
     rs \<leftarrow> readings R cs bs;
     Some (Some (counters cs) # rs)
   }"

definition counted :: "(nat \<times> bytes) list \<Rightarrow> u64" where
  "counted b = of_nat (length (filter (\<lambda>(cpu, p). 14 \<le> length p) b))"

lemma xdp_redirect_counts:
  assumes "m 0 = Some n"
  shows "\<exists>v q. xdp_redirect_map_prog R m p =
    Some ((v, if 14 \<le> length p then m(0 \<mapsto> n + 1) else m), q)"
proof (cases "14 \<le> length p")
  case True
  then obtain d s t r where "p = ethhdr d s t @ r" by (rule frame_split)
  then show ?thesis using assms by (simp add: xdp_redirect_map_prog_def swap_src_dst_mac_frame)
qed (simp add: xdp_redirect_map_prog_def)

lemma sum_list_update_word:
  "k < length xs \<Longrightarrow> sum_list (xs[k := x]) = sum_list xs - xs ! k + x" for xs :: "u64 list"
proof (induction xs arbitrary: k)
  case (Cons a xs)
  then show ?case by (cases k) (simp_all add: algebra_simps)
qed simp

lemma cpu_run_counts:
  assumes "\<forall>m\<in>set cs. m 0 \<noteq> None" and "\<forall>(cpu, p)\<in>set ps. cpu < length cs"
  shows "\<exists>cs'. cpu_run R cs ps = Some cs' \<and> length cs' = length cs \<and> (\<forall>m\<in>set cs'. m 0 \<noteq> None)
    \<and> sum_list (counters cs') = sum_list (counters cs) + counted ps"
  using assms
proof (induction ps arbitrary: cs)
  case (Cons a ps)
  obtain cpu p where a: "a = (cpu, p)" by (cases a)
  have cpu: "cpu < length cs" using Cons.prems(2) by (simp add: a)
  obtain n where n: "(cs ! cpu) 0 = Some n" using Cons.prems(1) cpu by (metis nth_mem not_None_eq)
  obtain v q where run: "xdp_redirect_map_prog R (cs ! cpu) p =
      Some ((v, if 14 \<le> length p then (cs ! cpu)(0 \<mapsto> n + 1) else cs ! cpu), q)"
    using xdp_redirect_counts [of "cs ! cpu", OF n] by blast
  let ?cs = "cs[cpu := if 14 \<le> length p then (cs ! cpu)(0 \<mapsto> n + 1) else cs ! cpu]"
  have some: "\<forall>m\<in>set ?cs. m 0 \<noteq> None"
    using Cons.prems(1) n by (auto dest!: subsetD [OF set_update_subset_insert])
  have sum: "sum_list (counters ?cs) = sum_list (counters cs) + counted [a]"
    using cpu n by (auto simp: counters_def map_update sum_list_update_word counted_def a)
  obtain cs' where "cpu_run R ?cs ps = Some cs'" "length cs' = length ?cs" "\<forall>m\<in>set cs'. m 0 \<noteq> None"
    "sum_list (counters cs') = sum_list (counters ?cs) + counted ps"
    using Cons.IH [OF some] Cons.prems(2) by auto
  then show ?case using run sum by (auto simp: a counted_def)
qed (simp add: counted_def)

lemma poll_readings:
  assumes "\<forall>m\<in>set cs. m 0 \<noteq> None" and "\<forall>b\<in>set bs. \<forall>(cpu, p)\<in>set b. cpu < length cs"
  shows "\<exists>rs. readings R cs bs = Some rs
    \<and> poll_stats i (counters cs) rs = Some (map (\<lambda>n. n div i) (filter (\<lambda>n. n \<noteq> 0) (map counted bs)))"
  using assms
proof (induction bs arbitrary: cs)
  case (Cons b bs)
  obtain cs' where b: "cpu_run R cs b = Some cs'" "length cs' = length cs" "\<forall>m\<in>set cs'. m 0 \<noteq> None"
    "sum_list (counters cs') = sum_list (counters cs) + counted b"
    using cpu_run_counts [OF Cons.prems(1), of b R] Cons.prems(2) by auto
  have "poll_sum (counters cs') (counters cs) = counted b"
    using b(2,4) by (subst poll_sum_diff) (simp_all add: counters_def)
  moreover obtain rs where "readings R cs' bs = Some rs"
    "poll_stats i (counters cs') rs = Some (map (\<lambda>n. n div i) (filter (\<lambda>n. n \<noteq> 0) (map counted bs)))"
    using Cons.IH [OF b(3)] Cons.prems(2) b(2) by auto
  ultimately show ?case using b(1) by simp
qed simp

section \<open>Property\<close>

text \<open>C39. The rates that \<open>poll_stats\<close> prints are right: for any packets handled on any CPUs between
  its wake-ups two seconds apart, it prints for each interval in which packets with a whole
  Ethernet header were handled half of their number (in 64 bits), and nothing for the others.\<close>

theorem poll_stats_rates:
  assumes "\<forall>b\<in>set bs. \<forall>(cpu, p)\<in>set b. cpu < ncpu"
  shows "\<exists>rs. readings R (replicate ncpu [0 \<mapsto> 0]) bs = Some rs
    \<and> poll_stats 2 (replicate ncpu 0) rs = Some (map (\<lambda>n. n div 2) (filter (\<lambda>n. n \<noteq> 0)
        (map (\<lambda>b. of_nat (length (filter (\<lambda>(cpu, p). 14 \<le> length p) b))) bs)))"
proof -
  let ?cs = "replicate ncpu [0 \<mapsto> 0] :: (u32 \<rightharpoonup> u64) list"
  have "counters ?cs = replicate ncpu 0" by (simp add: counters_def)
  moreover have "counted = (\<lambda>b. of_nat (length (filter (\<lambda>(cpu, p). 14 \<le> length p) b)))"
    by (simp add: fun_eq_iff counted_def)
  ultimately show ?thesis
    using poll_readings [of ?cs bs R 2] assms by auto
qed

text \<open>Two CPUs: four packets and a runt, then nothing.\<close>

theorem poll_stats_rates_witness:
  "\<exists>rs. readings (\<lambda>p f. 4) (replicate 2 [0 \<mapsto> 0])
      [[(0, sample_inner), (1, sample_inner), (0, [1, 2]), (0, sample_inner), (1, sample_inner)], []] = Some rs
    \<and> poll_stats 2 (replicate 2 0) rs = Some [2]"
proof -
  have c: "\<forall>b\<in>set [[(0, sample_inner), (1, sample_inner), (0, [1, 2]), (0, sample_inner), (1, sample_inner)], []].
      \<forall>(cpu, p)\<in>set b. cpu < (2 :: nat)" by simp
  show ?thesis
    using poll_stats_rates [OF c, of "\<lambda>p f. 4"] by simp
qed

end
