(* ===== verification/KefirTools.thy ===== *)
theory KefirTools
  imports CString
begin

text \<open>
  The tools around the generated filter, in \<^verbatim>\<open>src/functions/firewall/firewall-libkefir/\<close>:
  \<^verbatim>\<open>generate-firewall.c\<close>, \<^verbatim>\<open>fill-map.c\<close>, \<^verbatim>\<open>tcflower2json.c\<close> and \<^verbatim>\<open>json2c.c\<close>. libkefir is a
  parameter; a filter is the list of the rules loaded into it. \<open>None\<close> is a run that dereferences
  a NULL pointer or destroys a program through an uninitialised pointer.
\<close>

record kefir_env =
  filter_init_ok :: bool
  k_stdin :: "string list"
  k_fopen :: "string \<Rightarrow> string list option"
  rule_load :: "string list \<Rightarrow> string \<Rightarrow> int"
  convert_ok :: "string list \<Rightarrow> bool"
  cprog_to_file :: "string list \<Rightarrow> string \<Rightarrow> int"
  compile_to_bpf :: "string \<Rightarrow> int"
  fill_pinned_map :: "string list \<Rightarrow> string \<Rightarrow> int"
  save_to_file :: "string list \<Rightarrow> string \<Rightarrow> int"
  load_from_file :: "string \<Rightarrow> string list option"

text \<open>What a tool has done, in order.\<close>

datatype kefir_action =
    Wrote_program "string list" string | Compiled string | Filled_map "string list" string
  | Saved_filter "string list" string | Printed_program "string list"

definition cprogname :: string where "cprogname = ''firewall_kern.c''"
definition mappath :: string where "mappath = ''/sys/fs/bpf/tc/globals/rules''"

text \<open>The pieces that \<^verbatim>\<open>fgets\<close> returns for the file that \<^verbatim>\<open>argv[1]\<close> names.\<close>

definition open_rules :: "kefir_env \<Rightarrow> string list \<Rightarrow> string list option" where
  "open_rules E argv =
     (if length argv < 2 then None
      else if argv ! 1 = ''-'' then Some (k_stdin E)
      else k_fopen E (argv ! 1))"

text \<open>The loop that loads the rules; the second component says whether all were accepted.\<close>

fun load_rules :: "kefir_env \<Rightarrow> string list \<Rightarrow> string list \<Rightarrow> string list \<times> bool" where
  "load_rules E rules [] = (rules, True)"
| "load_rules E rules (buf # bufs) =
     (if rule_load E rules buf \<noteq> 0 then (rules, False) else load_rules E (rules @ [buf]) bufs)"

definition generate_firewall_main :: "kefir_env \<Rightarrow> string list \<Rightarrow> (int \<times> kefir_action list) option" where
  "generate_firewall_main E argv =
     (if \<not> filter_init_ok E then Some (-1, [])
      else do {
        bufs \<leftarrow> open_rules E argv;
        let (rules, ok) = load_rules E [] bufs;
        if \<not> ok then None
        else if \<not> convert_ok E rules then Some (-1, [])
        else let err = cprog_to_file E rules cprogname in
        if err \<noteq> 0 then Some (err, [Wrote_program rules cprogname])
        else Some (compile_to_bpf E cprogname, [Wrote_program rules cprogname, Compiled cprogname])
      })"

definition fill_map_main :: "kefir_env \<Rightarrow> string list \<Rightarrow> (int \<times> kefir_action list) option" where
  "fill_map_main E argv =
     (if \<not> filter_init_ok E then Some (-1, [])
      else do {
        bufs \<leftarrow> open_rules E argv;
        let (rules, ok) = load_rules E [] bufs;
        if \<not> ok then None
        else if \<not> convert_ok E rules then Some (-1, [])
        else let err = cprog_to_file E rules cprogname in
        if err \<noteq> 0 then Some (err, [Wrote_program rules cprogname])
        else Some (fill_pinned_map E rules mappath, [Wrote_program rules cprogname, Filled_map rules mappath])
      })"

definition tcflower2json_main :: "kefir_env \<Rightarrow> string list \<Rightarrow> (int \<times> kefir_action list) option" where
  "tcflower2json_main E argv =
     (if \<not> filter_init_ok E then Some (-1, [])
      else do {
        bufs \<leftarrow> open_rules E argv;
        let (rules, ok) = load_rules E [] bufs;
        if \<not> ok then Some (-1, [])
        else if save_to_file E rules ''-'' \<noteq> 0 then Some (-1, [Saved_filter rules ''-''])
        else Some (0, [Saved_filter rules ''-''])
      })"

definition json2c_main :: "kefir_env \<Rightarrow> string list \<Rightarrow> int \<times> kefir_action list" where
  "json2c_main E argv =
     (if length argv \<noteq> 2 then (-1, [])
      else case load_from_file E (argv ! 1) of
        None \<Rightarrow> (-1, [])
      | Some rules \<Rightarrow> if \<not> convert_ok E rules then (-1, []) else (0, [Printed_program rules]))"

section \<open>Lemmas\<close>

lemma load_rules_all: "load_rules E rules bufs = (rules', True) \<Longrightarrow> rules' = rules @ bufs"
proof (induction bufs arbitrary: rules)
  case (Cons buf bufs)
  then have "load_rules E (rules @ [buf]) bufs = (rules', True)" by (simp split: if_splits)
  from Cons.IH [OF this] show ?case by simp
qed simp

lemma load_rules_prefix: "load_rules E rules bufs = (rules', ok) \<Longrightarrow> \<exists>rest. rules @ bufs = rules' @ rest"
proof (induction bufs arbitrary: rules)
  case (Cons buf bufs)
  then show ?case by (cases "rule_load E rules buf = 0") fastforce+
qed simp

text \<open>A tool that returns 0 has used every rule of its file.\<close>

lemma generate_firewall_ok:
  assumes "generate_firewall_main E argv = Some (0, acts)" and "filter_init_ok E"
  shows "\<exists>bufs. open_rules E argv = Some bufs \<and> acts = [Wrote_program bufs cprogname, Compiled cprogname]"
  using assms load_rules_all
  by (fastforce simp: generate_firewall_main_def Let_def split: Option.bind_splits if_splits prod.splits)

lemma fill_map_ok:
  assumes "fill_map_main E argv = Some (0, acts)" and "filter_init_ok E"
  shows "\<exists>bufs. open_rules E argv = Some bufs \<and> acts = [Wrote_program bufs cprogname, Filled_map bufs mappath]"
  using assms load_rules_all
  by (fastforce simp: fill_map_main_def Let_def split: Option.bind_splits if_splits prod.splits)

text \<open>A rule that is refused ends both tools through an uninitialised pointer, but not the third.\<close>

lemma refused_rule:
  assumes "filter_init_ok E" "open_rules E argv = Some bufs" "load_rules E [] bufs = (rules, False)"
  shows "generate_firewall_main E argv = None" "fill_map_main E argv = None"
    "tcflower2json_main E argv = Some (-1, [])"
  using assms by (simp_all add: generate_firewall_main_def fill_map_main_def tcflower2json_main_def)

end
